(* ===== verification/Prelude.thy ===== *)
theory Prelude
  imports Complex_Main "HOL-Library.Word"
begin

text \<open>
  Shared vocabulary of the development: the machine integers, byte strings, times and
  durations of the Go program, decimal and hexadecimal printing, and the small generic
  lemmas and simplification bundles that the component theories use.

  \<^item> a Go \<^verbatim>\<open>uint16\<close> register value is a 16-bit word, a byte an 8-bit word;
  \<^item> a Go string is the list of its UTF-8 bytes (HOL's \<open>char\<close> is a byte);
  \<^item> \<^verbatim>\<open>time.Duration\<close> is an integer number of nanoseconds, \<^verbatim>\<open>time.Time\<close> the number of
    nanoseconds since Go's zero time (1 January of year 1, UTC), so that \<^verbatim>\<open>IsZero\<close> is
    equality with 0; \<^verbatim>\<open>Sub\<close> saturates at the limits of int64 as Go's does.
\<close>

unbundle bit_operations_syntax

named_theorems enum_defs \<open>definitions of the named constants of the program's enumerations\<close>
named_theorems op_defs \<open>definitions of the operations of a component, unfolded together\<close>

type_synonym u8 = "8 word"
type_synonym u16 = "16 word"
type_synonym gotime = int
type_synonym duration = int

subsection \<open>Durations and times\<close>

definition Nanosecond :: duration where "Nanosecond = 1"
definition Millisecond :: duration where "Millisecond = 1000000"
definition Second :: duration where "Second = 1000000000"
definition Minute :: duration where "Minute = 60 * 1000000000"

lemmas dur_defs [enum_defs] = Nanosecond_def Millisecond_def Second_def Minute_def

definition int64_max :: int where "int64_max = 2 ^ 63 - 1"
definition int64_min :: int where "int64_min = - (2 ^ 63)"

definition zero_time :: gotime where "zero_time = 0"

definition IsZero :: "gotime \<Rightarrow> bool" where "IsZero t \<longleftrightarrow> t = zero_time"

definition time_sub :: "gotime \<Rightarrow> gotime \<Rightarrow> duration" where
  "time_sub t u = max int64_min (min int64_max (t - u))"

lemma time_sub_exact:
  "int64_min \<le> t - u \<Longrightarrow> t - u \<le> int64_max \<Longrightarrow> time_sub t u = t - u"
  by (simp add: time_sub_def)

lemma time_sub_less_int64_max:
  "time_sub t u < d \<Longrightarrow> d \<le> int64_max \<Longrightarrow> t - u < d"
  by (auto simp: time_sub_def int64_min_def int64_max_def)

lemma time_sub_le_iff:
  "int64_min \<le> d \<Longrightarrow> d < int64_max \<Longrightarrow> time_sub t u \<le> d \<longleftrightarrow> t - u \<le> d"
  by (auto simp: time_sub_def int64_min_def int64_max_def)

subsection \<open>Printing numbers\<close>

definition digit_char :: "nat \<Rightarrow> char" where
  "digit_char d = char_of (48 + d)"

definition digit_val :: "char \<Rightarrow> nat option" where
  "digit_val c = (let n = (of_char c :: nat) in if 48 \<le> n \<and> n \<le> 57 then Some (n - 48) else None)"

text \<open>\<^verbatim>\<open>%d\<close> and \<^verbatim>\<open>strconv.FormatUint(n, 10)\<close>.\<close>

fun dec_nat :: "nat \<Rightarrow> string" where
  "dec_nat n = (if n < 10 then [digit_char n] else dec_nat (n div 10) @ [digit_char (n mod 10)])"

declare dec_nat.simps [simp del]

definition dec_int :: "int \<Rightarrow> string" where
  "dec_int i = (if i < 0 then CHR ''-'' # dec_nat (nat (- i)) else dec_nat (nat i))"

text \<open>\<^verbatim>\<open>%04X\<close> of a 16-bit value: exactly four upper-case hexadecimal digits.\<close>

definition hex_char :: "nat \<Rightarrow> char" where
  "hex_char d = (if d < 10 then char_of (48 + d) else char_of (55 + d))"

definition hex4 :: "u16 \<Rightarrow> string" where
  "hex4 w = (let n = unat w in
     [hex_char (n div 4096 mod 16), hex_char (n div 256 mod 16),
      hex_char (n div 16 mod 16), hex_char (n mod 16)])"

lemma digit_val_digit_char [simp]: "d < 10 \<Longrightarrow> digit_val (digit_char d) = Some d"
  by (simp add: digit_val_def digit_char_def Let_def)

lemma digit_val_less: "digit_val c = Some d \<Longrightarrow> d < 10"
  by (auto simp: digit_val_def Let_def split: if_splits)

lemma digit_char_digit_val: "digit_val c = Some d \<Longrightarrow> digit_char d = c"
  by (auto simp: digit_val_def digit_char_def Let_def split: if_splits)

lemma digit_val_None_minus [simp]: "digit_val (CHR ''-'') = None"
  by (simp add: digit_val_def)

lemma digit_val_None_dot [simp]: "digit_val (CHR ''.'') = None"
  by (simp add: digit_val_def)

text \<open>Reading a decimal numeral: every character a digit, at least one of them.\<close>

fun read_digits :: "nat \<Rightarrow> string \<Rightarrow> nat option" where
  "read_digits acc [] = Some acc"
| "read_digits acc (c # cs) =
     (case digit_val c of None \<Rightarrow> None | Some d \<Rightarrow> read_digits (10 * acc + d) cs)"

lemma read_digits_append:
  "read_digits acc (xs @ ys) =
     (case read_digits acc xs of None \<Rightarrow> None | Some n \<Rightarrow> read_digits n ys)"
  by (induction acc xs rule: read_digits.induct) (auto split: option.splits)

lemma dec_nat_nonempty [simp]: "dec_nat n \<noteq> []"
  by (subst dec_nat.simps) simp

lemma read_digits_dec_nat: "read_digits 0 (dec_nat n) = Some n"
proof (induction n rule: dec_nat.induct)
  case (1 n)
  show ?case
  proof (cases "n < 10")
    case True
    then show ?thesis by (subst dec_nat.simps) simp
  next
    case False
    with "1.IH" have "read_digits 0 (dec_nat (n div 10)) = Some (n div 10)" by simp
    with False show ?thesis
      by (subst dec_nat.simps) (simp add: read_digits_append)
  qed
qed

lemma dec_nat_inject [simp]: "dec_nat m = dec_nat n \<longleftrightarrow> m = n"
  by (metis option.inject read_digits_dec_nat)

lemma dec_nat_digits: "c \<in> set (dec_nat n) \<Longrightarrow> \<exists>d<10. c = digit_char d"
proof (induction n rule: dec_nat.induct)
  case (1 n)
  show ?case
  proof (cases "n < 10")
    case True
    with "1.prems" show ?thesis by (auto simp: dec_nat.simps [of n])
  next
    case False
    with "1.prems" have "c \<in> set (dec_nat (n div 10)) \<or> c = digit_char (n mod 10)"
      by (auto simp: dec_nat.simps [of n])
    with "1.IH" [OF False] show ?thesis by force
  qed
qed

lemma dec_nat_no_dot: "CHR ''.'' \<notin> set (dec_nat n)"
  using dec_nat_digits [of "CHR ''.''" n]
  by (metis digit_val_None_dot digit_val_digit_char option.distinct(1))

subsection \<open>Bits of 16-bit registers\<close>

lemma word_eqI16: "(\<And>n. n < 16 \<Longrightarrow> bit (v :: u16) n = bit w n) \<Longrightarrow> v = w"
  by (rule bit_word_eqI) simp

lemma mask3_bit: "bit (3 :: u16) n \<longleftrightarrow> n < 2"
proof -
  have "bit (mask 2 :: u16) n \<longleftrightarrow> n < 2" by (auto simp: bit_mask_iff)
  then show ?thesis by (simp add: mask_eq_decr_exp numeral_2_eq_2)
qed

lemma and_push_bit_zero_iff: "n < 16 \<Longrightarrow> (w :: u16) AND push_bit n 1 = 0 \<longleftrightarrow> \<not> bit w n"
  by (simp add: and_exp_eq_0_iff_not_bit push_bit_eq_mult)

lemma unat_and_mask: "unat ((w :: u16) AND mask k) = unat w mod 2 ^ k"
  by (simp flip: take_bit_eq_mask take_bit_eq_mod add: unsigned_take_bit_eq)

lemma bit_imp_less16: "bit (w :: u16) n \<Longrightarrow> n < 16"
  using bit_imp_le_length [of w n] by simp

lemma word16_zero_iff: "(w :: u16) = 0 \<longleftrightarrow> (\<forall>n<16. \<not> bit w n)"
  by (auto simp: bit_eq_iff dest: bit_imp_less16)

lemma unat_low_bits: "unat ((w :: u16) AND 0xFF) = unat w mod 256"
    "unat (w AND 0x1F) = unat w mod 32" "unat (w AND 0xF) = unat w mod 16"
  using unat_and_mask [of w 8] unat_and_mask [of w 5] unat_and_mask [of w 4]
  by (simp_all add: mask_eq_decr_exp)

lemma unat_drop: "unat (drop_bit k (w :: u16)) = unat w div 2 ^ k"
  by (subst unat_drop_bit_eq) (rule drop_bit_eq_div)

lemma unat16_less: "unat (w :: u16) < 65536"
  using unsigned_less [of w] by simp

end
