(* ===== verification/GoFloat.thy ===== *)
theory GoFloat
  imports Prelude
begin

text \<open>
  Go's \<^verbatim>\<open>float64\<close>: IEEE 754 binary64 with round-to-nearest-even. A finite float is the
  rational number it stands for; every arithmetic operation computes the exact rational
  result and rounds it once (\<open>round64\<close>), subnormals and overflow to infinity included.
  The two zeros are identified: no comparison or conversion of the program tells
  them apart. \<^verbatim>\<open>math.Round\<close>, the comparisons and the conversions to integers follow.

  The lemmas bound the relative error of one rounding; the temperature codec and the
  printing of temperatures rest on them.
\<close>

datatype f64 = NaN | Inf bool | Fin rat

subsection \<open>Rounding a rational to a float\<close>

text \<open>The position of the leading binary digit: \<open>2 powi ilog2 x \<le> x < 2 powi (ilog2 x + 1)\<close>.\<close>

function ilog2_up :: "rat \<Rightarrow> nat" where
  "ilog2_up x = (if x < 2 then 0 else Suc (ilog2_up (x / 2)))"
  by pat_completeness auto
termination
proof (relation "measure (\<lambda>x. nat \<lfloor>x\<rfloor>)", simp)
  fix x :: rat
  assume "\<not> x < 2"
  then have "\<lfloor>x / 2\<rfloor> < \<lfloor>x\<rfloor>" and "0 < \<lfloor>x\<rfloor>" by linarith+
  then show "(x / 2, x) \<in> measure (\<lambda>x. nat \<lfloor>x\<rfloor>)" by simp
qed

function ilog2_down :: "rat \<Rightarrow> nat" where
  "ilog2_down x = (if x \<le> 0 \<or> 1 \<le> x then 0 else Suc (ilog2_down (2 * x)))"
  by pat_completeness auto
termination
proof (relation "measure (\<lambda>x. nat \<lceil>1 / x\<rceil>)", simp)
  fix x :: rat
  assume "\<not> (x \<le> 0 \<or> 1 \<le> x)"
  then have y: "1 < 1 / x" by simp
  have e: "1 / (2 * x) = (1 / x) / 2" by simp
  have half: "\<lceil>z / 2\<rceil> < \<lceil>z\<rceil> \<and> 0 < \<lceil>z\<rceil>" if "1 < z" for z :: rat
  proof (cases "z \<le> 2")
    case True
    then have "\<lceil>z / 2\<rceil> \<le> 1" by (simp add: ceiling_le_iff)
    moreover from that have "1 < \<lceil>z\<rceil>" by (simp add: less_ceiling_iff)
    ultimately show ?thesis by linarith
  next
    case False
    then have "of_int \<lceil>z / 2\<rceil> < z" using of_int_ceiling_le_add_one [of "z / 2"] by linarith
    also have "z \<le> of_int \<lceil>z\<rceil>" by simp
    finally have "\<lceil>z / 2\<rceil> < \<lceil>z\<rceil>" by simp
    moreover from that have "0 < \<lceil>z\<rceil>" by simp
    ultimately show ?thesis by simp
  qed
  from half [OF y] have "\<lceil>(1 / x) / 2\<rceil> < \<lceil>1 / x\<rceil>" and "0 < \<lceil>1 / x\<rceil>" by auto
  then show "(2 * x, x) \<in> measure (\<lambda>x. nat \<lceil>1 / x\<rceil>)" by (simp add: e)
qed

declare ilog2_up.simps [simp del] ilog2_down.simps [simp del]

definition ilog2 :: "rat \<Rightarrow> int" where
  "ilog2 x = (if 1 \<le> x then int (ilog2_up x) else - int (ilog2_down x))"

definition rnd_even :: "rat \<Rightarrow> int" where
  "rnd_even x = (let f = \<lfloor>x\<rfloor>; d = x - of_int f in
     if d < 1 / 2 then f else if 1 / 2 < d then f + 1 else if even f then f else f + 1)"

definition ulp64 :: "rat \<Rightarrow> rat" where
  "ulp64 x = 2 powi (max (ilog2 \<bar>x\<bar> - 52) (-1074))"

definition round64 :: "rat \<Rightarrow> f64" where
  "round64 x =
     (if x = 0 then Fin 0
      else let r = of_int (rnd_even (x / ulp64 x)) * ulp64 x in
           if 2 ^ 1024 \<le> \<bar>r\<bar> then Inf (x < 0) else Fin r)"

subsection \<open>Operations\<close>

definition f64_of_int :: "int \<Rightarrow> f64" where "f64_of_int i = round64 (of_int i)"

fun f_neg_inf :: "f64 \<Rightarrow> bool" where
  "f_neg_inf NaN = False"
| "f_neg_inf (Inf s) = s"
| "f_neg_inf (Fin x) = (x < 0)"

fun f_mul :: "f64 \<Rightarrow> f64 \<Rightarrow> f64" where
  "f_mul (Fin x) (Fin y) = round64 (x * y)"
| "f_mul NaN _ = NaN"
| "f_mul _ NaN = NaN"
| "f_mul (Inf s) (Fin y) = (if y = 0 then NaN else Inf (s \<noteq> (y < 0)))"
| "f_mul (Fin x) (Inf s) = (if x = 0 then NaN else Inf ((x < 0) \<noteq> s))"
| "f_mul (Inf s) (Inf t) = Inf (s \<noteq> t)"

fun f_add :: "f64 \<Rightarrow> f64 \<Rightarrow> f64" where
  "f_add (Fin x) (Fin y) = round64 (x + y)"
| "f_add NaN _ = NaN"
| "f_add _ NaN = NaN"
| "f_add (Inf s) (Fin y) = Inf s"
| "f_add (Fin x) (Inf s) = Inf s"
| "f_add (Inf s) (Inf t) = (if s = t then Inf s else NaN)"

definition f_sub :: "f64 \<Rightarrow> f64 \<Rightarrow> f64" where
  "f_sub x y = f_add x (case y of NaN \<Rightarrow> NaN | Inf s \<Rightarrow> Inf (\<not> s) | Fin r \<Rightarrow> Fin (- r))"

text \<open>Division by a finite non-zero float, the only division in the program.\<close>

fun f_div :: "f64 \<Rightarrow> rat \<Rightarrow> f64" where
  "f_div NaN _ = NaN"
| "f_div (Inf s) y = Inf (s \<noteq> (y < 0))"
| "f_div (Fin x) y = round64 (x / y)"

fun f_lt :: "f64 \<Rightarrow> f64 \<Rightarrow> bool" where
  "f_lt (Fin x) (Fin y) = (x < y)"
| "f_lt NaN _ = False"
| "f_lt _ NaN = False"
| "f_lt (Inf s) (Fin y) = s"
| "f_lt (Fin x) (Inf s) = (\<not> s)"
| "f_lt (Inf s) (Inf t) = (s \<and> \<not> t)"

definition f_le :: "f64 \<Rightarrow> f64 \<Rightarrow> bool" where
  "f_le x y \<longleftrightarrow> f_lt x y \<or> (x = y \<and> x \<noteq> NaN)"

text \<open>\<^verbatim>\<open>math.Round\<close>: to the nearest integer, halves away from zero.\<close>

definition rnd_away :: "rat \<Rightarrow> int" where
  "rnd_away x = (if x < 0 then - \<lfloor>- x + 1 / 2\<rfloor> else \<lfloor>x + 1 / 2\<rfloor>)"

fun f_round :: "f64 \<Rightarrow> f64" where
  "f_round (Fin x) = Fin (of_int (rnd_away x))"
| "f_round v = v"

text \<open>Conversion to an integer truncates towards zero.\<close>

definition rat_trunc :: "rat \<Rightarrow> int" where
  "rat_trunc x = (if x < 0 then - \<lfloor>- x\<rfloor> else \<lfloor>x\<rfloor>)"

text \<open>
  \<^verbatim>\<open>int64(f)\<close>: where the truncated value does not fit, the Go specification leaves the
  result to the implementation, the parameter \<open>oor\<close>. Two instances are the ones of the
  architectures the program is built for.
\<close>

definition f_to_int64 :: "(f64 \<Rightarrow> int) \<Rightarrow> f64 \<Rightarrow> int" where
  "f_to_int64 oor f =
     (case f of
        Fin x \<Rightarrow> (let i = rat_trunc x in if int64_min \<le> i \<and> i \<le> int64_max then i else oor f)
      | _ \<Rightarrow> oor f)"

definition oor_amd64 :: "f64 \<Rightarrow> int" where "oor_amd64 f = int64_min"

definition oor_arm64 :: "f64 \<Rightarrow> int" where
  "oor_arm64 f = (case f of NaN \<Rightarrow> 0 | Inf s \<Rightarrow> (if s then int64_min else int64_max)
     | Fin x \<Rightarrow> (if x < 0 then int64_min else int64_max))"

subsection \<open>Error of one rounding\<close>

lemma ilog2_up_bounds: "1 \<le> x \<Longrightarrow> 2 ^ ilog2_up x \<le> x \<and> x < 2 * 2 ^ ilog2_up x"
proof (induction x rule: ilog2_up.induct)
  case (1 x)
  show ?case
  proof (cases "x < 2")
    case True
    with "1.prems" show ?thesis by (simp add: ilog2_up.simps [of x])
  next
    case False
    then have "2 ^ ilog2_up (x / 2) \<le> x / 2 \<and> x / 2 < 2 * 2 ^ ilog2_up (x / 2)"
      using "1.IH" by simp
    with False show ?thesis by (simp add: ilog2_up.simps [of x])
  qed
qed

lemma ilog2_down_bounds:
  "0 < x \<Longrightarrow> x < 2 \<Longrightarrow> 1 \<le> x * 2 ^ ilog2_down x \<and> x * 2 ^ ilog2_down x < 2"
proof (induction x rule: ilog2_down.induct)
  case (1 x)
  show ?case
  proof (cases "1 \<le> x")
    case True
    with "1.prems" show ?thesis by (simp add: ilog2_down.simps [of x])
  next
    case False
    then have "1 \<le> 2 * x * 2 ^ ilog2_down (2 * x) \<and> 2 * x * 2 ^ ilog2_down (2 * x) < 2"
      using "1.IH" "1.prems" by simp
    with False "1.prems" show ?thesis by (simp add: ilog2_down.simps [of x] mult.assoc)
  qed
qed

lemma ilog2_bounds:
  assumes "0 < x"
  shows "2 powi ilog2 x \<le> x" and "x < 2 * 2 powi ilog2 x"
proof -
  have "2 powi ilog2 x \<le> x \<and> x < 2 * 2 powi ilog2 x"
  proof (cases "1 \<le> x")
    case True
    then show ?thesis using ilog2_up_bounds [OF True] by (simp add: ilog2_def power_int_of_nat)
  next
    case False
    with assms have "1 \<le> x * 2 ^ ilog2_down x \<and> x * 2 ^ ilog2_down x < 2"
      by (intro ilog2_down_bounds) auto
    with False show ?thesis
      by (simp add: ilog2_def power_int_minus power_int_of_nat field_simps)
  qed
  then show "2 powi ilog2 x \<le> x" and "x < 2 * 2 powi ilog2 x" by auto
qed

lemma rnd_even_err: "\<bar>of_int (rnd_even x) - x\<bar> \<le> 1 / 2"
proof -
  define d where "d = x - of_int \<lfloor>x\<rfloor>"
  have d: "0 \<le> d" "d < 1" unfolding d_def by linarith+
  have "rnd_even x = \<lfloor>x\<rfloor> \<and> d \<le> 1 / 2 \<or> rnd_even x = \<lfloor>x\<rfloor> + 1 \<and> 1 / 2 \<le> d"
    by (auto simp: rnd_even_def Let_def d_def)
  then show ?thesis using d by (auto simp: d_def)
qed

lemma two_powi_Suc: "2 * (2 :: rat) powi k = 2 powi (k + 1)"
  by (simp add: power_int_add)

lemma ulp64_pos [simp]: "0 < ulp64 x"
  by (simp add: ulp64_def)

text \<open>For magnitudes in the normal range a rounding errs by at most \<open>2\<^sup>-\<^sup>5\<^sup>3\<close> of the value.\<close>

lemma ulp64_le:
  assumes "2 powi (-1022) \<le> \<bar>x\<bar>"
  shows "ulp64 x \<le> \<bar>x\<bar> / 2 ^ 52"
proof -
  have pos: "0 < \<bar>x\<bar>"
    using assms zero_less_power_int [of "2 :: rat" "-1022"] by linarith
  have "ilog2 \<bar>x\<bar> - 52 \<ge> -1074"
  proof (rule ccontr)
    assume "\<not> ?thesis"
    then have "ilog2 \<bar>x\<bar> \<le> -1023" by simp
    then have "(2 :: rat) powi ilog2 \<bar>x\<bar> \<le> 2 powi (-1023)"
      by (intro power_int_increasing) auto
    moreover have "2 * (2 :: rat) powi (-1023) = 2 powi (-1022)"
      using two_powi_Suc [of "-1023"] by (simp del: power_int_minus)
    ultimately show False
      using ilog2_bounds(2) [OF pos] assms by linarith
  qed
  then have "ulp64 x = 2 powi (ilog2 \<bar>x\<bar> - 52)"
    unfolding ulp64_def by (subst max_absorb1) auto
  also have "\<dots> = 2 powi (ilog2 \<bar>x\<bar>) / 2 ^ 52" by (simp add: power_int_diff)
  also have "\<dots> \<le> \<bar>x\<bar> / 2 ^ 52"
    using ilog2_bounds(1) [OF pos] by (intro divide_right_mono) auto
  finally show ?thesis .
qed

lemma round64_close:
  assumes "2 powi (-1022) \<le> \<bar>x\<bar>" and "\<bar>x\<bar> < 2 ^ 1023"
  obtains r where "round64 x = Fin r" and "\<bar>r - x\<bar> \<le> \<bar>x\<bar> / 2 ^ 53"
proof -
  define u where "u = ulp64 x"
  define r where "r = of_int (rnd_even (x / u)) * u"
  have u: "0 < u" "u \<le> \<bar>x\<bar> / 2 ^ 52"
    using ulp64_le [OF assms(1)] by (auto simp: u_def)
  have x0: "x \<noteq> 0" using assms(1) zero_less_power_int [of "2 :: rat" "-1022"] by auto
  have "r - x = (of_int (rnd_even (x / u)) - x / u) * u"
    using u by (simp add: r_def field_simps)
  then have "\<bar>r - x\<bar> \<le> 1 / 2 * u"
    using rnd_even_err [of "x / u"] u(1) by (simp add: abs_mult mult_right_mono)
  with u(2) have err: "\<bar>r - x\<bar> \<le> \<bar>x\<bar> / 2 ^ 53" by simp
  have "\<bar>x\<bar> / 2 ^ 53 \<le> \<bar>x\<bar>" by (simp add: field_simps)
  with err have "\<bar>r\<bar> \<le> 2 * \<bar>x\<bar>" by linarith
  also have "\<dots> < 2 * 2 ^ 1023" using assms(2) by (intro mult_strict_left_mono) auto
  also have "(2 :: rat) * 2 ^ 1023 = 2 ^ 1024" by (simp only: power_Suc [symmetric]) simp
  finally have "\<bar>r\<bar> < 2 ^ 1024" .
  then have "round64 x = Fin r"
    using x0 by (simp add: round64_def Let_def r_def u_def)
  then show ?thesis using err by (rule that)
qed

subsection \<open>Exact values\<close>

lemma rnd_even_of_int [simp]: "rnd_even (of_int i) = i"
  by (simp add: rnd_even_def)

lemma round64_exact:
  assumes "x / ulp64 x = of_int i" and "\<bar>x\<bar> < 2 ^ 1024"
  shows "round64 x = Fin x"
proof -
  have "rnd_even (x / ulp64 x) = i" by (simp only: assms(1) rnd_even_of_int)
  moreover have "of_int i * ulp64 x = x"
    using assms(1) less_imp_neq [OF ulp64_pos [of x]] by (simp add: field_simps)
  ultimately have "of_int (rnd_even (x / ulp64 x)) * ulp64 x = x" by simp
  then show ?thesis using assms(2) by (simp add: round64_def Let_def)
qed

lemma round64_of_int:
  assumes "\<bar>i\<bar> < 2 ^ 53"
  shows "round64 (of_int i) = Fin (of_int i)"
proof (cases "i = 0")
  case False
  define x :: rat where "x = of_int i"
  have ax: "\<bar>x\<bar> < 2 ^ 53" "0 < \<bar>x\<bar>"
    using assms False by (auto simp: x_def simp flip: of_int_abs)
  have "ilog2 \<bar>x\<bar> - 52 \<le> 0"
  proof (rule ccontr)
    assume "\<not> ?thesis"
    then have "(2 :: rat) powi 53 \<le> 2 powi (ilog2 \<bar>x\<bar>)" by (intro power_int_increasing) auto
    then show False using ilog2_bounds(1) [OF ax(2)] ax(1) by simp
  qed
  then have "max (ilog2 \<bar>x\<bar> - 52) (-1074) \<le> 0" by simp
  then obtain k where k: "max (ilog2 \<bar>x\<bar> - 52) (-1074) = - int k"
    using nonpos_int_cases by blast
  have "ulp64 x = 2 powi (- int k)" by (simp only: ulp64_def k)
  then have "x / ulp64 x = of_int (i * 2 ^ k)"
    by (simp add: x_def power_int_minus power_int_of_nat divide_inverse)
  moreover have "(2 :: rat) ^ 53 \<le> 2 ^ 1024" by (rule power_increasing) auto
  then have "\<bar>x\<bar> < 2 ^ 1024" using ax(1) by (rule order.strict_trans2 [rotated])
  ultimately have "round64 x = Fin x" by (rule round64_exact)
  then show ?thesis by (simp add: x_def)
qed (simp add: round64_def)

subsection \<open>Tenths of a unit\<close>

text \<open>
  The controller's temperatures are integers counting tenths of a degree. Dividing such a
  count by 10 in floating point, and multiplying the float by 10 again, errs far less than
  half a unit: rounding recovers the count.
\<close>

lemma round64_tenths:
  assumes "\<bar>n\<bar> \<le> 65535"
  obtains c where "round64 (of_int n / 10) = Fin c"
    and "\<bar>c - of_int n / 10\<bar> \<le> \<bar>of_int n / 10\<bar> / 2 ^ 53"
proof (cases "n = 0")
  case True
  then show ?thesis using that [of 0] by (simp add: round64_def)
next
  case False
  let ?x = "of_int n / 10 :: rat"
  have lo: "1 / 10 \<le> \<bar>?x\<bar>" and hi: "\<bar>?x\<bar> \<le> 2 ^ 13"
    using False assms by (auto simp: abs_if field_simps)
  have "(2 :: rat) powi (-1022) \<le> 2 powi (-4)" by (rule power_int_increasing) auto
  also have "(2 :: rat) powi (-4) \<le> 1 / 10" by (simp add: power_int_minus)
  finally have "2 powi (-1022) \<le> \<bar>?x\<bar>" using lo by linarith
  moreover have "(2 :: rat) ^ 13 < 2 ^ 1023" by (rule power_strict_increasing) auto
  with hi have "\<bar>?x\<bar> < 2 ^ 1023" by (rule order.strict_trans1)
  ultimately show ?thesis by (rule round64_close) (rule that)
qed

lemma round64_times10:
  assumes n: "1 \<le> n" "n \<le> 65535" and c: "\<bar>c - of_int n / 10\<bar> \<le> of_int n / 10 / 2 ^ 53"
  obtains s where "round64 (c * 10) = Fin s" and "\<bar>s - of_int n\<bar> < 1 / 4"
proof -
  let ?n = "of_int n :: rat"
  have N: "1 \<le> ?n" "?n \<le> 65535" using n by auto
  have c10: "\<bar>c * 10 - ?n\<bar> \<le> ?n / 2 ^ 53" using c by (simp add: abs_if split: if_splits)
  have "?n / 2 ^ 53 \<le> ?n / 2 ^ 20" using N by (intro divide_left_mono) auto
  with c10 N have b: "1 / 2 \<le> c * 10" "c * 10 \<le> 2 ^ 17"
    by (auto simp: abs_if split: if_splits; linarith)+
  have "(2 :: rat) powi (-1022) \<le> 2 powi (-1)" by (rule power_int_increasing) auto
  then have lo: "2 powi (-1022) \<le> \<bar>c * 10\<bar>" using b(1) by (simp add: power_int_minus)
  have "(2 :: rat) ^ 17 < 2 ^ 1023" by (rule power_strict_increasing) auto
  then have hi: "\<bar>c * 10\<bar> < 2 ^ 1023" using b by (simp add: order.strict_trans1)
  from lo hi obtain s where s: "round64 (c * 10) = Fin s" "\<bar>s - c * 10\<bar> \<le> \<bar>c * 10\<bar> / 2 ^ 53"
    by (rule round64_close)
  have "\<bar>c * 10\<bar> / 2 ^ 53 < 1 / 8" using b by simp
  moreover have "?n / 2 ^ 53 < 1 / 8" using N by simp
  ultimately have "\<bar>s - ?n\<bar> < 1 / 4" using s(2) c10 by linarith
  with s(1) show ?thesis by (rule that)
qed

lemma rnd_away_near: "0 \<le> n \<Longrightarrow> \<bar>s - of_int n\<bar> < 1 / 4 \<Longrightarrow> rnd_away s = n"
  unfolding rnd_away_def by (auto simp: abs_if floor_eq_iff split: if_splits; linarith)

lemma rnd_even_near: "\<bar>s - of_int n\<bar> < 1 / 4 \<Longrightarrow> rnd_even s = n"
proof -
  assume a: "\<bar>s - of_int n\<bar> < 1 / 4"
  then have "\<bar>of_int (rnd_even s) - of_int n :: rat\<bar> < 1" using rnd_even_err [of s] by linarith
  then have "\<bar>rnd_even s - n\<bar> < 1" by (simp flip: of_int_abs of_int_diff)
  then show ?thesis by simp
qed

subsection \<open>Rounding never falls below a whole number below\<close>

lemma floor_le_rnd_even: "\<lfloor>x\<rfloor> \<le> rnd_even x"
  by (simp add: rnd_even_def Let_def)

lemma ilog2_mono: "0 < x \<Longrightarrow> x \<le> y \<Longrightarrow> ilog2 x \<le> ilog2 y"
proof (rule ccontr)
  assume "0 < x" "x \<le> y" "\<not> ilog2 x \<le> ilog2 y"
  then have "(2 :: rat) powi (ilog2 y + 1) \<le> 2 powi (ilog2 x)" by (intro power_int_increasing) auto
  then show False
    using ilog2_bounds(1) [of x] ilog2_bounds(2) [of y] two_powi_Suc [of "ilog2 y"]
      \<open>0 < x\<close> \<open>x \<le> y\<close> by linarith
qed

lemma ulp64_ge1: "1 \<le> x \<Longrightarrow> ulp64 x = 2 powi (ilog2 x - 52)"
proof -
  assume "1 \<le> x"
  then have "0 \<le> ilog2 x" by (simp add: ilog2_def)
  then show ?thesis using \<open>1 \<le> x\<close> unfolding ulp64_def by (subst max_absorb1) auto
qed

text \<open>A float \<open>a\<close> (a multiple of its ulp) below \<open>x\<close> is below the rounding of \<open>x\<close>.\<close>

lemma rnd_ge_float:
  assumes a: "1 \<le> a" "a / ulp64 a = of_int i" and x: "a \<le> x"
  shows "a \<le> of_int (rnd_even (x / ulp64 x)) * ulp64 x"
proof -
  have aux: "b \<le> of_int (rnd_even (x / ulp64 x)) * ulp64 x"
    if "b / ulp64 x = of_int j" "b \<le> x" for b j
  proof -
    have "of_int j \<le> x / ulp64 x"
      unfolding that(1) [symmetric] using that(2) by (intro divide_right_mono less_imp_le [OF ulp64_pos])
    then have "j \<le> \<lfloor>x / ulp64 x\<rfloor>" by (simp add: le_floor_iff)
    also note floor_le_rnd_even
    finally have "(of_int j :: rat) * ulp64 x \<le> of_int (rnd_even (x / ulp64 x)) * ulp64 x"
      by (intro mult_right_mono) (auto simp: less_imp_le)
    moreover have "of_int j * ulp64 x = b"
      using that(1) less_imp_neq [OF ulp64_pos [of x]] by (simp add: field_simps)
    ultimately show ?thesis by simp
  qed
  show ?thesis
  proof (cases "ilog2 a = ilog2 x")
    case True
    then have "ulp64 a = ulp64 x" using a(1) x by (simp add: ulp64_ge1)
    with a(2) have "a / ulp64 x = of_int i" by simp
    then show ?thesis using x by (rule aux)
  next
    case False
    with ilog2_mono [of a x] a(1) x have lt: "ilog2 a + 1 \<le> ilog2 x" by simp
    let ?b = "(2 :: rat) powi ilog2 x"
    have "a < 2 powi (ilog2 a + 1)" using ilog2_bounds(2) [of a] a(1) by (simp add: two_powi_Suc)
    also have "\<dots> \<le> ?b" using lt by (intro power_int_increasing) auto
    finally have "a < ?b" .
    have "?b / ulp64 x = of_int (2 ^ 52)" using a(1) x by (simp add: ulp64_ge1 power_int_diff)
    moreover have "?b \<le> x" using ilog2_bounds(1) [of x] a(1) x by simp
    ultimately have "?b \<le> of_int (rnd_even (x / ulp64 x)) * ulp64 x" by (rule aux)
    with \<open>a < ?b\<close> show ?thesis by simp
  qed
qed

lemma int_is_float:
  assumes "1 \<le> i" and "i < 2 ^ 53"
  shows "\<exists>j. (of_int i :: rat) / ulp64 (of_int i) = of_int j"
proof -
  let ?x = "of_int i :: rat"
  have x: "1 \<le> ?x" "?x < 2 ^ 53" using assms by auto
  have "ilog2 ?x \<le> 52"
  proof (rule ccontr)
    assume "\<not> ?thesis"
    then have "(2 :: rat) powi 53 \<le> 2 powi (ilog2 ?x)" by (intro power_int_increasing) auto
    then show False using ilog2_bounds(1) [of ?x] x by simp
  qed
  then obtain k where "ilog2 ?x - 52 = - int k" using nonpos_int_cases [of "ilog2 ?x - 52"] by auto
  then have "?x / ulp64 ?x = of_int (i * 2 ^ k)"
    using x by (simp add: ulp64_ge1 power_int_minus power_int_of_nat divide_inverse)
  then show ?thesis by blast
qed

lemma round64_ge_int:
  assumes "1 \<le> i" and "i < 2 ^ 53" and "of_int i \<le> x" and "x \<le> 2 ^ 62"
  obtains r where "round64 x = Fin r" and "of_int i \<le> r" and "r \<le> 2 ^ 63 - 1"
proof -
  have x1: "1 \<le> x" using assms(1,3) by (meson of_int_1_le_iff order_trans)
  have "(2 :: rat) powi (-1022) \<le> 2 powi 0" by (rule power_int_increasing) auto
  with x1 have "2 powi (-1022) \<le> \<bar>x\<bar>" by simp
  moreover have "(2 :: rat) ^ 62 < 2 ^ 1023" by (rule power_strict_increasing) auto
  with assms(4) x1 have "\<bar>x\<bar> < 2 ^ 1023" by (simp add: order.strict_trans1)
  ultimately obtain r where r: "round64 x = Fin r" "\<bar>r - x\<bar> \<le> \<bar>x\<bar> / 2 ^ 53"
    by (rule round64_close)
  have "r = of_int (rnd_even (x / ulp64 x)) * ulp64 x"
    using r(1) x1 by (auto simp: round64_def Let_def split: if_splits)
  moreover obtain j where "(of_int i :: rat) / ulp64 (of_int i) = of_int j"
    using int_is_float [OF assms(1,2)] by blast
  ultimately have "of_int i \<le> r"
    using rnd_ge_float [of "of_int i" j x] assms(1,3) by simp
  moreover have "\<bar>x\<bar> / 2 ^ 53 \<le> 2 ^ 9" using assms(4) x1 by simp
  then have "r \<le> x + 2 ^ 9" using r(2) by linarith
  then have "r \<le> 2 ^ 63 - 1" using assms(4) by simp
  ultimately show ?thesis using r(1) by (intro that)
qed

end
