(* ===== verification/GoError.thy ===== *)
theory GoError
  imports Prelude
begin

text \<open>
  Go error values. A sentinel of a package is a constructor of that package's datatype; an
  error of a library the source calls (the network stack, the Modbus library, a cancelled
  context) is a leaf that carries what the source asks of it; \<^verbatim>\<open>fmt.Errorf\<close> with one or two
  \<^verbatim>\<open>%w\<close> verbs is \<open>Wrapf\<close>, with the text the format adds and the errors it wraps. \<open>err_is\<close> is
  \<^verbatim>\<open>errors.Is\<close>, \<open>as_net_error\<close> and its kin are \<^verbatim>\<open>errors.As\<close> for the types the source names;
  all of them search the chain depth first and in order, as the library does.
\<close>

subsection \<open>The sentinels, per package\<close>

datatype vo_error = ErrInvalidFanSpeed | ErrInvalidTemperature | ErrInvalidMode

datatype dto_error =
    ErrModbusNotConnected | ErrMQTTNotConnected | ErrTransitionInProgress
  | ErrCommandTimeout | ErrInvalidPayload

datatype modbus_error =
    ErrConnectionLost | ErrTimeout | ErrIllegalAddress | ErrIllegalFunction
  | ErrIllegalDataValue | ErrServerFailure | ErrInvalidByteCount

datatype ctx_error = Canceled | DeadlineExceeded

datatype go_error =
    VoErr vo_error
  | DtoErr dto_error
  | MbErr modbus_error
  | ErrUnexpectedReadLength
  | CtxErr ctx_error
  | EOF
  | ErrUnexpectedEOF
  | NetErr bool bool "go_error list"  \<comment> \<open>a \<^verbatim>\<open>net.Error\<close>: its \<^verbatim>\<open>Timeout()\<close>, whether it is a \<^verbatim>\<open>*net.OpError\<close>, what it wraps\<close>
  | GridxErr u8                        \<comment> \<open>a \<^verbatim>\<open>*gridx.Error\<close> with its exception code\<close>
  | ErrText string                     \<comment> \<open>any other error: \<^verbatim>\<open>errors.New\<close> or a foreign one\<close>
  | Wrapf string "go_error list"

subsection \<open>errors.Is and errors.As\<close>

fun unwraps :: "go_error \<Rightarrow> go_error list" where
  "unwraps (NetErr _ _ es) = es"
| "unwraps (Wrapf _ es) = es"
| "unwraps _ = []"

fun err_is :: "go_error \<Rightarrow> go_error \<Rightarrow> bool" where
  "err_is (NetErr t o' es) x = (NetErr t o' es = x \<or> list_ex (\<lambda>e. err_is e x) es)"
| "err_is (Wrapf s es) x = (Wrapf s es = x \<or> list_ex (\<lambda>e. err_is e x) es)"
| "err_is e x = (e = x)"

text \<open>The first \<open>Some\<close> of a list of searches.\<close>

fun first_some :: "'a option list \<Rightarrow> 'a option" where
  "first_some [] = None"
| "first_some (Some a # xs) = Some a"
| "first_some (None # xs) = first_some xs"

text \<open>
  \<^verbatim>\<open>errors.As\<close> with a \<^verbatim>\<open>net.Error\<close> target, returning its \<^verbatim>\<open>Timeout()\<close>. The error of an
  expired context implements that interface with \<^verbatim>\<open>Timeout() == true\<close>.
\<close>

fun as_net_error :: "go_error \<Rightarrow> bool option" where
  "as_net_error (NetErr t _ _) = Some t"
| "as_net_error (CtxErr DeadlineExceeded) = Some True"
| "as_net_error (Wrapf _ es) = first_some (map as_net_error es)"
| "as_net_error _ = None"

fun as_op_error :: "go_error \<Rightarrow> bool" where
  "as_op_error (NetErr _ o' es) = (o' \<or> list_ex as_op_error es)"
| "as_op_error (Wrapf _ es) = list_ex as_op_error es"
| "as_op_error _ = False"

fun as_gridx_error :: "go_error \<Rightarrow> u8 option" where
  "as_gridx_error (GridxErr c) = Some c"
| "as_gridx_error (NetErr _ _ es) = first_some (map as_gridx_error es)"
| "as_gridx_error (Wrapf _ es) = first_some (map as_gridx_error es)"
| "as_gridx_error _ = None"

lemma err_is_Wrapf1 [simp]: "err_is (Wrapf s [e]) x \<longleftrightarrow> Wrapf s [e] = x \<or> err_is e x"
  by simp

lemma err_is_Wrapf2 [simp]:
  "err_is (Wrapf s [d, e]) x \<longleftrightarrow> Wrapf s [d, e] = x \<or> err_is d x \<or> err_is e x"
  by simp

text \<open>
  A Go function that returns an error alone is modelled by \<open>go_error option\<close> (\<open>None\<close> is
  \<^verbatim>\<open>nil\<close>), one that returns a value and an error by \<open>go_error + 'a\<close>.
\<close>

fun err_of :: "go_error + 'a \<Rightarrow> go_error option" where
  "err_of (Inl e) = Some e"
| "err_of (Inr _) = None"

lemma err_of_None_iff [simp]: "err_of r = None \<longleftrightarrow> (\<exists>v. r = Inr v)"
  by (cases r) auto

end
