(* ===== verification/ValueObjects.thy ===== *)
theory ValueObjects
  imports GoFloat GoError
begin

text \<open>
  The value objects of \<^verbatim>\<open>domain/valueobject\<close>: register addresses and kinds, the firmware
  version, the fan speed, the temperature and the HVAC mode, each with its constructors,
  conversions and printing, and the laws that make them sound: constructors accept
  exactly the documented ranges, the raw encodings round trip, and replacing the mode in a
  register leaves the other bits alone.
\<close>

subsection \<open>Register addresses and kinds (register.go)\<close>

record RegisterAddr = ra_raw :: u16

definition RegisterAddr_String :: "RegisterAddr \<Rightarrow> string" where
  "RegisterAddr_String r = ''0x'' @ hex4 (ra_raw r)"

definition RegisterAddr_Uint16 :: "RegisterAddr \<Rightarrow> u16" where
  "RegisterAddr_Uint16 r = ra_raw r"

datatype RegisterKind = RegisterKindInput | RegisterKindHolding | RegisterKindOther int

definition RegisterKind_IsValid :: "RegisterKind \<Rightarrow> bool" where
  "RegisterKind_IsValid k \<longleftrightarrow> k = RegisterKindInput \<or> k = RegisterKindHolding"

fun RegisterKind_String :: "RegisterKind \<Rightarrow> string" where
  "RegisterKind_String RegisterKindInput = ''input''"
| "RegisterKind_String RegisterKindHolding = ''holding''"
| "RegisterKind_String _ = ''unknown''"

subsection \<open>Firmware version (firmware.go)\<close>

record FirmwareVersion = fv_raw :: u16

definition FirmwareFromRaw :: "u16 \<Rightarrow> FirmwareVersion" where
  "FirmwareFromRaw raw = \<lparr>fv_raw = raw\<rparr>"

definition Firmware_Raw :: "FirmwareVersion \<Rightarrow> u16" where
  "Firmware_Raw f = fv_raw f"

definition Firmware_IsKnown :: "FirmwareVersion \<Rightarrow> bool" where
  "Firmware_IsKnown f \<longleftrightarrow> fv_raw f \<noteq> 0"

definition Firmware_String :: "FirmwareVersion \<Rightarrow> string" where
  "Firmware_String f =
     (if fv_raw f = 0 then ''unknown''
      else let major = drop_bit 12 (fv_raw f) AND 0xF;
               minor = drop_bit 8 (fv_raw f) AND 0xF;
               patch = drop_bit 4 (fv_raw f) AND 0xF;
               build = fv_raw f AND 0xF
           in if build = 0
              then ''v'' @ dec_nat (unat major) @ ''.'' @ dec_nat (unat minor) @ ''.''
                     @ dec_nat (unat patch)
              else ''v'' @ dec_nat (unat major) @ ''.'' @ dec_nat (unat minor) @ ''.''
                     @ dec_nat (unat patch) @ ''.'' @ dec_nat (unat build))"

subsection \<open>Fan speed (fan\_speed.go)\<close>

definition fanSpeedMin :: u16 where "fanSpeedMin = 1"
definition fanSpeedMax :: u16 where "fanSpeedMax = 10"

lemmas fan_consts [enum_defs] = fanSpeedMin_def fanSpeedMax_def

record FanSpeed = fs_value :: u16

definition NewFanSpeed :: "u16 \<Rightarrow> go_error + FanSpeed" where
  "NewFanSpeed v =
     (if v < fanSpeedMin \<or> fanSpeedMax < v
      then Inl (Wrapf ''fan speed out of range'' [VoErr ErrInvalidFanSpeed])
      else Inr \<lparr>fs_value = v\<rparr>)"

definition NewFanSpeedClamped :: "u16 \<Rightarrow> u16 \<Rightarrow> u16 \<Rightarrow> FanSpeed" where
  "NewFanSpeedClamped v mn mx =
     (let mn1 = (if mn < fanSpeedMin then fanSpeedMin else mn);
          mx1 = (if fanSpeedMax < mx then fanSpeedMax else mx);
          mn2 = (if mx1 < mn1 then mx1 else mn1);
          mx2 = (if mx1 < mn1 then mn1 else mx1);
          v1 = (if v < mn2 then mn2 else v);
          v2 = (if mx2 < v1 then mx2 else v1)
      in \<lparr>fs_value = v2\<rparr>)"

definition FanSpeed_Value :: "FanSpeed \<Rightarrow> u16" where
  "FanSpeed_Value f = fs_value f"

definition valid_fan :: "FanSpeed \<Rightarrow> bool" where
  "valid_fan f \<longleftrightarrow> fanSpeedMin \<le> fs_value f \<and> fs_value f \<le> fanSpeedMax"

lemma NewFanSpeed_valid: "NewFanSpeed v = Inr f \<Longrightarrow> valid_fan f \<and> FanSpeed_Value f = v"
  by (auto simp: NewFanSpeed_def valid_fan_def FanSpeed_Value_def split: if_splits)

lemma NewFanSpeed_ok_iff: "(\<exists>f. NewFanSpeed v = Inr f) \<longleftrightarrow> unat v \<in> {1..10}"
  by (auto simp: NewFanSpeed_def enum_defs word_less_nat_alt word_le_nat_alt not_less)

lemma NewFanSpeed_err: "NewFanSpeed v = Inl e \<Longrightarrow> err_is e (VoErr ErrInvalidFanSpeed)"
  by (auto simp: NewFanSpeed_def split: if_splits)

lemma clamp_in_bounds:
  fixes lo :: "'a :: linorder"
  assumes "lo \<le> hi" and "mn \<le> hi" and "lo \<le> mx"
    and "mn1 = (if mn < lo then lo else mn)" and "mx1 = (if hi < mx then hi else mx)"
    and "a = (if mx1 < mn1 then mx1 else mn1)" and "b = (if mx1 < mn1 then mn1 else mx1)"
    and "v1 = (if v < a then a else v)" and "v2 = (if b < v1 then b else v1)"
  shows "lo \<le> v2 \<and> v2 \<le> hi"
proof -
  have "lo \<le> mn1" "mn1 \<le> hi" "lo \<le> mx1" "mx1 \<le> hi"
    using assms(1-5) by (auto split: if_splits)
  then have "lo \<le> a" "a \<le> b" "b \<le> hi" using assms(6,7) by (auto split: if_splits)
  then show ?thesis using assms(8,9) by (auto split: if_splits)
qed

lemma NewFanSpeedClamped_valid:
  assumes "mn \<le> fanSpeedMax" and "fanSpeedMin \<le> mx"
  shows "valid_fan (NewFanSpeedClamped v mn mx)"
proof -
  have "fanSpeedMin \<le> fanSpeedMax" by (simp add: enum_defs)
  from clamp_in_bounds [OF this assms refl refl refl refl refl refl, of v] show ?thesis
    by (simp only: NewFanSpeedClamped_def valid_fan_def Let_def FanSpeed.select_convs)
qed

subsection \<open>Temperature (temperature.go)\<close>

definition temperatureMinCelsius :: rat where "temperatureMinCelsius = 5"
definition temperatureMaxCelsius :: rat where "temperatureMaxCelsius = 30"
definition temperatureScale :: rat where "temperatureScale = 10"
definition temperatureRawMin :: u16 where "temperatureRawMin = 50"
definition temperatureRawMax :: u16 where "temperatureRawMax = 300"

lemmas temp_consts [enum_defs] =
  temperatureMinCelsius_def temperatureMaxCelsius_def temperatureScale_def
  temperatureRawMin_def temperatureRawMax_def

record Temperature = celsius :: f64

definition zero_Temperature :: Temperature where "zero_Temperature = \<lparr>celsius = Fin 0\<rparr>"

definition NewTemperature :: "f64 \<Rightarrow> go_error + Temperature" where
  "NewTemperature c =
     (case c of
        NaN \<Rightarrow> Inl (Wrapf ''temperature is NaN'' [VoErr ErrInvalidTemperature])
      | Inf _ \<Rightarrow> Inl (Wrapf ''temperature is infinite'' [VoErr ErrInvalidTemperature])
      | Fin _ \<Rightarrow>
          if f_lt c (Fin temperatureMinCelsius) \<or> f_lt (Fin temperatureMaxCelsius) c
          then Inl (Wrapf ''temperature out of range'' [VoErr ErrInvalidTemperature])
          else Inr \<lparr>celsius = c\<rparr>)"

definition TemperatureFromRaw :: "u16 \<Rightarrow> Temperature" where
  "TemperatureFromRaw raw = \<lparr>celsius = f_div (f64_of_int (uint raw)) temperatureScale\<rparr>"

definition Temperature_Celsius :: "Temperature \<Rightarrow> f64" where
  "Temperature_Celsius t = celsius t"

text \<open>
  \<^verbatim>\<open>uint16(scaled)\<close> is reached with a whole number in [50, 300], and with the not-a-number no
  constructor produces (both build targets convert that to 0).
\<close>

definition f_to_u16 :: "f64 \<Rightarrow> u16" where
  "f_to_u16 f = (case f of Fin x \<Rightarrow> word_of_int (rat_trunc x) | _ \<Rightarrow> 0)"

definition Temperature_Raw :: "Temperature \<Rightarrow> u16" where
  "Temperature_Raw t =
     (let scaled = f_round (f_mul (celsius t) (Fin temperatureScale)) in
      if f_lt scaled (Fin (of_int (uint temperatureRawMin))) then temperatureRawMin
      else if f_lt (Fin (of_int (uint temperatureRawMax))) scaled then temperatureRawMax
      else f_to_u16 scaled)"

subsection \<open>Mode (mode.go)\<close>

type_synonym Mode = int

definition ModeOff :: Mode where "ModeOff = 0"
definition ModeHeat :: Mode where "ModeHeat = 1"
definition ModeCool :: Mode where "ModeCool = 2"
definition ModeAuto :: Mode where "ModeAuto = 3"

lemmas mode_consts [enum_defs] = ModeOff_def ModeHeat_def ModeCool_def ModeAuto_def

definition NewMode :: "int \<Rightarrow> go_error + Mode" where
  "NewMode v =
     (if v < 0 \<or> 3 < v then Inl (Wrapf ''mode value out of range'' [VoErr ErrInvalidMode])
      else Inr v)"

definition Mode_Bits :: "Mode \<Rightarrow> u16" where
  "Mode_Bits m = word_of_int (m AND 0x3)"

definition Mode_String :: "Mode \<Rightarrow> string" where
  "Mode_String m =
     (if m = ModeOff then ''off'' else if m = ModeHeat then ''heat''
      else if m = ModeCool then ''cool'' else if m = ModeAuto then ''auto'' else ''unknown'')"

definition ModeFromRegister :: "u16 \<Rightarrow> Mode" where
  "ModeFromRegister v = uint (v AND 0x3)"

text \<open>\<^verbatim>\<open>&^\<close> is Go's bit clear.\<close>

definition ApplyToRegister :: "u16 \<Rightarrow> Mode \<Rightarrow> u16" where
  "ApplyToRegister reg m = (reg AND NOT 0x3) OR Mode_Bits m"

subsection \<open>Laws of the temperature codec\<close>

lemma NewTemperature_ok_iff:
  "NewTemperature c = Inr t \<longleftrightarrow> (\<exists>x. c = Fin x \<and> 5 \<le> x \<and> x \<le> 30 \<and> t = \<lparr>celsius = c\<rparr>)"
  by (cases c) (auto simp: NewTemperature_def enum_defs)

lemma NewTemperature_err: "NewTemperature c = Inl e \<Longrightarrow> err_is e (VoErr ErrInvalidTemperature)"
  by (cases c) (auto simp: NewTemperature_def split: if_splits)

definition valid_temp :: "Temperature \<Rightarrow> bool" where
  "valid_temp t \<longleftrightarrow> (case celsius t of Fin x \<Rightarrow> 5 \<le> x \<and> x \<le> 30 | _ \<Rightarrow> False)"

lemma NewTemperature_valid: "NewTemperature c = Inr t \<Longrightarrow> valid_temp t \<and> celsius t = c"
  by (auto simp: NewTemperature_ok_iff valid_temp_def)

text \<open>The float of a raw register value, and the bound of its error.\<close>

lemma tenths_Fin:
  assumes "\<bar>n\<bar> \<le> 65535"
  obtains c where "f_div (f64_of_int n) temperatureScale = Fin c"
    and "\<bar>c - of_int n / 10\<bar> \<le> \<bar>of_int n / 10\<bar> / 2 ^ 53"
proof -
  obtain c where c: "round64 (of_int n / 10) = Fin c" "\<bar>c - of_int n / 10\<bar> \<le> \<bar>of_int n / 10\<bar> / 2 ^ 53"
    using round64_tenths [OF assms] .
  have "f64_of_int n = Fin (of_int n)"
    unfolding f64_of_int_def by (rule round64_of_int) (use assms in simp)
  with c show ?thesis by (intro that) (simp_all add: temperatureScale_def)
qed

text \<open>Comparing the float with a whole number of degrees compares the counts.\<close>

lemma tenths_cmp:
  assumes "\<bar>n\<bar> \<le> 65535" and "\<bar>k\<bar> \<le> 30"
  obtains c where "f_div (f64_of_int n) temperatureScale = Fin c"
    and "c < of_int k \<longleftrightarrow> n < 10 * k" and "of_int k < c \<longleftrightarrow> 10 * k < n"
proof (cases "n = 10 * k")
  case True
  have "f64_of_int n = Fin (of_int n)"
    unfolding f64_of_int_def by (rule round64_of_int) (use assms in simp)
  moreover have "round64 (of_int k) = Fin (of_int k)"
    by (rule round64_of_int) (use assms in simp)
  ultimately have "f_div (f64_of_int n) temperatureScale = Fin (of_int k)"
    by (simp add: True temperatureScale_def)
  then show ?thesis by (rule that) (auto simp: True)
next
  case False
  obtain c where c: "f_div (f64_of_int n) temperatureScale = Fin c"
    and e: "\<bar>c - of_int n / 10\<bar> \<le> \<bar>of_int n / 10\<bar> / 2 ^ 53"
    using tenths_Fin [OF assms(1)] .
  have "\<bar>of_int n / 10\<bar> \<le> (65535 :: rat)" using assms(1) by (auto simp: abs_if split: if_splits)
  then have "\<bar>of_int n / 10\<bar> / 2 ^ 53 \<le> (65535 :: rat) / 2 ^ 53" by (intro divide_right_mono) auto
  also have "\<dots> < 1 / 20" by simp
  finally have e': "\<bar>c - of_int n / 10\<bar> < 1 / 20" using e by linarith
  have lt: "c < of_int n / 10 + 1 / 20" "of_int n / 10 - 1 / 20 < c" using e' by linarith+
  have "1 \<le> \<bar>n - 10 * k\<bar>" using False by simp
  then have "n + 1 \<le> 10 * k \<or> 10 * k + 1 \<le> n" by linarith
  then show ?thesis
  proof
    assume n: "n + 1 \<le> 10 * k"
    then have "(of_int (n + 1) :: rat) \<le> of_int (10 * k)" by (simp only: of_int_le_iff)
    then have "c < of_int k" using lt by simp
    with n show ?thesis by (intro that [OF c]) auto
  next
    assume n: "10 * k + 1 \<le> n"
    then have "(of_int (10 * k + 1) :: rat) \<le> of_int n" by (simp only: of_int_le_iff)
    then have "of_int k < c" using lt by simp
    with n show ?thesis by (intro that [OF c]) auto
  qed
qed

lemma NewTemperature_tenths:
  assumes "\<bar>n\<bar> \<le> 65535"
  shows "(\<exists>t. NewTemperature (f_div (f64_of_int n) temperatureScale) = Inr t) \<longleftrightarrow> 50 \<le> n \<and> n \<le> 300"
proof -
  obtain c where c: "f_div (f64_of_int n) temperatureScale = Fin c" "c < 5 \<longleftrightarrow> n < 50"
    using tenths_cmp [OF assms, of 5] by auto
  obtain d where d: "f_div (f64_of_int n) temperatureScale = Fin d" "30 < d \<longleftrightarrow> 300 < n"
    using tenths_cmp [OF assms, of 30] by auto
  show ?thesis using c d by (auto simp: NewTemperature_ok_iff not_less [symmetric])
qed

text \<open>Encoding the float of a count gives the count back, clamped to what may be written.\<close>

lemma scaled_round:
  assumes "0 \<le> n" and "n \<le> 65535"
  shows "f_round (f_mul (f_div (f64_of_int n) temperatureScale) (Fin temperatureScale)) = Fin (of_int n)"
proof (cases "n = 0")
  case True
  then show ?thesis by (simp add: temperatureScale_def f64_of_int_def round64_def rnd_away_def floor_eq_iff)
next
  case False
  obtain c where c: "f_div (f64_of_int n) temperatureScale = Fin c"
    and e: "\<bar>c - of_int n / 10\<bar> \<le> of_int n / 10 / 2 ^ 53"
    using tenths_Fin [of n] assms by auto
  have "1 \<le> n" using False assms by simp
  from this assms(2) e obtain s where "round64 (c * 10) = Fin s" "\<bar>s - of_int n\<bar> < 1 / 4"
    by (rule round64_times10)
  then have "f_mul (Fin c) (Fin temperatureScale) = Fin s" and "rnd_away s = n"
    using assms(1) by (simp_all add: temperatureScale_def rnd_away_near)
  then show ?thesis by (simp add: c)
qed

lemma rat_trunc_of_int [simp]: "rat_trunc (of_int i) = i"
  by (simp add: rat_trunc_def)

lemma Temperature_Raw_FromRaw:
  "Temperature_Raw (TemperatureFromRaw raw) = max 50 (min 300 raw)"
proof -
  define n where "n = uint raw"
  have n: "0 \<le> n" "n \<le> 65535" using uint_lt2p [of raw] by (auto simp: n_def)
  have raw: "raw = word_of_int n" by (simp add: n_def)
  have cmp: "raw < word_of_int k \<longleftrightarrow> n < k" "word_of_int k < raw \<longleftrightarrow> k < n"
    if "0 \<le> k" "k \<le> 65535" for k
    using that by (auto simp: word_less_def n_def uint_word_of_int)
  have enc: "Temperature_Raw (TemperatureFromRaw raw) =
      (if n < 50 then 50 else if 300 < n then 300 else word_of_int n)"
    using scaled_round [OF n]
    by (simp add: Temperature_Raw_def TemperatureFromRaw_def n_def [symmetric] enum_defs f_to_u16_def)
  show ?thesis
    using cmp [of 50] cmp [of 300] by (auto simp: enc max_def min_def not_le raw [symmetric])
qed

subsection \<open>Laws of the mode bits\<close>

lemma bit_int_3: "bit (3 :: int) n \<longleftrightarrow> n < 2"
proof -
  have "bit (mask 2 :: int) n \<longleftrightarrow> n < 2" by (auto simp: bit_mask_iff)
  then show ?thesis by (simp add: mask_eq_exp_minus_1)
qed

lemma bit_Mode_Bits: "bit (Mode_Bits m) n \<longleftrightarrow> n < 2 \<and> bit m n"
  by (auto simp: Mode_Bits_def bit_word_of_int_iff bit_and_iff bit_int_3)

lemma bit_ApplyToRegister:
  "bit (ApplyToRegister reg m) n = (if n < 2 then bit m n else bit reg n)"
proof -
  have "bit (ApplyToRegister reg m) n \<longleftrightarrow> (bit reg n \<and> n < 16 \<and> \<not> n < 2) \<or> n < 2 \<and> bit m n"
    by (simp only: ApplyToRegister_def bit_or_iff bit_and_iff bit_not_iff mask3_bit
        bit_Mode_Bits possible_bit_word) simp
  then show ?thesis using bit_imp_le_length [of reg n] by auto
qed

lemma ModeFromRegister_Apply: "ModeFromRegister (ApplyToRegister reg m) = m AND 3"
proof (rule bit_eqI)
  fix n
  show "bit (ModeFromRegister (ApplyToRegister reg m)) n = bit (m AND 3) n"
    by (auto simp: ModeFromRegister_def bit_uint_iff bit_and_iff mask3_bit bit_ApplyToRegister bit_int_3)
qed

lemma valid_mode_and3: "0 \<le> m \<Longrightarrow> m \<le> 3 \<Longrightarrow> m AND 3 = (m :: int)"
proof -
  assume "0 \<le> m" "m \<le> 3"
  then have "m = 0 \<or> m = 1 \<or> m = 2 \<or> m = 3" by presburger
  then show ?thesis by auto
qed

lemma NewMode_ok_iff: "NewMode v = Inr m \<longleftrightarrow> 0 \<le> v \<and> v \<le> 3 \<and> m = v"
  by (auto simp: NewMode_def)

lemma ModeFromRegister_range: "0 \<le> ModeFromRegister v \<and> ModeFromRegister v \<le> 3"
proof -
  have "v AND 3 \<le> (3 :: u16)" by (rule word_and_le1)
  then show ?thesis by (auto simp: ModeFromRegister_def word_le_def)
qed

lemma ModeFromRegister_label: "Mode_String (ModeFromRegister v) \<noteq> ''unknown''"
proof -
  have "ModeFromRegister v \<in> {0, 1, 2, 3}" using ModeFromRegister_range [of v] by auto
  then show ?thesis by (auto simp: Mode_String_def enum_defs)
qed

lemma ApplyToRegister_last_wins:
  "ApplyToRegister (ApplyToRegister reg m) m' = ApplyToRegister reg m'"
  by (rule bit_word_eqI) (simp add: bit_ApplyToRegister)

lemma ApplyToRegister_same: "ApplyToRegister reg (ModeFromRegister reg) = reg"
  by (rule bit_word_eqI)
    (auto simp: bit_ApplyToRegister ModeFromRegister_def bit_uint_iff bit_and_iff mask3_bit
      bit_int_3)

subsection \<open>Laws of the firmware label\<close>

lemma nibble_less: "unat (w AND 0xF :: u16) < 16"
  using unat_and_mask [of w 4] by (simp add: mask_eq_decr_exp)

lemma read_digits_upto_dot:
  "takeWhile (\<lambda>c. c \<noteq> CHR ''.'') (dec_nat n @ CHR ''.'' # s) = dec_nat n"
  using dec_nat_no_dot [of n] by (subst takeWhile_append2) auto

subsection \<open>Properties\<close>

text \<open>
  C33. A raw setpoint survives the trip through the Celsius float: decoding it and encoding the
  result gives the same raw value, clamped to the range the controller accepts (50 to 300).
\<close>

theorem temperature_roundtrip:
  "Temperature_Raw (TemperatureFromRaw raw) = max 50 (min 300 raw)"
  by (rule Temperature_Raw_FromRaw)

text \<open>
  Writing a mode into a register changes bits 0 and 1 only, reading the register back gives
  the mode, the last of several writes wins, and rewriting the current mode changes nothing.
\<close>

lemma mode_bits_isolated:
  "ModeFromRegister (ApplyToRegister reg m) = m AND 3
   \<and> (bit (ApplyToRegister reg m) n \<longleftrightarrow> (if n < 2 then bit m n else bit reg n))
   \<and> ApplyToRegister (ApplyToRegister reg m') m = ApplyToRegister reg m
   \<and> ApplyToRegister reg (ModeFromRegister reg) = reg"
  by (simp add: ModeFromRegister_Apply bit_ApplyToRegister ApplyToRegister_last_wins
      ApplyToRegister_same)

text \<open>
  Clamping a fan speed gives a speed the controller accepts when the bounds meet the
  accepted range.
\<close>

lemma clamped_fan_valid:
  assumes "mn \<le> fanSpeedMax" and "fanSpeedMin \<le> mx"
  shows "valid_fan (NewFanSpeedClamped v mn mx)"
  by (rule NewFanSpeedClamped_valid [OF assms])

lemma clamped_fan_valid_example: "valid_fan (NewFanSpeedClamped 99 3 200)"
  by (rule clamped_fan_valid) (simp_all add: enum_defs)

text \<open>Bounds that miss the accepted range let the result leave it.\<close>

lemma clamped_fan_escapes:
  "FanSpeed_Value (NewFanSpeedClamped 15 20 30) = 15" "FanSpeed_Value (NewFanSpeedClamped 0 0 0) = 0"
  by code_simp+

end
