(* ===== verification/Catalog.thy ===== *)
theory Catalog
  imports ValueObjects
begin

text \<open>
  The static register catalog of \<^verbatim>\<open>domain/catalog\<close>: poll groups and their periods, the Home
  Assistant hints attached to a register, the table of registers itself and its three
  queries. The lemmas characterise the queries as filters of the table and state what the
  table guarantees: no register appears twice, and looking one up finds it.
\<close>

subsection \<open>Poll groups (poll\_group.go)\<close>

datatype PollGroup =
  PollGroupNone | PollGroupHot | PollGroupMedium | PollGroupSlow | PollGroupOther int

fun PollGroup_String :: "PollGroup \<Rightarrow> string" where
  "PollGroup_String PollGroupNone = ''none''"
| "PollGroup_String PollGroupHot = ''hot''"
| "PollGroup_String PollGroupMedium = ''medium''"
| "PollGroup_String PollGroupSlow = ''slow''"
| "PollGroup_String _ = ''unknown''"

fun PollGroup_Period :: "PollGroup \<Rightarrow> duration" where
  "PollGroup_Period PollGroupHot = 5 * Second"
| "PollGroup_Period PollGroupMedium = 15 * Second"
| "PollGroup_Period PollGroupSlow = 60 * Second"
| "PollGroup_Period _ = 0"

subsection \<open>Entity hints (entity\_hint.go)\<close>

datatype EntityKind =
    EntityKindNone | EntityKindSensor | EntityKindBinarySensor | EntityKindSwitch
  | EntityKindClimate | EntityKindButton | EntityKindOther int

fun EntityKind_String :: "EntityKind \<Rightarrow> string" where
  "EntityKind_String EntityKindNone = ''none''"
| "EntityKind_String EntityKindSensor = ''sensor''"
| "EntityKind_String EntityKindBinarySensor = ''binary_sensor''"
| "EntityKind_String EntityKindSwitch = ''switch''"
| "EntityKind_String EntityKindClimate = ''climate''"
| "EntityKind_String EntityKindButton = ''button''"
| "EntityKind_String _ = ''unknown''"

datatype EntityCategory =
  EntityCategoryDefault | EntityCategoryDiagnostic | EntityCategoryConfig | EntityCategoryOther int

fun EntityCategory_String :: "EntityCategory \<Rightarrow> string" where
  "EntityCategory_String EntityCategoryDefault = ''''"
| "EntityCategory_String EntityCategoryDiagnostic = ''diagnostic''"
| "EntityCategory_String EntityCategoryConfig = ''config''"
| "EntityCategory_String _ = ''unknown''"

type_synonym DeviceClass = string
type_synonym StateClass = string

definition DeviceClassNone :: DeviceClass where "DeviceClassNone = ''''"
definition DeviceClassTemperature :: DeviceClass where "DeviceClassTemperature = ''temperature''"
definition DeviceClassHumidity :: DeviceClass where "DeviceClassHumidity = ''humidity''"
definition DeviceClassHeat :: DeviceClass where "DeviceClassHeat = ''heat''"
definition DeviceClassProblem :: DeviceClass where "DeviceClassProblem = ''problem''"
definition DeviceClassRunning :: DeviceClass where "DeviceClassRunning = ''running''"
definition DeviceClassPower :: DeviceClass where "DeviceClassPower = ''power''"
definition StateClassNone :: StateClass where "StateClassNone = ''''"
definition StateClassMeasurement :: StateClass where "StateClassMeasurement = ''measurement''"

lemmas class_defs [enum_defs] =
  DeviceClassNone_def DeviceClassTemperature_def DeviceClassHumidity_def DeviceClassHeat_def
  DeviceClassProblem_def DeviceClassRunning_def DeviceClassPower_def
  StateClassNone_def StateClassMeasurement_def

record EntityHint =
  eh_Kind :: EntityKind
  eh_ObjectID :: string
  eh_Name :: string
  eh_DeviceClass :: DeviceClass
  eh_Unit :: string
  eh_StateClass :: StateClass
  eh_Category :: EntityCategory
  eh_Icon :: string
  eh_Precision :: int

text \<open>The zero value of the struct: poll only, no entity.\<close>

definition zero_hint :: EntityHint where
  "zero_hint = \<lparr>eh_Kind = EntityKindNone, eh_ObjectID = '''', eh_Name = '''',
     eh_DeviceClass = '''', eh_Unit = '''', eh_StateClass = '''',
     eh_Category = EntityCategoryDefault, eh_Icon = '''', eh_Precision = 0\<rparr>"

subsection \<open>The register table (registers.go)\<close>

record RegisterDef =
  rd_Addr :: RegisterAddr
  rd_Kind :: RegisterKind
  rd_Name :: string
  rd_Group :: PollGroup
  rd_Hint :: EntityHint
  rd_Description :: string

definition reg_row ::
  "u16 \<Rightarrow> RegisterKind \<Rightarrow> string \<Rightarrow> PollGroup \<Rightarrow> EntityHint \<Rightarrow> string \<Rightarrow> RegisterDef" where
  "reg_row a k n g h d = \<lparr>rd_Addr = \<lparr>ra_raw = a\<rparr>, rd_Kind = k, rd_Name = n, rd_Group = g,
     rd_Hint = h, rd_Description = d\<rparr>"

text \<open>The degree sign is the two UTF-8 bytes C2 B0.\<close>

definition unit_celsius :: string where "unit_celsius = [CHR 0xC2, CHR 0xB0, CHR ''C'']"

definition sensor_hint :: "string \<Rightarrow> string \<Rightarrow> EntityHint" where
  "sensor_hint oid n = zero_hint\<lparr>eh_Kind := EntityKindSensor, eh_ObjectID := oid, eh_Name := n\<rparr>"

definition Registers :: "RegisterDef list" where
  "Registers =
   [reg_row 0 RegisterKindInput ''Firmware'' PollGroupSlow
      ((sensor_hint ''firmware'' ''Firmware'')
         \<lparr>eh_Category := EntityCategoryDiagnostic, eh_Icon := ''mdi:chip''\<rparr>)
      ''controller firmware version (BCD)'',
    reg_row 79 RegisterKindInput ''DeviceID'' PollGroupSlow
      ((sensor_hint ''device_id'' ''Device ID'')\<lparr>eh_Category := EntityCategoryDiagnostic\<rparr>)
      ''unique device identifier'',
    reg_row 2 RegisterKindInput ''State_0'' PollGroupHot zero_hint
      ''primary controller state bitfield (power, switching, capabilities)'',
    reg_row 3 RegisterKindInput ''State_1'' PollGroupHot zero_hint
      ''current operation code (bits 0..4)'',
    reg_row 4 RegisterKindInput ''Error_Code'' PollGroupHot zero_hint
      ''primary error mask (sensor faults, freeze threats, fan/fire/overheat)'',
    reg_row 5 RegisterKindInput ''Error_Code_1'' PollGroupHot zero_hint
      ''extended error mask 1'',
    reg_row 6 RegisterKindInput ''Last_Time'' PollGroupHot
      ((sensor_hint ''operation_time_left'' ''Operation time left'')
         \<lparr>eh_Unit := ''s'', eh_Category := EntityCategoryDiagnostic\<rparr>)
      ''minutes/seconds remaining for current operation (split byte)'',
    reg_row 9 RegisterKindInput ''TkanK'' PollGroupHot
      ((sensor_hint ''supply_temperature'' ''Supply temperature'')
         \<lparr>eh_DeviceClass := DeviceClassTemperature, eh_Unit := unit_celsius,
          eh_StateClass := StateClassMeasurement, eh_Precision := 1\<rparr>)
      ''T1 corrected supply-air temperature, scale 1/10 degC'',
    reg_row 14 RegisterKindInput ''ZagrFiltr1'' PollGroupHot
      ((sensor_hint ''filter_clog'' ''Filter clog'')
         \<lparr>eh_Unit := ''%'', eh_StateClass := StateClassMeasurement, eh_Icon := ''mdi:air-filter''\<rparr>)
      ''filter1 clog percentage'',
    reg_row 16 RegisterKindInput ''DOutputs'' PollGroupHot zero_hint
      ''discrete outputs bitfield (PWM, Y1 damper, fan speeds, valves)'',
    reg_row 18 RegisterKindInput ''Reg'' PollGroupHot
      ((sensor_hint ''heat_demand'' ''Heat demand'')
         \<lparr>eh_Unit := ''%'', eh_StateClass := StateClassMeasurement,
          eh_Category := EntityCategoryDiagnostic\<rparr>)
      ''PID heat-demand percentage'',
    reg_row 25 RegisterKindInput ''Fan_State_1'' PollGroupHot
      ((sensor_hint ''supply_fan_speed'' ''Supply fan speed'')\<lparr>eh_StateClass := StateClassMeasurement\<rparr>)
      ''actual supply-fan speed'',
    reg_row 30 RegisterKindInput ''Fan_State_2'' PollGroupHot
      ((sensor_hint ''exhaust_fan_speed'' ''Exhaust fan speed'')\<lparr>eh_StateClass := StateClassMeasurement\<rparr>)
      ''actual exhaust-fan speed'',
    reg_row 57 RegisterKindInput ''TKomn_x10_P'' PollGroupMedium
      ((sensor_hint ''room_temperature'' ''Room temperature'')
         \<lparr>eh_DeviceClass := DeviceClassTemperature, eh_Unit := unit_celsius,
          eh_StateClass := StateClassMeasurement, eh_Precision := 1\<rparr>)
      ''remote-panel room temperature, scale 1/10 degC'',
    reg_row 58 RegisterKindInput ''Room_Hum_P'' PollGroupMedium
      ((sensor_hint ''room_humidity'' ''Room humidity'')
         \<lparr>eh_DeviceClass := DeviceClassHumidity, eh_Unit := ''%'',
          eh_StateClass := StateClassMeasurement\<rparr>)
      ''remote-panel relative humidity'',
    reg_row 69 RegisterKindInput ''Error_Code_2'' PollGroupMedium zero_hint
      ''extended error mask 2 (T4/T5/filter2/fan2)'',
    reg_row 70 RegisterKindInput ''Error_Code_3'' PollGroupMedium zero_hint
      ''extended error mask 3 (bit 6 reserved)'',
    reg_row 0 RegisterKindHolding ''Type_Dev'' PollGroupSlow zero_hint
      ''device configuration: heater (0..3), cooler (4..7), recuperator (8..11)'',
    reg_row 31 RegisterKindHolding ''Temp_Target'' PollGroupHot zero_hint
      ''climate target temperature, scale 1/10 degC, range 50..300'',
    reg_row 32 RegisterKindHolding ''Fan_Target_1'' PollGroupHot zero_hint
      ''supply-fan target speed (1..10)'',
    reg_row 86 RegisterKindHolding ''Dev_Keys_2'' PollGroupMedium zero_hint
      ''device keys: bits 0..1 = HVAC mode (off/heat/cool/auto)'',
    reg_row 2 RegisterKindHolding ''Power_Dev'' PollGroupNone
      (zero_hint\<lparr>eh_Kind := EntityKindSwitch, eh_ObjectID := ''power'', eh_Name := ''Power'',
         eh_Icon := ''mdi:power''\<rparr>)
      ''edge-triggered power-on/off command (always reads as 0)'']"

fun RegistersByGroup_loop :: "PollGroup \<Rightarrow> RegisterDef list \<Rightarrow> RegisterDef list \<Rightarrow> RegisterDef list" where
  "RegistersByGroup_loop g out [] = out"
| "RegistersByGroup_loop g out (r # rs) =
     (if rd_Group r = g then RegistersByGroup_loop g (out @ [r]) rs
      else RegistersByGroup_loop g out rs)"

definition RegistersByGroup :: "PollGroup \<Rightarrow> RegisterDef list" where
  "RegistersByGroup g = RegistersByGroup_loop g [] Registers"

fun RegisterByAddr_loop :: "RegisterKind \<Rightarrow> u16 \<Rightarrow> RegisterDef list \<Rightarrow> RegisterDef option" where
  "RegisterByAddr_loop kind addr [] = None"
| "RegisterByAddr_loop kind addr (r # rs) =
     (if rd_Kind r = kind \<and> RegisterAddr_Uint16 (rd_Addr r) = addr then Some r
      else RegisterByAddr_loop kind addr rs)"

definition RegisterByAddr :: "RegisterKind \<Rightarrow> u16 \<Rightarrow> RegisterDef option" where
  "RegisterByAddr kind addr = RegisterByAddr_loop kind addr Registers"

fun RegistersWithEntity_loop :: "RegisterDef list \<Rightarrow> RegisterDef list \<Rightarrow> RegisterDef list" where
  "RegistersWithEntity_loop out [] = out"
| "RegistersWithEntity_loop out (r # rs) =
     (if eh_Kind (rd_Hint r) \<noteq> EntityKindNone then RegistersWithEntity_loop (out @ [r]) rs
      else RegistersWithEntity_loop out rs)"

definition RegistersWithEntity :: "RegisterDef list" where
  "RegistersWithEntity = RegistersWithEntity_loop [] Registers"

subsection \<open>Laws of the queries\<close>

lemma RegistersByGroup_loop_filter:
  "RegistersByGroup_loop g out rs = out @ filter (\<lambda>r. rd_Group r = g) rs"
  by (induction rs arbitrary: out) auto

lemma RegistersByGroup_filter: "RegistersByGroup g = filter (\<lambda>r. rd_Group r = g) Registers"
  by (simp add: RegistersByGroup_def RegistersByGroup_loop_filter)

lemma RegistersWithEntity_loop_filter:
  "RegistersWithEntity_loop out rs = out @ filter (\<lambda>r. eh_Kind (rd_Hint r) \<noteq> EntityKindNone) rs"
  by (induction rs arbitrary: out) auto

lemma RegistersWithEntity_filter:
  "RegistersWithEntity = filter (\<lambda>r. eh_Kind (rd_Hint r) \<noteq> EntityKindNone) Registers"
  by (simp add: RegistersWithEntity_def RegistersWithEntity_loop_filter)

definition reg_key :: "RegisterDef \<Rightarrow> RegisterKind \<times> u16" where
  "reg_key r = (rd_Kind r, RegisterAddr_Uint16 (rd_Addr r))"

lemma RegisterByAddr_loop_map_of:
  "RegisterByAddr_loop k a rs = map_of (map (\<lambda>r. (reg_key r, r)) rs) (k, a)"
  by (induction rs) (auto simp: reg_key_def)

lemma Registers_keys_distinct: "distinct (map reg_key Registers)"
  by code_simp

lemma RegisterByAddr_iff:
  "RegisterByAddr k a = Some r \<longleftrightarrow> r \<in> set Registers \<and> reg_key r = (k, a)"
proof -
  have "distinct (map fst (map (\<lambda>r. (reg_key r, r)) Registers))"
    using Registers_keys_distinct by (simp add: comp_def)
  then show ?thesis
    by (force simp: RegisterByAddr_def RegisterByAddr_loop_map_of map_of_eq_Some_iff)
qed

end
