(* ===== verification/ModbusDecode.thy ===== *)
theory ModbusDecode
  imports GoError
begin

text \<open>
  \<^verbatim>\<open>infrastructure/modbus/decode.go\<close>: the big-endian register codec and the classification of
  low-level errors. The codec round trips in both directions; the classification is proved
  equal to the reference function \<open>classify\<close>, for errors that do not already carry one of
  the package's sentinels.
\<close>

subsection \<open>Register codec\<close>

definition be_uint16 :: "u8 \<Rightarrow> u8 \<Rightarrow> u16" where
  "be_uint16 hi lo = push_bit 8 (ucast hi) OR ucast lo"

definition BytesToUint16 :: "u8 list \<Rightarrow> go_error + u16 list" where
  "BytesToUint16 b =
     (if length b mod 2 \<noteq> 0 then Inl (Wrapf ''decode'' [MbErr ErrInvalidByteCount])
      else Inr (map (\<lambda>i. be_uint16 (b ! (i * 2)) (b ! (i * 2 + 1))) [0..<length b div 2]))"

definition put_uint16 :: "u16 \<Rightarrow> u8 list" where
  "put_uint16 r = [ucast (drop_bit 8 r), ucast r]"

definition Uint16ToBytes :: "u16 list \<Rightarrow> u8 list" where
  "Uint16ToBytes v = concat (map put_uint16 v)"

lemma bit_be_uint16:
  "bit (be_uint16 hi lo) n \<longleftrightarrow> (if n < 8 then bit lo n else n < 16 \<and> bit hi (n - 8))"
  using bit_imp_le_length [of lo n]
  by (auto simp: be_uint16_def bit_or_iff bit_push_bit_iff bit_ucast_iff)

lemma be_uint16_put: "be_uint16 (ucast (drop_bit 8 r)) (ucast r) = (r :: u16)"
  by (rule word_eqI16) (auto simp: bit_be_uint16 bit_ucast_iff bit_drop_bit_eq)

lemma put_be_uint16: "put_uint16 (be_uint16 hi lo) = [hi, lo]"
  by (auto simp: put_uint16_def intro!: bit_word_eqI
      simp: bit_ucast_iff bit_drop_bit_eq bit_be_uint16)

text \<open>The indexed loop agrees with reading the bytes two at a time.\<close>

fun words_of :: "u8 list \<Rightarrow> u16 list" where
  "words_of (hi # lo # b) = be_uint16 hi lo # words_of b"
| "words_of _ = []"

lemma indexed_words_of:
  "even (length b) \<Longrightarrow>
     map (\<lambda>i. be_uint16 (b ! (i * 2)) (b ! (i * 2 + 1))) [0..<length b div 2] = words_of b"
proof (induction b rule: words_of.induct)
  case (1 hi lo b)
  let ?f = "\<lambda>b i. be_uint16 (b ! (i * 2)) (b ! (i * 2 + 1))"
  have "map (?f (hi # lo # b)) [0..<Suc (length b div 2)] =
      be_uint16 hi lo # map (?f b) [0..<length b div 2]"
    by (simp add: map_upt_Suc del: upt_Suc)
  with 1 show ?case by simp
qed auto

lemma BytesToUint16_words_of: "even (length b) \<Longrightarrow> BytesToUint16 b = Inr (words_of b)"
  unfolding BytesToUint16_def by (subst indexed_words_of) (auto simp: even_iff_mod_2_eq_zero)

lemma length_Uint16ToBytes [simp]: "length (Uint16ToBytes v) = 2 * length v"
  by (induction v) (auto simp: Uint16ToBytes_def put_uint16_def)

lemma words_of_Uint16ToBytes: "words_of (Uint16ToBytes v) = v"
  by (induction v) (auto simp: Uint16ToBytes_def put_uint16_def be_uint16_put)

lemma Uint16ToBytes_words_of: "even (length b) \<Longrightarrow> Uint16ToBytes (words_of b) = b"
  by (induction b rule: words_of.induct) (auto simp: Uint16ToBytes_def put_be_uint16)

lemma BytesToUint16_roundtrip: "BytesToUint16 (Uint16ToBytes v) = Inr v"
  by (simp add: BytesToUint16_words_of words_of_Uint16ToBytes)

lemma length_words_of: "length (words_of b) = length b div 2"
  by (induction b rule: words_of.induct) auto

lemma BytesToUint16_odd: "odd (length b) \<Longrightarrow>
  BytesToUint16 b = Inl (Wrapf ''decode'' [MbErr ErrInvalidByteCount])"
  by (simp add: BytesToUint16_def odd_iff_mod_2_eq_one)

subsection \<open>Error classification\<close>

text \<open>The exception codes of the Modbus protocol, as the library names them.\<close>

definition ExceptionCodeIllegalFunction :: u8 where "ExceptionCodeIllegalFunction = 1"
definition ExceptionCodeIllegalDataAddress :: u8 where "ExceptionCodeIllegalDataAddress = 2"
definition ExceptionCodeIllegalDataValue :: u8 where "ExceptionCodeIllegalDataValue = 3"
definition ExceptionCodeServerDeviceFailure :: u8 where "ExceptionCodeServerDeviceFailure = 4"

lemmas exception_codes [enum_defs] =
  ExceptionCodeIllegalFunction_def ExceptionCodeIllegalDataAddress_def
  ExceptionCodeIllegalDataValue_def ExceptionCodeServerDeviceFailure_def

fun WrapError :: "string \<Rightarrow> go_error option \<Rightarrow> go_error option" where
  "WrapError op None = None"
| "WrapError op (Some err) =
     (if as_net_error err = Some True then Some (Wrapf op [MbErr ErrTimeout, err])
      else if err_is err EOF \<or> err_is err ErrUnexpectedEOF
        then Some (Wrapf op [MbErr ErrConnectionLost, err])
      else if as_op_error err then Some (Wrapf op [MbErr ErrConnectionLost, err])
      else case as_gridx_error err of
        Some code \<Rightarrow>
          if code = ExceptionCodeIllegalFunction
            then Some (Wrapf op [MbErr ErrIllegalFunction, err])
          else if code = ExceptionCodeIllegalDataAddress
            then Some (Wrapf op [MbErr ErrIllegalAddress, err])
          else if code = ExceptionCodeIllegalDataValue
            then Some (Wrapf op [MbErr ErrIllegalDataValue, err])
          else if code = ExceptionCodeServerDeviceFailure
            then Some (Wrapf op [MbErr ErrServerFailure, err])
          else Some (Wrapf op [err])
      | None \<Rightarrow> Some (Wrapf op [err]))"

text \<open>The reference: what kind of failure an error is.\<close>

definition classify :: "go_error \<Rightarrow> modbus_error option" where
  "classify err =
     (if as_net_error err = Some True then Some ErrTimeout
      else if err_is err EOF \<or> err_is err ErrUnexpectedEOF \<or> as_op_error err
        then Some ErrConnectionLost
      else case as_gridx_error err of
        None \<Rightarrow> None
      | Some c \<Rightarrow> map_of [(1, ErrIllegalFunction), (2, ErrIllegalAddress),
                     (3, ErrIllegalDataValue), (4, ErrServerFailure)] c)"

definition foreign :: "go_error \<Rightarrow> bool" where
  "foreign err \<longleftrightarrow> (\<forall>x. \<not> err_is err (MbErr x))"

lemma WrapError_shape:
  "WrapError op (Some err) =
     Some (Wrapf op (case classify err of None \<Rightarrow> [err] | Some x \<Rightarrow> [MbErr x, err]))"
  by (auto simp: classify_def enum_defs split: option.splits)

lemma WrapError_classifies:
  "foreign err \<Longrightarrow> WrapError op (Some err) = Some e \<Longrightarrow>
     err_is e (MbErr x) \<longleftrightarrow> classify err = Some x"
  by (auto simp: WrapError_shape foreign_def simp del: WrapError.simps split: option.splits)

lemma WrapError_keeps: "WrapError op (Some err) = Some e \<Longrightarrow> err_is err x \<Longrightarrow> err_is e x"
  by (auto simp: WrapError_shape simp del: WrapError.simps split: option.splits)

definition wrap_err :: "string \<Rightarrow> go_error \<Rightarrow> go_error" where
  "wrap_err op err = (case WrapError op (Some err) of Some e \<Rightarrow> e | None \<Rightarrow> err)"

lemma WrapError_Some: "WrapError op (Some err) = Some (wrap_err op err)"
  by (simp add: wrap_err_def WrapError_shape del: WrapError.simps)

definition transport_error :: "go_error \<Rightarrow> bool" where
  "transport_error err \<longleftrightarrow> classify err \<in> {Some ErrTimeout, Some ErrConnectionLost}"

subsection \<open>Properties\<close>

text \<open>
  Register words and big-endian bytes are in bijection: every even byte string decodes and
  re-encodes to itself, every word list encodes and decodes to itself, and an odd byte string is
  refused with the byte-count error.
\<close>

lemma byte_codec:
  "BytesToUint16 (Uint16ToBytes v) = Inr v
   \<and> (case BytesToUint16 b of
        Inr ws \<Rightarrow> even (length b) \<and> Uint16ToBytes ws = b \<and> 2 * length ws = length b
      | Inl e \<Rightarrow> odd (length b) \<and> err_is e (MbErr ErrInvalidByteCount))"
  by (cases "even (length b)")
    (simp_all add: BytesToUint16_roundtrip BytesToUint16_words_of Uint16ToBytes_words_of length_words_of
      BytesToUint16_odd)

text \<open>
  Wrapping a foreign error adds the one sentinel its kind calls for (a timeout, a lost
  connection, one of the four exception codes) and no other, and keeps everything the error
  already was.
\<close>

lemma wrapped_error_kind:
  assumes "foreign err" and "WrapError op (Some err) = Some e"
  shows "(err_is e (MbErr x) \<longleftrightarrow> classify err = Some x) \<and> (\<not> err_is err y \<or> err_is e y)"
  using WrapError_classifies [OF assms] WrapError_keeps [OF assms(2)] by blast

lemma wrapped_error_kind_example:
  "err_is (wrap_err ''read_input'' (NetErr True True [])) (MbErr ErrTimeout)
   \<and> \<not> err_is (wrap_err ''read_input'' (NetErr True True [])) (MbErr ErrConnectionLost)"
  using wrapped_error_kind [of "NetErr True True []" "''read_input''" _ ErrTimeout,
      OF _ WrapError_Some]
    wrapped_error_kind [of "NetErr True True []" "''read_input''" _ ErrConnectionLost,
      OF _ WrapError_Some]
  by (simp add: foreign_def classify_def)

end
