(* ===== verification/Metrics.thy ===== *)
theory Metrics
  imports Prelude
begin

text \<open>
  The metrics registry of \<^verbatim>\<open>infrastructure/metrics\<close>: named counters and histograms (a
  histogram is represented by its number of observations) and the flags behind the gauges.
  A labelled metric is identified by its rendered Prometheus name, as in the source.
\<close>

record Metrics =
  counters :: "string \<Rightarrow> nat"
  histograms :: "string \<Rightarrow> nat"
  modbusConnectedFlag :: bool
  mqttConnectedFlag :: bool
  lastSuccessfulPollNano :: int

definition metrics0 :: Metrics where
  "metrics0 = \<lparr>counters = (\<lambda>_. 0), histograms = (\<lambda>_. 0), modbusConnectedFlag = False,
     mqttConnectedFlag = False, lastSuccessfulPollNano = 0\<rparr>"

definition counter_inc :: "string \<Rightarrow> Metrics \<Rightarrow> Metrics" where
  "counter_inc k m = m\<lparr>counters := (counters m)(k := counters m k + 1)\<rparr>"

definition histogram_update :: "string \<Rightarrow> Metrics \<Rightarrow> Metrics" where
  "histogram_update k m = m\<lparr>histograms := (histograms m)(k := histograms m k + 1)\<rparr>"

text \<open>\<^verbatim>\<open>%q\<close> of a label made of printable ASCII, which all labels of the program are.\<close>

definition go_quote :: "string \<Rightarrow> string" where
  "go_quote s =
     CHR 0x22 # concat (map (\<lambda>c. if c = CHR 0x22 \<or> c = CHR 0x5C then [CHR 0x5C, c] else [c]) s)
     @ [CHR 0x22]"

definition ModbusReconnectsTotal :: string where
  "ModbusReconnectsTotal = ''oasis_modbus_reconnects_total''"
definition MQTTReconnectsTotal :: string where
  "MQTTReconnectsTotal = ''oasis_mqtt_reconnects_total''"
definition JobsDroppedTotal :: string where "JobsDroppedTotal = ''oasis_jobs_dropped_total''"
definition MQTTPublishesTotal :: string where "MQTTPublishesTotal = ''oasis_mqtt_publishes_total''"
definition DiscoveryRepublishesTotal :: string where
  "DiscoveryRepublishesTotal = ''oasis_discovery_republishes_total''"

definition ModbusOpsTotal :: "string \<Rightarrow> string \<Rightarrow> string" where
  "ModbusOpsTotal op status =
     ''oasis_modbus_ops_total{op='' @ go_quote op @ '',status='' @ go_quote status @ ''}''"

definition ModbusOpDurationSeconds :: "string \<Rightarrow> string" where
  "ModbusOpDurationSeconds op = ''oasis_modbus_op_duration_seconds{op='' @ go_quote op @ ''}''"

definition ModbusErrorsTotal :: "string \<Rightarrow> string" where
  "ModbusErrorsTotal e = ''oasis_modbus_errors_total{error_type='' @ go_quote e @ ''}''"

definition JobsByTierDroppedTotal :: "string \<Rightarrow> string" where
  "JobsByTierDroppedTotal tier = ''oasis_jobs_by_tier_dropped_total{tier='' @ go_quote tier @ ''}''"

definition PollDurationSeconds :: "string \<Rightarrow> string" where
  "PollDurationSeconds tier = ''oasis_poll_duration_seconds{tier='' @ go_quote tier @ ''}''"

definition MQTTPublishesByEntityTotal :: "string \<Rightarrow> string" where
  "MQTTPublishesByEntityTotal e =
     ''oasis_mqtt_publishes_by_entity_total{entity='' @ go_quote e @ ''}''"

definition SetModbusConnected :: "bool \<Rightarrow> Metrics \<Rightarrow> Metrics" where
  "SetModbusConnected b m = m\<lparr>modbusConnectedFlag := b\<rparr>"

definition SetMQTTConnected :: "bool \<Rightarrow> Metrics \<Rightarrow> Metrics" where
  "SetMQTTConnected b m = m\<lparr>mqttConnectedFlag := b\<rparr>"

text \<open>\<^verbatim>\<open>UnixNano\<close>: nanoseconds since 1970, here from the zero time of year 1.\<close>

definition unix_epoch :: gotime where "unix_epoch = 62135596800 * 1000000000"

definition SetLastSuccessfulPoll :: "gotime \<Rightarrow> Metrics \<Rightarrow> Metrics" where
  "SetLastSuccessfulPoll t m = m\<lparr>lastSuccessfulPollNano := t - unix_epoch\<rparr>"

text \<open>The gauge callbacks that \<open>Init\<close> registers.\<close>

definition gauge_value :: "Metrics \<Rightarrow> string \<Rightarrow> int option" where
  "gauge_value m g =
     (if g = ''oasis_modbus_connected'' then Some (if modbusConnectedFlag m then 1 else 0)
      else if g = ''oasis_mqtt_connected'' then Some (if mqttConnectedFlag m then 1 else 0)
      else if g = ''oasis_last_successful_poll_unix_nanos'' then Some (lastSuccessfulPollNano m)
      else None)"

lemma metrics_frame [simp]:
  "modbusConnectedFlag (counter_inc k m) = modbusConnectedFlag m"
  "modbusConnectedFlag (histogram_update k m) = modbusConnectedFlag m"
  "modbusConnectedFlag (SetModbusConnected b m) = b"
  "modbusConnectedFlag (SetLastSuccessfulPoll t m) = modbusConnectedFlag m"
  "mqttConnectedFlag (counter_inc k m) = mqttConnectedFlag m"
  "mqttConnectedFlag (histogram_update k m) = mqttConnectedFlag m"
  "mqttConnectedFlag (SetMQTTConnected b m) = b"
  "mqttConnectedFlag (SetModbusConnected b m) = mqttConnectedFlag m"
  "modbusConnectedFlag (SetMQTTConnected b m) = modbusConnectedFlag m"
  "counters (SetModbusConnected b m) = counters m"
  "counters (histogram_update k m) = counters m"
  by (simp_all add: counter_inc_def histogram_update_def SetModbusConnected_def SetMQTTConnected_def
      SetLastSuccessfulPoll_def)

lemma counter_inc_get: "counters (counter_inc k m) j = counters m j + (if j = k then 1 else 0)"
  by (simp add: counter_inc_def)

end
