(* ===== verification/Config.thy ===== *)
theory Config
  imports GoFloat GoError
begin

text \<open>
  The configuration records of \<^verbatim>\<open>infrastructure/config/config.go\<close> and the validation that guards
  them. The text of a validation error is kept up to the value the format prints. The main
  lemma characterises acceptance: \<open>Validate\<close> returns no error exactly for the
  configurations that satisfy \<open>valid_config\<close>, one conjunct per check; the float checks are
  written with the comparisons of the code, so a not-a-number passes them.
\<close>

record ModbusConfig =
  mc_Host :: string
  mc_Port :: int
  mc_SlaveID :: u8
  mc_ConnectTimeout :: duration
  mc_ReadTimeout :: duration
  mc_WriteTimeout :: duration
  mc_GuardInterval :: duration

definition ModbusConfig_Addr :: "ModbusConfig \<Rightarrow> string" where
  "ModbusConfig_Addr m = mc_Host m @ '':'' @ dec_int (mc_Port m)"

record MQTTConfig =
  mq_Broker :: string
  mq_ClientID :: string
  mq_Username :: string
  mq_Password :: string
  mq_Keepalive :: duration
  mq_QoS :: u8

record HAConfig =
  ha_DiscoveryPrefix :: string
  ha_DevicePrefix :: string
  ha_DeviceName :: string
  ha_Manufacturer :: string
  ha_Model :: string

record PollingConfig =
  pl_HotInterval :: duration
  pl_MediumInterval :: duration
  pl_SlowInterval :: duration
  pl_AvailabilityThreshold :: duration

record HTTPConfig = ht_Port :: int

definition HTTPConfig_Addr :: "HTTPConfig \<Rightarrow> string" where
  "HTTPConfig_Addr h = ''0.0.0.0:'' @ dec_int (ht_Port h)"

record LoggerConfig = lg_Level :: string

record ReconnectConfig =
  rc_MinDelay :: duration
  rc_MaxDelay :: duration
  rc_Factor :: f64
  rc_JitterPct :: f64

record Config =
  cf_Modbus :: ModbusConfig
  cf_MQTT :: MQTTConfig
  cf_HomeAssistant :: HAConfig
  cf_Polling :: PollingConfig
  cf_HTTP :: HTTPConfig
  cf_Logger :: LoggerConfig
  cf_Reconnect :: ReconnectConfig

text \<open>A chain of \<^verbatim>\<open>if cond { return err }\<close> statements.\<close>

fun first_failing :: "(bool \<times> string) list \<Rightarrow> go_error option" where
  "first_failing [] = None"
| "first_failing ((b, e) # cs) = (if b then Some (ErrText e) else first_failing cs)"

definition validate_checks :: "Config \<Rightarrow> (bool \<times> string) list" where
  "validate_checks c =
     (let m = cf_Modbus c; q = cf_MQTT c; h = cf_HomeAssistant c; p = cf_Polling c;
          r = cf_Reconnect c in
     [(mc_Host m = '''', ''validate: MODBUS_HOST is empty''),
      (mc_Port m < 1 \<or> 65535 < mc_Port m, ''validate: MODBUS_PORT out of range [1,65535]''),
      (mc_SlaveID m < 1 \<or> 247 < mc_SlaveID m, ''validate: MODBUS_SLAVE_ID out of range [1,247]''),
      (mc_ConnectTimeout m \<le> 0, ''validate: MODBUS_CONNECT_TIMEOUT must be > 0''),
      (mc_ReadTimeout m \<le> 0, ''validate: MODBUS_READ_TIMEOUT must be > 0''),
      (mc_WriteTimeout m \<le> 0, ''validate: MODBUS_WRITE_TIMEOUT must be > 0''),
      (mc_GuardInterval m < 0, ''validate: MODBUS_GUARD_INTERVAL must be >= 0''),
      (mq_Broker q = '''', ''validate: MQTT_BROKER is empty''),
      (mq_ClientID q = '''', ''validate: MQTT_CLIENT_ID is empty''),
      (2 < mq_QoS q, ''validate: MQTT_QOS out of range [0,2]''),
      (mq_Keepalive q \<le> 0, ''validate: MQTT_KEEPALIVE must be > 0''),
      (ha_DevicePrefix h = '''', ''validate: HA_DEVICE_PREFIX is empty''),
      (ht_Port (cf_HTTP c) < 1 \<or> 65535 < ht_Port (cf_HTTP c),
         ''validate: HTTP_PORT out of range [1,65535]''),
      (pl_HotInterval p \<le> 0, ''validate: POLL_HOT_INTERVAL must be > 0''),
      (pl_MediumInterval p \<le> 0, ''validate: POLL_MEDIUM_INTERVAL must be > 0''),
      (pl_SlowInterval p \<le> 0, ''validate: POLL_SLOW_INTERVAL must be > 0''),
      (pl_AvailabilityThreshold p \<le> 0, ''validate: AVAILABILITY_THRESHOLD must be > 0''),
      (pl_MediumInterval p < pl_HotInterval p,
         ''validate: POLL_HOT_INTERVAL must be <= POLL_MEDIUM_INTERVAL''),
      (pl_SlowInterval p < pl_MediumInterval p,
         ''validate: POLL_MEDIUM_INTERVAL must be <= POLL_SLOW_INTERVAL''),
      (rc_MinDelay r \<le> 0, ''validate: RECONNECT_MIN_DELAY must be > 0''),
      (rc_MaxDelay r \<le> 0, ''validate: RECONNECT_MAX_DELAY must be > 0''),
      (rc_MaxDelay r < rc_MinDelay r, ''validate: RECONNECT_MIN_DELAY must be <= RECONNECT_MAX_DELAY''),
      (f_le (rc_Factor r) (Fin 1), ''validate: RECONNECT_FACTOR must be > 1.0''),
      (f_lt (rc_JitterPct r) (Fin 0) \<or> f_lt (Fin 1) (rc_JitterPct r),
         ''validate: RECONNECT_JITTER_PCT out of range [0,1]'')])"

definition Validate :: "Config \<Rightarrow> go_error option" where
  "Validate c = first_failing (validate_checks c)"

lemma first_failing_None_iff: "first_failing cs = None \<longleftrightarrow> (\<forall>(b, e) \<in> set cs. \<not> b)"
  by (induction cs rule: first_failing.induct) auto

lemma first_failing_SomeD: "first_failing cs = Some e \<Longrightarrow> \<exists>t. e = ErrText t \<and> (True, t) \<in> set cs"
  by (induction cs rule: first_failing.induct) (auto split: if_splits)

subsection \<open>What validation guarantees\<close>

definition valid_modbus :: "ModbusConfig \<Rightarrow> bool" where
  "valid_modbus m \<longleftrightarrow> mc_Host m \<noteq> '''' \<and> 1 \<le> mc_Port m \<and> mc_Port m \<le> 65535
     \<and> 1 \<le> mc_SlaveID m \<and> mc_SlaveID m \<le> 247 \<and> 0 < mc_ConnectTimeout m \<and> 0 < mc_ReadTimeout m
     \<and> 0 < mc_WriteTimeout m \<and> 0 \<le> mc_GuardInterval m"

definition valid_mqtt :: "MQTTConfig \<Rightarrow> bool" where
  "valid_mqtt q \<longleftrightarrow> mq_Broker q \<noteq> '''' \<and> mq_ClientID q \<noteq> '''' \<and> mq_QoS q \<le> 2 \<and> 0 < mq_Keepalive q"

definition valid_polling :: "PollingConfig \<Rightarrow> bool" where
  "valid_polling p \<longleftrightarrow> 0 < pl_HotInterval p \<and> pl_HotInterval p \<le> pl_MediumInterval p
     \<and> pl_MediumInterval p \<le> pl_SlowInterval p \<and> 0 < pl_AvailabilityThreshold p"

text \<open>A factor above one, or a not-a-number, or plus infinity; a jitter in [0, 1] or a not-a-number.\<close>

definition valid_factor :: "f64 \<Rightarrow> bool" where
  "valid_factor f = (case f of NaN \<Rightarrow> True | Inf s \<Rightarrow> \<not> s | Fin x \<Rightarrow> 1 < x)"

definition valid_jitter :: "f64 \<Rightarrow> bool" where
  "valid_jitter f = (case f of NaN \<Rightarrow> True | Inf s \<Rightarrow> False | Fin x \<Rightarrow> 0 \<le> x \<and> x \<le> 1)"

definition valid_reconnect :: "ReconnectConfig \<Rightarrow> bool" where
  "valid_reconnect r \<longleftrightarrow> 0 < rc_MinDelay r \<and> rc_MinDelay r \<le> rc_MaxDelay r
     \<and> valid_factor (rc_Factor r) \<and> valid_jitter (rc_JitterPct r)"

definition valid_config :: "Config \<Rightarrow> bool" where
  "valid_config c \<longleftrightarrow> valid_modbus (cf_Modbus c) \<and> valid_mqtt (cf_MQTT c)
     \<and> ha_DevicePrefix (cf_HomeAssistant c) \<noteq> '''' \<and> 1 \<le> ht_Port (cf_HTTP c)
     \<and> ht_Port (cf_HTTP c) \<le> 65535 \<and> valid_polling (cf_Polling c)
     \<and> valid_reconnect (cf_Reconnect c)"

lemma factor_check: "\<not> f_le f (Fin 1) \<longleftrightarrow> valid_factor f"
  by (cases f) (auto simp: f_le_def valid_factor_def)

lemma jitter_check: "\<not> (f_lt f (Fin 0) \<or> f_lt (Fin 1) f) \<longleftrightarrow> valid_jitter f"
  by (cases f) (auto simp: valid_jitter_def)

lemma u8_ge_1_iff: "(1 :: u8) \<le> w \<longleftrightarrow> w \<noteq> 0"
  by (metis linorder_not_le word_less_1)

lemma Validate_accepts_iff: "Validate c = None \<longleftrightarrow> valid_config c"
  unfolding Validate_def first_failing_None_iff validate_checks_def Let_def
  using factor_check [of "rc_Factor (cf_Reconnect c)"] jitter_check [of "rc_JitterPct (cf_Reconnect c)"]
  by (simp add: valid_config_def valid_modbus_def valid_mqtt_def valid_polling_def
      valid_reconnect_def not_less not_le u8_ge_1_iff) auto

subsection \<open>Properties\<close>

text \<open>
  A configuration is accepted exactly when every field is in its documented range; as
  written, the checks on the two floats also let a not-a-number pass.
\<close>

lemma validation_exact: "Validate c = None \<longleftrightarrow> valid_config c"
  by (rule Validate_accepts_iff)

end
