(* ===== verification/ModbusClient.thy ===== *)
theory ModbusClient
  imports ModbusDecode Metrics Config
begin

text \<open>
  \<^verbatim>\<open>infrastructure/modbus/client.go\<close>: the client that owns the TCP connection. The Modbus
  library, the network and the clock are a record of functions over an abstract world
  (\<open>ModbusEnv\<close>); the client state keeps what the struct keeps, the metrics and the world.
  Each exported method holds the mutex for its whole body, so a method is one function from
  state to state.
\<close>

record 'w ModbusEnv =
  me_now :: "'w \<Rightarrow> gotime \<times> 'w"
  me_wait :: "duration \<Rightarrow> 'w \<Rightarrow> go_error option \<times> 'w"
    \<comment> \<open>a select on a timer and \<^verbatim>\<open>ctx.Done()\<close>: \<open>None\<close> when the timer fired, else \<^verbatim>\<open>ctx.Err()\<close>\<close>
  me_dial :: "ModbusConfig \<Rightarrow> 'w \<Rightarrow> (go_error + nat) \<times> 'w"
    \<comment> \<open>\<^verbatim>\<open>handler.Connect\<close> of a new handler; the handlers are numbered\<close>
  me_close :: "nat \<Rightarrow> 'w \<Rightarrow> go_error option \<times> 'w"
  me_readInput :: "nat \<Rightarrow> u16 \<Rightarrow> u16 \<Rightarrow> 'w \<Rightarrow> (go_error + u8 list) \<times> 'w"
  me_readHolding :: "nat \<Rightarrow> u16 \<Rightarrow> u16 \<Rightarrow> 'w \<Rightarrow> (go_error + u8 list) \<times> 'w"
  me_writeSingle :: "nat \<Rightarrow> u16 \<Rightarrow> u16 \<Rightarrow> 'w \<Rightarrow> (go_error + u8 list) \<times> 'w"

record 'w Client =
  cl_cfg :: ModbusConfig
  cl_handler :: "nat option"
  cl_connected :: bool
  cl_lastOpAt :: gotime
  cl_metrics :: Metrics
  cl_world :: 'w

definition maxRegistersPerRead :: u16 where "maxRegistersPerRead = 125"

definition NewClient :: "ModbusConfig \<Rightarrow> Metrics \<Rightarrow> 'w \<Rightarrow> 'w Client" where
  "NewClient cfg m w = \<lparr>cl_cfg = cfg, cl_handler = None, cl_connected = False,
     cl_lastOpAt = zero_time, cl_metrics = m, cl_world = w\<rparr>"

definition upd_metrics :: "(Metrics \<Rightarrow> Metrics) \<Rightarrow> 'w Client \<Rightarrow> 'w Client" where
  "upd_metrics f c = c\<lparr>cl_metrics := f (cl_metrics c)\<rparr>"

text \<open>The handler of the library client; it is set whenever \<open>cl_connected\<close> is.\<close>

definition handler_of :: "'w Client \<Rightarrow> nat" where
  "handler_of c = (case cl_handler c of None \<Rightarrow> 0 | Some h \<Rightarrow> h)"

subsection \<open>Connection lifecycle\<close>

definition Connect :: "'w ModbusEnv \<Rightarrow> 'w Client \<Rightarrow> go_error option \<times> 'w Client" where
  "Connect E c =
     (if cl_connected c then (None, c)
      else case me_dial E (cl_cfg c) (cl_world c) of
        (Inl err, w) \<Rightarrow> (WrapError ''connect'' (Some err), c\<lparr>cl_world := w\<rparr>)
      | (Inr h, w) \<Rightarrow>
          (None, upd_metrics (counter_inc ModbusReconnectsTotal \<circ> SetModbusConnected True)
             (c\<lparr>cl_world := w, cl_handler := Some h, cl_connected := True,
                cl_lastOpAt := zero_time\<rparr>)))"

definition ForceClose :: "'w ModbusEnv \<Rightarrow> 'w Client \<Rightarrow> go_error option \<times> 'w Client" where
  "ForceClose E c =
     (if \<not> cl_connected c then (None, c)
      else let c1 = (case cl_handler c of None \<Rightarrow> c
                       | Some h \<Rightarrow> c\<lparr>cl_world := snd (me_close E h (cl_world c))\<rparr>)
           in (None, upd_metrics (SetModbusConnected False) (c1\<lparr>cl_connected := False\<rparr>)))"

definition Connected :: "'w Client \<Rightarrow> bool" where
  "Connected c = cl_connected c"

subsection \<open>The template of one operation\<close>

definition waitGuardInterval :: "'w ModbusEnv \<Rightarrow> 'w Client \<Rightarrow> go_error option \<times> 'w Client" where
  "waitGuardInterval E c =
     (if IsZero (cl_lastOpAt c) \<or> mc_GuardInterval (cl_cfg c) \<le> 0 then (None, c)
      else let (now, w1) = me_now E (cl_world c);
               elapsed = time_sub now (cl_lastOpAt c)
           in if mc_GuardInterval (cl_cfg c) \<le> elapsed then (None, c\<lparr>cl_world := w1\<rparr>)
              else let (r, w2) = me_wait E (mc_GuardInterval (cl_cfg c) - elapsed) w1
                   in (r, c\<lparr>cl_world := w2\<rparr>))"

definition handleOpError :: "string \<Rightarrow> go_error \<Rightarrow> 'w Client \<Rightarrow> 'w Client" where
  "handleOpError opName err c0 =
     (let c = upd_metrics (counter_inc (ModbusOpsTotal opName ''error'')) c0;
          wrapped = wrap_err opName err
      in if err_is wrapped (MbErr ErrConnectionLost)
         then upd_metrics (counter_inc (ModbusErrorsTotal ''connection_lost'') \<circ> SetModbusConnected False)
                (c\<lparr>cl_connected := False\<rparr>)
         else if err_is wrapped (MbErr ErrTimeout)
         then upd_metrics (counter_inc (ModbusErrorsTotal ''timeout'') \<circ> SetModbusConnected False)
                (c\<lparr>cl_connected := False\<rparr>)
         else upd_metrics (counter_inc (ModbusErrorsTotal ''protocol'')) c)"

text \<open>
  The middle of every operation: run the library call between two clock readings, note the
  time it completed and observe the histogram.
\<close>

definition timed_call ::
  "'w ModbusEnv \<Rightarrow> string \<Rightarrow> ('w \<Rightarrow> (go_error + 'a) \<times> 'w) \<Rightarrow> 'w Client \<Rightarrow>
     (go_error + 'a) \<times> 'w Client" where
  "timed_call E opName fn c =
     (let (start, w1) = me_now E (cl_world c);
          (r, w2) = fn w1;
          (t, w3) = me_now E w2
      in (r, upd_metrics (histogram_update (ModbusOpDurationSeconds opName))
               (c\<lparr>cl_world := w3, cl_lastOpAt := t\<rparr>)))"

definition doOp ::
  "'w ModbusEnv \<Rightarrow> string \<Rightarrow> ('w \<Rightarrow> (go_error + 'a) \<times> 'w) \<Rightarrow> 'w Client \<Rightarrow>
     (go_error + 'a) \<times> 'w Client" where
  "doOp E opName fn c =
     (if \<not> cl_connected c then (Inl (Wrapf opName [DtoErr ErrModbusNotConnected]), c)
      else case waitGuardInterval E c of
        (Some e, c1) \<Rightarrow> (Inl (Wrapf opName [e]), c1)
      | (None, c1) \<Rightarrow>
          (case timed_call E opName fn c1 of
             (Inl err, c2) \<Rightarrow> (Inl (wrap_err opName err), handleOpError opName err c2)
           | (Inr v, c2) \<Rightarrow> (Inr v, upd_metrics (counter_inc (ModbusOpsTotal opName ''ok'')) c2)))"

subsection \<open>Reads and writes\<close>

definition ReadInput :: "'w ModbusEnv \<Rightarrow> u16 \<Rightarrow> u16 \<Rightarrow> 'w Client \<Rightarrow> (go_error + u16 list) \<times> 'w Client" where
  "ReadInput E start count c =
     (if count = 0 \<or> maxRegistersPerRead < count
      then (Inl (Wrapf ''read_input'' [MbErr ErrIllegalDataValue]), c)
      else case doOp E ''read_input'' (me_readInput E (handler_of c) start count) c of
        (Inl err, c1) \<Rightarrow> (Inl err, c1)
      | (Inr raw, c1) \<Rightarrow>
          (case BytesToUint16 raw of
             Inl derr \<Rightarrow> (Inl (Wrapf ''read_input'' [derr]), c1)
           | Inr regs \<Rightarrow> (Inr regs, c1)))"

definition ReadHolding :: "'w ModbusEnv \<Rightarrow> u16 \<Rightarrow> u16 \<Rightarrow> 'w Client \<Rightarrow> (go_error + u16 list) \<times> 'w Client" where
  "ReadHolding E start count c =
     (if count = 0 \<or> maxRegistersPerRead < count
      then (Inl (Wrapf ''read_holding'' [MbErr ErrIllegalDataValue]), c)
      else case doOp E ''read_holding'' (me_readHolding E (handler_of c) start count) c of
        (Inl err, c1) \<Rightarrow> (Inl err, c1)
      | (Inr raw, c1) \<Rightarrow>
          (case BytesToUint16 raw of
             Inl derr \<Rightarrow> (Inl (Wrapf ''read_holding'' [derr]), c1)
           | Inr regs \<Rightarrow> (Inr regs, c1)))"

definition WriteHolding :: "'w ModbusEnv \<Rightarrow> u16 \<Rightarrow> u16 \<Rightarrow> 'w Client \<Rightarrow> go_error option \<times> 'w Client" where
  "WriteHolding E addr value c =
     (case doOp E ''write_holding'' (me_writeSingle E (handler_of c) addr value) c of
        (r, c1) \<Rightarrow> (err_of r, c1))"

text \<open>
  \<open>ModifyHolding\<close>: one read, the caller's function (which may panic: \<open>None\<close>), one write,
  under a single lock. The decoding of the read is the first \<^verbatim>\<open>case\<close>.
\<close>

definition decode_one :: "u8 list \<Rightarrow> go_error + u16" where
  "decode_one raw =
     (case BytesToUint16 raw of
        Inl derr \<Rightarrow> Inl (Wrapf ''modify_holding_read'' [derr])
      | Inr decoded \<Rightarrow>
          (case decoded of [r] \<Rightarrow> Inr r
           | _ \<Rightarrow> Inl (ErrText ''modify_holding_read: expected 1 register'')))"

definition modify_write ::
  "'w ModbusEnv \<Rightarrow> u16 \<Rightarrow> u16 \<Rightarrow> 'w Client \<Rightarrow> go_error option \<times> 'w Client" where
  "modify_write E addr newVal c =
     (case waitGuardInterval E c of
        (Some e, c1) \<Rightarrow> (Some (Wrapf ''modify_holding'' [e]), c1)
      | (None, c1) \<Rightarrow>
          (case timed_call E ''modify_holding_write'' (me_writeSingle E (handler_of c1) addr newVal) c1 of
             (Inl werr, c2) \<Rightarrow>
               (Some (wrap_err ''modify_holding_write'' werr),
                handleOpError ''modify_holding_write'' werr c2)
           | (Inr _, c2) \<Rightarrow>
               (None, upd_metrics (counter_inc (ModbusOpsTotal ''modify_holding_write'' ''ok'')) c2)))"

definition ModifyHolding ::
  "'w ModbusEnv \<Rightarrow> u16 \<Rightarrow> (u16 \<Rightarrow> u16 option) \<Rightarrow> 'w Client \<Rightarrow> go_error option \<times> 'w Client" where
  "ModifyHolding E addr modify c =
     (if \<not> cl_connected c then (Some (Wrapf ''modify_holding'' [DtoErr ErrModbusNotConnected]), c)
      else case waitGuardInterval E c of
        (Some e, c1) \<Rightarrow> (Some (Wrapf ''modify_holding'' [e]), c1)
      | (None, c1) \<Rightarrow>
          (case timed_call E ''modify_holding_read'' (me_readHolding E (handler_of c1) addr 1) c1 of
             (Inl err, c2) \<Rightarrow>
               (Some (wrap_err ''modify_holding_read'' err),
                handleOpError ''modify_holding_read'' err c2)
           | (Inr raw, c2) \<Rightarrow>
               (case decode_one raw of
                  Inl derr \<Rightarrow>
                    (Some derr,
                     upd_metrics (counter_inc (ModbusErrorsTotal ''decode'')
                        \<circ> counter_inc (ModbusOpsTotal ''modify_holding_read'' ''error'')) c2)
                | Inr current \<Rightarrow>
                    let c3 = upd_metrics (counter_inc (ModbusOpsTotal ''modify_holding_read'' ''ok'')) c2
                    in (case modify current of
                          None \<Rightarrow>
                            (Some (ErrText ''modify_holding: modify func panicked''),
                             upd_metrics (counter_inc (ModbusErrorsTotal ''modify_panic'')) c3)
                        | Some newVal \<Rightarrow> modify_write E addr newVal c3))))"

end
