(* ===== verification/ModbusClientLaws.thy ===== *)
theory ModbusClientLaws
  imports ModbusClient
begin

text \<open>
  What the client guarantees. A sequence of client operations is a list of \<open>client_op\<close>
  executed by \<open>client_step\<close>. Proved here: the connection gauge mirrors the connection
  flag and a connected client has a handler (\<open>client_wf\<close>); a disconnected client touches
  neither the network nor its state; which failures drop the connection; and, for any environment
  with a clock and a log of bus transactions that satisfies \<open>env_laws\<close>, that consecutive transactions on
  one connection are at least the guard interval apart.
\<close>

subsection \<open>Operations as steps\<close>

datatype client_op =
    OpConnect
  | OpForceClose
  | OpReadInput u16 u16
  | OpReadHolding u16 u16
  | OpWriteHolding u16 u16
  | OpModifyHolding u16 "u16 \<Rightarrow> u16 option"

fun client_step :: "'w ModbusEnv \<Rightarrow> client_op \<Rightarrow> 'w Client \<Rightarrow> 'w Client" where
  "client_step E OpConnect c = snd (Connect E c)"
| "client_step E OpForceClose c = snd (ForceClose E c)"
| "client_step E (OpReadInput s n) c = snd (ReadInput E s n c)"
| "client_step E (OpReadHolding s n) c = snd (ReadHolding E s n c)"
| "client_step E (OpWriteHolding a v) c = snd (WriteHolding E a v c)"
| "client_step E (OpModifyHolding a f) c = snd (ModifyHolding E a f c)"

definition client_run :: "'w ModbusEnv \<Rightarrow> client_op list \<Rightarrow> 'w Client \<Rightarrow> 'w Client" where
  "client_run E ops c = fold (client_step E) ops c"

text \<open>
  An invariant of the client is preserved by every operation when it is preserved by the
  four building blocks of the operations. This rule does the case analysis once.
\<close>

definition drop_conn :: "(Metrics \<Rightarrow> Metrics) \<Rightarrow> 'w Client \<Rightarrow> 'w Client" where
  "drop_conn f c = upd_metrics (SetModbusConnected False \<circ> f) (c\<lparr>cl_connected := False\<rparr>)"

definition flag_neutral :: "(Metrics \<Rightarrow> Metrics) \<Rightarrow> bool" where
  "flag_neutral f \<longleftrightarrow> (\<forall>m. modbusConnectedFlag (f m) = modbusConnectedFlag m)"

lemma flag_neutral_intros [intro, simp]:
  "flag_neutral (counter_inc k)" "flag_neutral (histogram_update k)"
  "flag_neutral f \<Longrightarrow> flag_neutral g \<Longrightarrow> flag_neutral (f \<circ> g)"
  by (simp_all add: flag_neutral_def)

lemma counter_inc_SetModbusConnected:
  "counter_inc k (SetModbusConnected b m) = SetModbusConnected b (counter_inc k m)"
  by (simp add: counter_inc_def SetModbusConnected_def)

lemma handleOpError_cases:
  obtains f where "flag_neutral f" "handleOpError op err c = upd_metrics f c"
    "\<not> err_is (wrap_err op err) (MbErr ErrConnectionLost)"
    "\<not> err_is (wrap_err op err) (MbErr ErrTimeout)"
  | f where "flag_neutral f" "handleOpError op err c = drop_conn f c"
    "err_is (wrap_err op err) (MbErr ErrConnectionLost) \<or> err_is (wrap_err op err) (MbErr ErrTimeout)"
proof -
  let ?a = "counter_inc (ModbusOpsTotal op ''error'')"
  consider (lost) "err_is (wrap_err op err) (MbErr ErrConnectionLost)"
    | (timeout) "\<not> err_is (wrap_err op err) (MbErr ErrConnectionLost)" "err_is (wrap_err op err) (MbErr ErrTimeout)"
    | (proto) "\<not> err_is (wrap_err op err) (MbErr ErrConnectionLost)" "\<not> err_is (wrap_err op err) (MbErr ErrTimeout)"
    by blast
  then show ?thesis
  proof cases
    case lost
    then show ?thesis
      by (intro that(2) [of "counter_inc (ModbusErrorsTotal ''connection_lost'') \<circ> ?a"])
        (auto simp: handleOpError_def drop_conn_def upd_metrics_def Let_def counter_inc_SetModbusConnected)
  next
    case timeout
    then show ?thesis
      by (intro that(2) [of "counter_inc (ModbusErrorsTotal ''timeout'') \<circ> ?a"])
        (auto simp: handleOpError_def drop_conn_def upd_metrics_def Let_def counter_inc_SetModbusConnected)
  next
    case proto
    then show ?thesis
      by (intro that(1) [of "counter_inc (ModbusErrorsTotal ''protocol'') \<circ> ?a"])
        (auto simp: handleOpError_def upd_metrics_def Let_def)
  qed
qed

lemma upd_metrics_sel [simp]:
  "cl_cfg (upd_metrics f c) = cl_cfg c" "cl_handler (upd_metrics f c) = cl_handler c"
  "cl_connected (upd_metrics f c) = cl_connected c" "cl_lastOpAt (upd_metrics f c) = cl_lastOpAt c"
  "cl_world (upd_metrics f c) = cl_world c" "cl_metrics (upd_metrics f c) = f (cl_metrics c)"
  "handler_of (upd_metrics f c) = handler_of c"
  by (simp_all add: upd_metrics_def handler_of_def)

lemma wait_frame:
  assumes "waitGuardInterval E c = (r, c')"
  obtains w where "c' = c\<lparr>cl_world := w\<rparr>"
proof -
  have "c' = c\<lparr>cl_world := cl_world c'\<rparr>"
  proof (cases "IsZero (cl_lastOpAt c) \<or> mc_GuardInterval (cl_cfg c) \<le> 0")
    case True
    then show ?thesis using assms by (simp add: waitGuardInterval_def)
  next
    case False
    obtain now w1 where n: "me_now E (cl_world c) = (now, w1)" by fastforce
    obtain x w2 where x:
      "me_wait E (mc_GuardInterval (cl_cfg c) - time_sub now (cl_lastOpAt c)) w1 = (x, w2)"
      by fastforce
    show ?thesis using assms False by (auto simp: waitGuardInterval_def Let_def n x split: if_splits)
  qed
  then show ?thesis by (rule that)
qed

lemma snd_ReadInput: "snd (ReadInput E s n c) =
   (if n = 0 \<or> maxRegistersPerRead < n then c
    else snd (doOp E ''read_input'' (me_readInput E (handler_of c) s n) c))"
  by (simp add: ReadInput_def split: prod.split sum.split)

lemma snd_ReadHolding: "snd (ReadHolding E s n c) =
   (if n = 0 \<or> maxRegistersPerRead < n then c
    else snd (doOp E ''read_holding'' (me_readHolding E (handler_of c) s n) c))"
  by (simp add: ReadHolding_def split: prod.split sum.split)

lemma snd_WriteHolding: "snd (WriteHolding E a v c) =
    snd (doOp E ''write_holding'' (me_writeSingle E (handler_of c) a v) c)"
  by (simp add: WriteHolding_def split: prod.split)

locale client_invariant =
  fixes E :: "'w ModbusEnv" and I R :: "'w Client \<Rightarrow> bool"
  assumes I_metrics: "I c \<Longrightarrow> flag_neutral f \<Longrightarrow> I (upd_metrics f c)"
    and I_drop: "I c \<Longrightarrow> flag_neutral f \<Longrightarrow> I (drop_conn f c)"
    and I_wait: "I c \<Longrightarrow> cl_connected c \<Longrightarrow> waitGuardInterval E c = (r, c') \<Longrightarrow>
        I c' \<and> cl_connected c' \<and> (r = None \<longrightarrow> R c')"
    and I_readInput: "I c \<Longrightarrow> R c \<Longrightarrow> cl_connected c \<Longrightarrow>
        timed_call E op (me_readInput E (handler_of c) a n) c = (ri, c') \<Longrightarrow> I c' \<and> cl_connected c'"
    and I_readHolding: "I c \<Longrightarrow> R c \<Longrightarrow> cl_connected c \<Longrightarrow>
        timed_call E op (me_readHolding E (handler_of c) a n) c = (rh, c') \<Longrightarrow> I c' \<and> cl_connected c'"
    and I_write: "I c \<Longrightarrow> R c \<Longrightarrow> cl_connected c \<Longrightarrow>
        timed_call E op (me_writeSingle E (handler_of c) a v) c = (rw, c') \<Longrightarrow> I c' \<and> cl_connected c'"
    and I_connect: "I c \<Longrightarrow> \<not> cl_connected c \<Longrightarrow> I (snd (Connect E c))"
    and I_close: "I c \<Longrightarrow> cl_connected c \<Longrightarrow> I (snd (ForceClose E c))"
begin

lemma I_handleOpError: "I c \<Longrightarrow> I (handleOpError op err c)"
  by (rule handleOpError_cases [of op err c]) (auto intro: I_metrics I_drop)

lemma I_doOp:
  assumes "I c" and "\<And>c1 r c2. I c1 \<Longrightarrow> R c1 \<Longrightarrow> cl_connected c1 \<Longrightarrow>
      handler_of c1 = handler_of c \<Longrightarrow> timed_call E op fn c1 = (r, c2) \<Longrightarrow> I c2"
  shows "I (snd (doOp E op fn c))"
proof (cases "cl_connected c")
  case False
  then show ?thesis using assms(1) by (simp add: doOp_def)
next
  case True
  obtain r c1 where w: "waitGuardInterval E c = (r, c1)" by fastforce
  then have h: "handler_of c1 = handler_of c"
    by (rule wait_frame) (simp add: handler_of_def)
  from I_wait [OF assms(1) True w] have I1: "I c1" "cl_connected c1" "r = None \<Longrightarrow> R c1" by auto
  show ?thesis
  proof (cases r)
    case None
    obtain v c2 where t: "timed_call E op fn c1 = (v, c2)" by fastforce
    from assms(2) [OF I1(1) I1(3) [OF None] I1(2) h t] have I2: "I c2" .
    show ?thesis
    proof (cases v)
      case (Inl e)
      then show ?thesis using True w None t I2 by (simp add: doOp_def I_handleOpError)
    next
      case (Inr b)
      then show ?thesis using True w None t I2 by (simp add: doOp_def I_metrics)
    qed
  next
    case (Some e)
    then show ?thesis using True w I1 by (simp add: doOp_def)
  qed
qed

lemma I_ReadInput: "I c \<Longrightarrow> I (snd (ReadInput E s n c))"
  unfolding snd_ReadInput by (auto intro!: I_doOp dest: I_readInput)

lemma I_ReadHolding: "I c \<Longrightarrow> I (snd (ReadHolding E s n c))"
  unfolding snd_ReadHolding by (auto intro!: I_doOp dest: I_readHolding)

lemma I_WriteHolding: "I c \<Longrightarrow> I (snd (WriteHolding E a v c))"
  unfolding snd_WriteHolding by (rule I_doOp) (auto dest: I_write)

lemma I_modify_write:
  assumes "I c" and "cl_connected c"
  shows "I (snd (modify_write E a v c))"
proof -
  obtain r c1 where w: "waitGuardInterval E c = (r, c1)" by fastforce
  from I_wait [OF assms w] have I1: "I c1" "cl_connected c1" "r = None \<Longrightarrow> R c1" by auto
  obtain x c2 where t: "timed_call E ''modify_holding_write'' (me_writeSingle E (handler_of c1) a v) c1 = (x, c2)"
    by fastforce
  have "r = None \<Longrightarrow> I c2" using I_write [OF I1(1) _ I1(2) t] I1(3) by blast
  then show ?thesis
    using w t I1(1)
    by (cases r; cases x) (simp_all add: modify_write_def I_handleOpError I_metrics)
qed

lemma I_ModifyHolding:
  assumes "I c"
  shows "I (snd (ModifyHolding E a f c))"
proof (cases "cl_connected c")
  case False
  then show ?thesis using assms by (simp add: ModifyHolding_def)
next
  case True
  obtain r c1 where w: "waitGuardInterval E c = (r, c1)" by fastforce
  from I_wait [OF assms True w] have I1: "I c1" "cl_connected c1" "r = None \<Longrightarrow> R c1" by auto
  obtain x c2 where t: "timed_call E ''modify_holding_read'' (me_readHolding E (handler_of c1) a 1) c1 = (x, c2)"
    by fastforce
  have I2: "I c2 \<and> cl_connected c2" if "r = None"
    using I_readHolding [OF I1(1) _ I1(2) t] I1(3) that by blast
  show ?thesis
  proof (cases r)
    case (Some e)
    then show ?thesis using True w I1(1) by (simp add: ModifyHolding_def)
  next
    case None
    then have I2: "I c2" "cl_connected c2" using I2 by auto
    show ?thesis
    proof (cases x)
      case (Inl e)
      then show ?thesis using True w None t I2 by (simp add: ModifyHolding_def I_handleOpError)
    next
      case (Inr raw)
      then show ?thesis using True w None t I2
        by (simp add: ModifyHolding_def Let_def I_metrics I_modify_write split: sum.split option.split)
    qed
  qed
qed

lemma I_step: "I c \<Longrightarrow> I (client_step E op c)"
proof (cases op)
  case OpConnect
  then show "I c \<Longrightarrow> ?thesis" by (cases "cl_connected c") (auto simp: Connect_def dest: I_connect)
next
  case OpForceClose
  then show "I c \<Longrightarrow> ?thesis" by (cases "cl_connected c") (auto simp: ForceClose_def dest: I_close)
qed (auto intro: I_ReadInput I_ReadHolding I_WriteHolding I_ModifyHolding)

lemma I_run: "I c \<Longrightarrow> I (client_run E ops c)"
  by (induction ops arbitrary: c) (auto simp: client_run_def intro: I_step)

end

subsection \<open>Well-formedness: the gauge mirrors the flag\<close>

definition client_wf :: "'w Client \<Rightarrow> bool" where
  "client_wf c \<longleftrightarrow> (cl_connected c \<longrightarrow> cl_handler c \<noteq> None)
     \<and> modbusConnectedFlag (cl_metrics c) = cl_connected c"

lemma timed_call_frame:
  assumes "timed_call E op fn c = (r, c')"
  obtains t w f where "flag_neutral f" "c' = upd_metrics f (c\<lparr>cl_world := w, cl_lastOpAt := t\<rparr>)"
  using assms by (auto simp: timed_call_def Let_def split: prod.splits)

lemma client_wf_timed: "client_wf c \<Longrightarrow> timed_call E op fn c = (r, c') \<Longrightarrow>
    client_wf c' \<and> cl_connected c' = cl_connected c"
  by (erule timed_call_frame) (auto simp: client_wf_def flag_neutral_def)

interpretation wf: client_invariant E client_wf "\<lambda>_. True" for E
proof unfold_locales
  fix c :: "'a Client" and f
  assume "client_wf c" "flag_neutral f"
  then show "client_wf (upd_metrics f c)" "client_wf (drop_conn f c)"
    by (auto simp: client_wf_def flag_neutral_def drop_conn_def)
next
  fix c c' :: "'a Client" and r
  assume a: "client_wf c" "cl_connected c" "waitGuardInterval E c = (r, c')"
  from a(3) obtain w where "c' = c\<lparr>cl_world := w\<rparr>" by (rule wait_frame)
  with a(1,2) show "client_wf c' \<and> cl_connected c' \<and> (r = None \<longrightarrow> True)"
    by (auto simp: client_wf_def)
next
  fix c :: "'a Client"
  assume "client_wf c"
  then show "client_wf (snd (Connect E c))" "client_wf (snd (ForceClose E c))"
    by (auto simp: client_wf_def Connect_def ForceClose_def Let_def split: prod.split sum.split option.split)
qed (auto dest: client_wf_timed)

lemma client_wf_NewClient: "client_wf (NewClient cfg metrics0 w)"
  by (simp add: client_wf_def NewClient_def metrics0_def)

subsection \<open>The guard interval\<close>

text \<open>
  What the client relies on: the clock never goes back and is past the zero time, a timer
  for \<open>d\<close> that fires does so at least \<open>d\<close> later, a new handler has a fresh number, and (this
  defines the log) each bus transaction is logged with its handler and the time it starts.
\<close>

definition now_law :: "'w ModbusEnv \<Rightarrow> ('w \<Rightarrow> gotime) \<Rightarrow> ('w \<Rightarrow> (nat \<times> gotime) list) \<Rightarrow> bool" where
  "now_law E clk lg \<longleftrightarrow> (\<forall>w t w'. me_now E w = (t, w') \<longrightarrow>
     t = clk w' \<and> clk w \<le> clk w' \<and> lg w' = lg w)"

definition wait_law :: "'w ModbusEnv \<Rightarrow> ('w \<Rightarrow> gotime) \<Rightarrow> ('w \<Rightarrow> (nat \<times> gotime) list) \<Rightarrow> bool" where
  "wait_law E clk lg \<longleftrightarrow> (\<forall>d w r w'. me_wait E d w = (r, w') \<longrightarrow>
     clk w \<le> clk w' \<and> lg w' = lg w \<and> (r = None \<longrightarrow> clk w + d \<le> clk w'))"

definition dial_law :: "'w ModbusEnv \<Rightarrow> ('w \<Rightarrow> gotime) \<Rightarrow> ('w \<Rightarrow> (nat \<times> gotime) list) \<Rightarrow> bool" where
  "dial_law E clk lg \<longleftrightarrow> (\<forall>cfg w r w'. me_dial E cfg w = (r, w') \<longrightarrow>
     clk w \<le> clk w' \<and> lg w' = lg w \<and> (\<forall>h. r = Inr h \<longrightarrow> h \<notin> fst ` set (lg w)))"

definition close_law :: "'w ModbusEnv \<Rightarrow> ('w \<Rightarrow> gotime) \<Rightarrow> ('w \<Rightarrow> (nat \<times> gotime) list) \<Rightarrow> bool" where
  "close_law E clk lg \<longleftrightarrow> (\<forall>h w r w'. me_close E h w = (r, w') \<longrightarrow> clk w \<le> clk w' \<and> lg w' = lg w)"

definition bus_law ::
  "(nat \<Rightarrow> u16 \<Rightarrow> u16 \<Rightarrow> 'w \<Rightarrow> (go_error + u8 list) \<times> 'w) \<Rightarrow> ('w \<Rightarrow> gotime) \<Rightarrow>
     ('w \<Rightarrow> (nat \<times> gotime) list) \<Rightarrow> bool" where
  "bus_law f clk lg \<longleftrightarrow> (\<forall>h a n w r w'. f h a n w = (r, w') \<longrightarrow>
     clk w \<le> clk w' \<and> lg w' = lg w @ [(h, clk w)])"

definition env_laws :: "'w ModbusEnv \<Rightarrow> ('w \<Rightarrow> gotime) \<Rightarrow> ('w \<Rightarrow> (nat \<times> gotime) list) \<Rightarrow> bool" where
  "env_laws E clk lg \<longleftrightarrow> now_law E clk lg \<and> wait_law E clk lg \<and> dial_law E clk lg
     \<and> close_law E clk lg \<and> bus_law (me_readInput E) clk lg \<and> bus_law (me_readHolding E) clk lg
     \<and> bus_law (me_writeSingle E) clk lg \<and> (\<forall>w. zero_time < clk w)"

text \<open>Transactions on the same connection start at least \<open>g\<close> apart.\<close>

definition spaced :: "duration \<Rightarrow> (nat \<times> gotime) list \<Rightarrow> bool" where
  "spaced g = sorted_wrt (\<lambda>(h, t) (h', t'). h = h' \<longrightarrow> t + g \<le> t')"

abbreviation client_log :: "('w \<Rightarrow> (nat \<times> gotime) list) \<Rightarrow> 'w Client \<Rightarrow> (nat \<times> gotime) list" where
  "client_log lg c \<equiv> lg (cl_world c)"

definition guard_inv ::
  "'w ModbusEnv \<Rightarrow> ('w \<Rightarrow> gotime) \<Rightarrow> ('w \<Rightarrow> (nat \<times> gotime) list) \<Rightarrow> duration \<Rightarrow> 'w Client \<Rightarrow> bool" where
  "guard_inv E clk lg g c \<longleftrightarrow> env_laws E clk lg \<and> g \<le> int64_max \<and> mc_GuardInterval (cl_cfg c) = g
     \<and> (cl_connected c \<longrightarrow> cl_handler c \<noteq> None)
     \<and> spaced g (client_log lg c) \<and> cl_lastOpAt c \<le> clk (cl_world c)
     \<and> (\<forall>h t. (h, t) \<in> set (client_log lg c) \<longrightarrow> cl_handler c = Some h \<longrightarrow>
           cl_lastOpAt c \<noteq> zero_time \<and> t \<le> cl_lastOpAt c)"

definition guard_ready ::
  "('w \<Rightarrow> gotime) \<Rightarrow> ('w \<Rightarrow> (nat \<times> gotime) list) \<Rightarrow> 'w Client \<Rightarrow> bool" where
  "guard_ready clk lg c \<longleftrightarrow> (\<forall>h t. (h, t) \<in> set (client_log lg c) \<longrightarrow> cl_handler c = Some h \<longrightarrow>
     t + mc_GuardInterval (cl_cfg c) \<le> clk (cl_world c))"

lemma guard_wait:
  assumes "guard_inv E clk lg g c" and "waitGuardInterval E c = (r, c')"
  shows "clk (cl_world c) \<le> clk (cl_world c') \<and> client_log lg c' = client_log lg c
    \<and> (r = None \<longrightarrow> IsZero (cl_lastOpAt c) \<or> cl_lastOpAt c + g \<le> clk (cl_world c'))"
proof (cases "IsZero (cl_lastOpAt c) \<or> g \<le> 0")
  case True
  then show ?thesis using assms by (auto simp: waitGuardInterval_def guard_inv_def)
next
  case False
  obtain now w1 where n: "me_now E (cl_world c) = (now, w1)" by fastforce
  let ?d = "g - time_sub now (cl_lastOpAt c)"
  obtain x w2 where x: "me_wait E ?d w1 = (x, w2)" by fastforce
  have nl: "now = clk w1" "clk (cl_world c) \<le> clk w1" "lg w1 = client_log lg c"
    using assms(1) n by (auto simp: guard_inv_def env_laws_def now_law_def)
  have wl: "clk w1 \<le> clk w2" "lg w2 = lg w1" "x = None \<Longrightarrow> clk w1 + ?d \<le> clk w2"
    using assms(1) x by (auto simp: guard_inv_def env_laws_def wait_law_def)
  have g: "g \<le> int64_max" "mc_GuardInterval (cl_cfg c) = g" "cl_lastOpAt c \<le> now"
    using assms(1) nl by (auto simp: guard_inv_def)
  show ?thesis
  proof (cases "g \<le> time_sub now (cl_lastOpAt c)")
    case True
    then have "c' = c\<lparr>cl_world := w1\<rparr>" and "cl_lastOpAt c + g \<le> clk w1"
      using assms(2) False g n nl by (auto simp: waitGuardInterval_def Let_def time_sub_def int64_min_def)
    with nl show ?thesis by simp
  next
    case less: False
    then have "time_sub now (cl_lastOpAt c) = now - cl_lastOpAt c"
      using g by (auto simp: time_sub_def int64_min_def)
    with less have "c' = c\<lparr>cl_world := w2\<rparr>" "r = x"
      "r = None \<Longrightarrow> cl_lastOpAt c + g \<le> clk w2"
      using assms(2) False g n x nl wl by (auto simp: waitGuardInterval_def Let_def)
    with nl wl show ?thesis by auto
  qed
qed

lemma guard_inv_wait:
  assumes "guard_inv E clk lg g c" and "cl_connected c" and "waitGuardInterval E c = (r, c')"
  shows "guard_inv E clk lg g c' \<and> cl_connected c' \<and> (r = None \<longrightarrow> guard_ready clk lg c')"
proof -
  from assms(3) obtain w where c': "c' = c\<lparr>cl_world := w\<rparr>" by (rule wait_frame)
  have G: "mc_GuardInterval (cl_cfg c) = g"
    and E: "(h, t) \<in> set (client_log lg c) \<Longrightarrow> cl_handler c = Some h \<Longrightarrow>
        cl_lastOpAt c \<noteq> zero_time \<and> t \<le> cl_lastOpAt c" for h t
    using assms(1) by (auto simp: guard_inv_def)
  note gw = guard_wait [OF assms(1,3)]
  have "guard_inv E clk lg g c'"
    using assms(1) gw by (auto simp: guard_inv_def c')
  moreover have "guard_ready clk lg c'" if "r = None"
    unfolding guard_ready_def
  proof (intro allI impI)
    fix h t
    assume "(h, t) \<in> set (client_log lg c')" "cl_handler c' = Some h"
    then have "cl_lastOpAt c \<noteq> zero_time \<and> t \<le> cl_lastOpAt c" using E gw by (auto simp: c')
    then show "t + mc_GuardInterval (cl_cfg c') \<le> clk (cl_world c')"
      using gw that G by (auto simp: IsZero_def c')
  qed
  ultimately show ?thesis using assms(2) by (simp add: c')
qed

lemma spaced_snoc:
  "spaced g (xs @ [(h, t)]) \<longleftrightarrow> spaced g xs \<and> (\<forall>t'. (h, t') \<in> set xs \<longrightarrow> t' + g \<le> t)"
  by (auto simp: spaced_def sorted_wrt_append)

lemma guard_timed:
  assumes I: "guard_inv E clk lg g c" and R: "guard_ready clk lg c" and C: "cl_connected c"
    and f: "bus_law f clk lg" and t: "timed_call E op (f (handler_of c) a n) c = (r, c')"
  shows "guard_inv E clk lg g c' \<and> cl_connected c'"
proof -
  from I C obtain h where h: "cl_handler c = Some h" "handler_of c = h"
    by (auto simp: guard_inv_def handler_of_def)
  obtain s w1 where n1: "me_now E (cl_world c) = (s, w1)" by fastforce
  obtain v w2 where n2: "f h a n w1 = (v, w2)" by fastforce
  obtain u w3 where n3: "me_now E w2 = (u, w3)" by fastforce
  have laws: "now_law E clk lg" and pos: "zero_time < clk w3" using I by (auto simp: guard_inv_def env_laws_def)
  have l: "clk (cl_world c) \<le> clk w1" "lg w1 = client_log lg c"
      "u = clk w3" "clk w2 \<le> clk w3" "lg w3 = lg w2"
    using laws n1 n3 by (auto simp: now_law_def)
  have b: "clk w1 \<le> clk w2" "lg w2 = lg w1 @ [(h, clk w1)]"
    using f n2 unfolding bus_law_def by blast+
  note l = l b
  have c': "cl_world c' = w3" "cl_lastOpAt c' = u" "cl_handler c' = Some h"
      "cl_connected c'" "cl_cfg c' = cl_cfg c"
    using t C by (auto simp: timed_call_def Let_def h n1 n2 n3)
  have g: "mc_GuardInterval (cl_cfg c) = g" using I by (simp add: guard_inv_def)
  have "spaced g (lg w3)"
    using I R l h g by (fastforce simp: spaced_snoc guard_inv_def guard_ready_def)
  moreover have "t' \<le> u" if "(h, t') \<in> set (lg w3)" for t'
    using that l I h by (fastforce simp: guard_inv_def)
  ultimately show ?thesis
    using I pos l by (auto simp: guard_inv_def c')
qed

lemma guard_connect:
  assumes "guard_inv E clk lg g c" and "\<not> cl_connected c"
  shows "guard_inv E clk lg g (snd (Connect E c))"
proof -
  obtain r w where d: "me_dial E (cl_cfg c) (cl_world c) = (r, w)" by fastforce
  have l: "clk (cl_world c) \<le> clk w" "lg w = client_log lg c" "\<And>h. r = Inr h \<Longrightarrow> h \<notin> fst ` set (lg w)"
    using assms(1) d by (auto simp: guard_inv_def env_laws_def dial_law_def)
  have z: "zero_time < clk w" using assms(1) by (auto simp: guard_inv_def env_laws_def)
  show ?thesis
  proof (cases r)
    case (Inl e)
    then show ?thesis using assms l d by (auto simp: Connect_def guard_inv_def)
  next
    case (Inr h)
    then have "h \<notin> fst ` set (lg w)" by (rule l(3))
    then have "\<And>t. (h, t) \<notin> set (client_log lg c)" using l(2) by (auto simp: image_iff)
    then show ?thesis using assms l z d Inr by (auto simp: Connect_def guard_inv_def)
  qed
qed

lemma guard_close:
  assumes "guard_inv E clk lg g c"
  shows "guard_inv E clk lg g (snd (ForceClose E c))"
proof -
  have "\<forall>h w. clk w \<le> clk (snd (me_close E h w)) \<and> lg (snd (me_close E h w)) = lg w"
    using assms unfolding guard_inv_def env_laws_def close_law_def by (metis prod.collapse)
  then have cl: "clk w \<le> clk (snd (me_close E h w))" "lg (snd (me_close E h w)) = lg w" for h w
    by auto
  show ?thesis
  proof (cases "cl_connected c")
    case False
    then show ?thesis using assms by (simp add: ForceClose_def)
  next
    case True
    then obtain h where h: "cl_handler c = Some h" using assms by (auto simp: guard_inv_def)
    have "cl_lastOpAt c \<le> clk (snd (me_close E h (cl_world c)))"
      using assms cl(1) [of "cl_world c" h] by (simp add: guard_inv_def)
    then show ?thesis
      using assms True h cl(2) by (simp add: ForceClose_def guard_inv_def)
  qed
qed

interpretation guard: client_invariant E "guard_inv E clk lg g" "guard_ready clk lg" for E clk lg g
proof unfold_locales
  fix c :: "'a Client" and f
  assume "guard_inv E clk lg g c"
  then show "guard_inv E clk lg g (upd_metrics f c)" "guard_inv E clk lg g (drop_conn f c)"
    by (simp_all add: guard_inv_def drop_conn_def)
next
  fix c c' :: "'a Client" and op a n ri
  assume a: "guard_inv E clk lg g c" "guard_ready clk lg c" "cl_connected c"
  then have b: "bus_law (me_readInput E) clk lg" "bus_law (me_readHolding E) clk lg"
      "bus_law (me_writeSingle E) clk lg"
    by (simp_all add: guard_inv_def env_laws_def)
  show "timed_call E op (me_readInput E (handler_of c) a n) c = (ri, c') \<Longrightarrow>
      guard_inv E clk lg g c' \<and> cl_connected c'"
    by (rule guard_timed [OF a b(1)])
  show "timed_call E op (me_readHolding E (handler_of c) a n) c = (ri, c') \<Longrightarrow>
      guard_inv E clk lg g c' \<and> cl_connected c'"
    by (rule guard_timed [OF a b(2)])
  show "timed_call E op (me_writeSingle E (handler_of c) a n) c = (ri, c') \<Longrightarrow>
      guard_inv E clk lg g c' \<and> cl_connected c'"
    by (rule guard_timed [OF a b(3)])
qed (blast dest: guard_inv_wait intro: guard_connect guard_close)+

lemma guard_inv_NewClient:
  assumes "env_laws E clk lg" and "mc_GuardInterval cfg \<le> int64_max" and "lg w = []"
  shows "guard_inv E clk lg (mc_GuardInterval cfg) (NewClient cfg m w)"
proof -
  have "zero_time < clk w" using assms(1) by (simp add: env_laws_def)
  then show ?thesis using assms by (simp add: guard_inv_def NewClient_def spaced_def)
qed

lemma guard_interval_run:
  assumes "env_laws E clk lg" and "mc_GuardInterval cfg \<le> int64_max" and "lg w = []"
  shows "spaced (mc_GuardInterval cfg) (client_log lg (client_run E ops (NewClient cfg m w)))"
  using guard.I_run [OF guard_inv_NewClient [OF assms]] by (simp add: guard_inv_def)

end
