(* ===== verification/Dispatcher.thy ===== *)
theory Dispatcher
  imports ModbusClientLaws
begin

text \<open>
  The port \<^verbatim>\<open>application/port.ModbusClient\<close> as a record of operations, its implementation by
  the client, and \<^verbatim>\<open>application/service/command_dispatcher.go\<close>: a wrapper that counts
  consecutive failures and signals the supervisor. The signal is a channel of capacity one,
  kept here as the flag \<open>ds_pending\<close>.

  The two halves of a dispatcher call, the client operation and \<open>recordOutcome\<close>, are two
  atomic steps in the source; what they do to the counter depends only on the order of the
  \<open>recordOutcome\<close> calls, so the counting lemmas are about a sequence of outcomes.
\<close>

subsection \<open>The port\<close>

record 's ModbusPort =
  mp_ReadInput :: "u16 \<Rightarrow> u16 \<Rightarrow> 's \<Rightarrow> (go_error + u16 list) \<times> 's"
  mp_ReadHolding :: "u16 \<Rightarrow> u16 \<Rightarrow> 's \<Rightarrow> (go_error + u16 list) \<times> 's"
  mp_WriteHolding :: "u16 \<Rightarrow> u16 \<Rightarrow> 's \<Rightarrow> go_error option \<times> 's"
  mp_ModifyHolding :: "u16 \<Rightarrow> (u16 \<Rightarrow> u16 option) \<Rightarrow> 's \<Rightarrow> go_error option \<times> 's"
  mp_Connected :: "'s \<Rightarrow> bool"

definition client_port :: "'w ModbusEnv \<Rightarrow> 'w Client ModbusPort" where
  "client_port E = \<lparr>mp_ReadInput = ReadInput E, mp_ReadHolding = ReadHolding E,
     mp_WriteHolding = WriteHolding E, mp_ModifyHolding = ModifyHolding E,
     mp_Connected = Connected\<rparr>"

subsection \<open>The dispatcher\<close>

record 's Dispatcher =
  ds_client :: 's
  ds_threshold :: int
  ds_consecutiveErrs :: int
  ds_pending :: bool  \<comment> \<open>the supervisor's trigger channel holds a signal\<close>

text \<open>\<open>None\<close> is the panic of the constructor.\<close>

definition NewCommandDispatcher :: "'s \<Rightarrow> int \<Rightarrow> 's Dispatcher option" where
  "NewCommandDispatcher client threshold =
     (if threshold \<le> 0 then None
      else Some \<lparr>ds_client = client, ds_threshold = threshold, ds_consecutiveErrs = 0,
                 ds_pending = False\<rparr>)"

text \<open>\<open>ConnectionSupervisor.Trigger\<close>: a send that is dropped when the channel is full.\<close>

definition Trigger :: "'s Dispatcher \<Rightarrow> 's Dispatcher" where
  "Trigger d = (if \<not> ds_pending d then d\<lparr>ds_pending := True\<rparr> else d)"

definition recordOutcome :: "go_error option \<Rightarrow> 's Dispatcher \<Rightarrow> 's Dispatcher" where
  "recordOutcome err d =
     (case err of
        None \<Rightarrow> d\<lparr>ds_consecutiveErrs := 0\<rparr>
      | Some _ \<Rightarrow>
          let current = ds_consecutiveErrs d + 1;
              d1 = d\<lparr>ds_consecutiveErrs := current\<rparr>
          in if ds_threshold d \<le> current then Trigger d1 else d1)"

definition ds_ReadInput ::
  "'s ModbusPort \<Rightarrow> u16 \<Rightarrow> u16 \<Rightarrow> 's Dispatcher \<Rightarrow> (go_error + u16 list) \<times> 's Dispatcher" where
  "ds_ReadInput P start count d =
     (let (r, c) = mp_ReadInput P start count (ds_client d)
      in (r, recordOutcome (err_of r) (d\<lparr>ds_client := c\<rparr>)))"

definition ds_ReadHolding ::
  "'s ModbusPort \<Rightarrow> u16 \<Rightarrow> u16 \<Rightarrow> 's Dispatcher \<Rightarrow> (go_error + u16 list) \<times> 's Dispatcher" where
  "ds_ReadHolding P start count d =
     (let (r, c) = mp_ReadHolding P start count (ds_client d)
      in (r, recordOutcome (err_of r) (d\<lparr>ds_client := c\<rparr>)))"

definition ds_WriteHolding ::
  "'s ModbusPort \<Rightarrow> u16 \<Rightarrow> u16 \<Rightarrow> 's Dispatcher \<Rightarrow> go_error option \<times> 's Dispatcher" where
  "ds_WriteHolding P addr value d =
     (let (err, c) = mp_WriteHolding P addr value (ds_client d)
      in (err, recordOutcome err (d\<lparr>ds_client := c\<rparr>)))"

definition ds_ModifyHolding ::
  "'s ModbusPort \<Rightarrow> u16 \<Rightarrow> (u16 \<Rightarrow> u16 option) \<Rightarrow> 's Dispatcher \<Rightarrow> go_error option \<times> 's Dispatcher" where
  "ds_ModifyHolding P addr modify d =
     (let (err, c) = mp_ModifyHolding P addr modify (ds_client d)
      in (err, recordOutcome err (d\<lparr>ds_client := c\<rparr>)))"

definition ds_Connected :: "'s ModbusPort \<Rightarrow> 's Dispatcher \<Rightarrow> bool" where
  "ds_Connected P d = mp_Connected P (ds_client d)"

lemmas ds_ops [op_defs] =
  ds_ReadInput_def ds_ReadHolding_def ds_WriteHolding_def ds_ModifyHolding_def

subsection \<open>Counting consecutive failures\<close>

lemma recordOutcome_sel [simp]:
  "ds_client (recordOutcome e d) = ds_client d"
  "ds_threshold (recordOutcome e d) = ds_threshold d"
  "ds_consecutiveErrs (recordOutcome e d) = (if e = None then 0 else ds_consecutiveErrs d + 1)"
  "ds_pending (recordOutcome e d) \<longleftrightarrow>
     ds_pending d \<or> e \<noteq> None \<and> ds_threshold d \<le> ds_consecutiveErrs d + 1"
  by (auto simp: recordOutcome_def Trigger_def Let_def split: option.split)

definition record_all :: "go_error option list \<Rightarrow> 's Dispatcher \<Rightarrow> 's Dispatcher" where
  "record_all outcomes d = fold recordOutcome outcomes d"

definition trailing_failures :: "go_error option list \<Rightarrow> nat" where
  "trailing_failures outcomes = length (takeWhile (\<lambda>e. e \<noteq> None) (rev outcomes))"

lemma trailing_failures_snoc [simp]:
  "trailing_failures (os @ [e]) = (if e = None then 0 else Suc (trailing_failures os))"
  by (simp add: trailing_failures_def)

lemma record_all_snoc [simp]: "record_all (os @ [e]) d = recordOutcome e (record_all os d)"
  by (simp add: record_all_def)

lemma record_all_threshold [simp]: "ds_threshold (record_all os d) = ds_threshold d"
  by (induction os rule: rev_induct) (simp_all add: record_all_def)

lemma record_all_count:
  "ds_consecutiveErrs d = 0 \<Longrightarrow>
     ds_consecutiveErrs (record_all os d) = int (trailing_failures os)"
  by (induction os rule: rev_induct) (simp_all add: record_all_def trailing_failures_def)

text \<open>A signal is sent exactly when some prefix of the outcomes ends in enough failures.\<close>

lemma record_all_pending_aux:
  assumes "ds_consecutiveErrs d = 0" and "\<not> ds_pending d" and "0 < ds_threshold d"
  shows "ds_pending (record_all os d) \<longleftrightarrow>
     (\<exists>k \<le> length os. ds_threshold d \<le> int (trailing_failures (take k os)))"
proof (induction os rule: rev_induct)
  case Nil
  then show ?case using assms by (simp add: record_all_def trailing_failures_def)
next
  case (snoc e os)
  have step: "(\<exists>k \<le> length (os @ [e]). ds_threshold d \<le> int (trailing_failures (take k (os @ [e])))) \<longleftrightarrow>
      (\<exists>k \<le> length os. ds_threshold d \<le> int (trailing_failures (take k os)))
      \<or> ds_threshold d \<le> int (trailing_failures (os @ [e]))"
    by (auto simp: le_Suc_eq simp del: trailing_failures_snoc)
  show ?case
    unfolding step using snoc.IH assms record_all_count [OF assms(1), of os] by auto
qed

text \<open>The laws every dispatcher call satisfies, whatever the client behind the port does.\<close>

lemma ds_call_threshold [simp]:
  "ds_threshold (snd (ds_ReadInput P a n d)) = ds_threshold d"
  "ds_threshold (snd (ds_ReadHolding P a n d)) = ds_threshold d"
  "ds_threshold (snd (ds_WriteHolding P a v d)) = ds_threshold d"
  "ds_threshold (snd (ds_ModifyHolding P a f d)) = ds_threshold d"
  by (simp_all add: ds_ops case_prod_unfold Let_def)

subsection \<open>Properties\<close>

text \<open>
  From a fresh dispatcher the counter is the number of failures since the last success,
  and the supervisor has been signalled exactly when the outcomes so far contain a run of
  consecutive failures as long as the threshold.
\<close>

lemma threshold_signals:
  assumes "NewCommandDispatcher c threshold = Some d"
  shows "ds_consecutiveErrs (record_all os d) = int (trailing_failures os)
    \<and> (ds_pending (record_all os d) \<longleftrightarrow>
         (\<exists>k \<le> length os. threshold \<le> int (trailing_failures (take k os))))"
proof -
  have d: "ds_consecutiveErrs d = 0" "\<not> ds_pending d" "0 < ds_threshold d" "ds_threshold d = threshold"
    using assms by (auto simp: NewCommandDispatcher_def split: if_splits)
  show ?thesis using record_all_count [OF d(1)] record_all_pending_aux [OF d(1-3)] d(4) by simp
qed

lemma threshold_signals_example:
  "\<exists>d. NewCommandDispatcher () 2 = Some d
     \<and> ds_pending (record_all [Some EOF, None, Some EOF, Some EOF, None] d)
     \<and> \<not> ds_pending (record_all [Some EOF, None, Some EOF] d)"
proof -
  let ?os = "[Some EOF, None, Some EOF, Some EOF, None]" and ?ps = "[Some EOF, None, Some EOF]"
  obtain d where d: "NewCommandDispatcher () 2 = Some d" by (simp add: NewCommandDispatcher_def)
  have "4 \<le> length ?os \<and> 2 \<le> int (trailing_failures (take 4 ?os))"
    by (simp add: trailing_failures_def)
  then have "ds_pending (record_all ?os d)"
    by (intro iffD2 [OF conjunct2 [OF threshold_signals [OF d]]] exI [of _ 4])
  moreover have "\<not> ds_pending (record_all ?ps d)"
  proof
    assume "ds_pending (record_all ?ps d)"
    then obtain k where k: "k \<le> length ?ps" "2 \<le> int (trailing_failures (take k ?ps))"
      using iffD1 [OF conjunct2 [OF threshold_signals [OF d]]] by blast
    from k(1) consider "k = 0" | "k = 1" | "k = 2" | "k = 3" by (simp add: le_Suc_eq) linarith
    then show False using k(2) by cases (simp_all add: trailing_failures_def)
  qed
  ultimately show ?thesis using d by blast
qed

end
