(* ===== verification/Device.thy ===== *)
theory Device
  imports Dispatcher
begin

text \<open>
  The controller at the other end of the Modbus connection, as the client sees it. It is not
  part of the program: \<open>device_laws\<close> states what the Modbus functions 3, 4 and 6 do to its
  registers, \<open>responsive\<close> that it answers, and the client lemmas say what the client's
  operations then do. \<open>sim_env\<close> is one such controller, with a script of faults, used to show
  that the laws (and those of the other theories) can be met.
\<close>

subsection \<open>The registers and the laws\<close>

record RegFile =
  rf_in :: "u16 \<Rightarrow> u16"
  rf_hold :: "u16 \<Rightarrow> u16"

definition regs_from :: "(u16 \<Rightarrow> u16) \<Rightarrow> u16 \<Rightarrow> u16 \<Rightarrow> u16 list" where
  "regs_from m a n = map (\<lambda>i. m (a + of_nat i)) [0..<unat n]"

definition set_hold :: "u16 \<Rightarrow> u16 \<Rightarrow> RegFile \<Rightarrow> RegFile" where
  "set_hold a v d = d\<lparr>rf_hold := (rf_hold d)(a := v)\<rparr>"

lemma set_hold_sel [simp]:
  "rf_in (set_hold a v d) = rf_in d"
  "rf_hold (set_hold a v d) b = (if b = a then v else rf_hold d b)"
  by (simp_all add: set_hold_def)

lemma set_hold_set_hold [simp]: "set_hold a v (set_hold a u d) = set_hold a v d"
  by (simp add: set_hold_def)

definition quiet :: "('w \<Rightarrow> 'a \<times> 'w) \<Rightarrow> ('w \<Rightarrow> RegFile) \<Rightarrow> bool" where
  "quiet f dev \<longleftrightarrow> (\<forall>w. dev (snd (f w)) = dev w)"

definition reads_law ::
  "(nat \<Rightarrow> u16 \<Rightarrow> u16 \<Rightarrow> 'w \<Rightarrow> (go_error + u8 list) \<times> 'w) \<Rightarrow> (RegFile \<Rightarrow> u16 \<Rightarrow> u16) \<Rightarrow> ('w \<Rightarrow> RegFile) \<Rightarrow> bool" where
  "reads_law f bank dev \<longleftrightarrow> (\<forall>h a n. quiet (f h a n) dev)
     \<and> (\<forall>h a n w bs w'. f h a n w = (Inr bs, w') \<longrightarrow> bs = Uint16ToBytes (regs_from (bank (dev w)) a n))"

definition write_law ::
  "(nat \<Rightarrow> u16 \<Rightarrow> u16 \<Rightarrow> 'w \<Rightarrow> (go_error + u8 list) \<times> 'w) \<Rightarrow> ('w \<Rightarrow> RegFile) \<Rightarrow> bool" where
  "write_law f dev \<longleftrightarrow> (\<forall>h a v w r w'. f h a v w = (r, w') \<longrightarrow>
     (dev w' = set_hold a v (dev w) \<or> (dev w' = dev w \<and> (\<exists>e. r = Inl e))))"

definition device_laws :: "'w ModbusEnv \<Rightarrow> ('w \<Rightarrow> RegFile) \<Rightarrow> bool" where
  "device_laws E dev \<longleftrightarrow> quiet (me_now E) dev \<and> (\<forall>d. quiet (me_wait E d) dev)
     \<and> (\<forall>cfg. quiet (me_dial E cfg) dev) \<and> (\<forall>h. quiet (me_close E h) dev)
     \<and> reads_law (me_readInput E) rf_in dev \<and> reads_law (me_readHolding E) rf_hold dev
     \<and> write_law (me_writeSingle E) dev"

text \<open>While \<open>up\<close> holds every transaction is answered and no wait is cancelled.\<close>

definition answers ::
  "(nat \<Rightarrow> u16 \<Rightarrow> u16 \<Rightarrow> 'w \<Rightarrow> (go_error + u8 list) \<times> 'w) \<Rightarrow> ('w \<Rightarrow> bool) \<Rightarrow> bool" where
  "answers f up \<longleftrightarrow> (\<forall>h a n w. up w \<longrightarrow> (\<exists>bs w'. f h a n w = (Inr bs, w') \<and> up w'))"

definition responsive :: "'w ModbusEnv \<Rightarrow> ('w \<Rightarrow> bool) \<Rightarrow> bool" where
  "responsive E up \<longleftrightarrow> (\<forall>w. up w \<longrightarrow> up (snd (me_now E w)))
     \<and> (\<forall>d w. up w \<longrightarrow> fst (me_wait E d w) = None \<and> up (snd (me_wait E d w)))
     \<and> answers (me_readInput E) up \<and> answers (me_readHolding E) up \<and> answers (me_writeSingle E) up"

abbreviation client_dev :: "('w \<Rightarrow> RegFile) \<Rightarrow> 'w Client \<Rightarrow> RegFile" where
  "client_dev dev c \<equiv> dev (cl_world c)"

subsection \<open>The client against the registers\<close>

lemma device_lawsD:
  assumes "device_laws E dev"
  shows "dev (snd (me_now E w)) = dev w" "dev (snd (me_wait E d w)) = dev w"
    "dev (snd (me_dial E cfg w)) = dev w" "dev (snd (me_close E h w)) = dev w"
    "reads_law (me_readInput E) rf_in dev" "reads_law (me_readHolding E) rf_hold dev"
    "write_law (me_writeSingle E) dev"
  using assms by (simp_all add: device_laws_def quiet_def)

lemma wait_dev:
  assumes "device_laws E dev" and "waitGuardInterval E c = (r, c')"
  shows "client_dev dev c' = client_dev dev c \<and> cl_connected c' = cl_connected c
    \<and> handler_of c' = handler_of c"
  using assms(2) device_lawsD(1,2) [OF assms(1)]
  by (auto simp: waitGuardInterval_def Let_def case_prod_unfold handler_of_def split: if_splits)

lemma timed_frame:
  assumes "device_laws E dev" and "timed_call E op fn c = (r, c')"
  obtains w w' where "fn w = (r, w')" "dev w = client_dev dev c" "client_dev dev c' = dev w'"
    "cl_connected c' = cl_connected c" "handler_of c' = handler_of c"
proof
  let ?w = "snd (me_now E (cl_world c))"
  show "fn ?w = (r, snd (fn ?w))" using assms(2) by (auto simp: timed_call_def Let_def case_prod_unfold)
  show "dev ?w = client_dev dev c" by (rule device_lawsD(1) [OF assms(1)])
  show "client_dev dev c' = dev (snd (fn ?w))" "cl_connected c' = cl_connected c"
      "handler_of c' = handler_of c"
    using assms(2) device_lawsD(1) [OF assms(1)]
    by (auto simp: timed_call_def Let_def case_prod_unfold handler_of_def)
qed

lemma handleOpError_world [simp]: "cl_world (handleOpError op err c) = cl_world c"
  by (simp add: handleOpError_def Let_def)

lemma doOp_frame:
  assumes L: "device_laws E dev" and d: "doOp E op fn c = (r, c')"
  shows "(client_dev dev c' = client_dev dev c \<and> (\<exists>e. r = Inl e))
    \<or> (\<exists>w w' x. cl_connected c \<and> fn w = (x, w') \<and> dev w = client_dev dev c \<and> client_dev dev c' = dev w'
         \<and> (\<forall>v. r = Inr v \<longrightarrow> x = Inr v) \<and> (\<forall>v. x = Inr v \<longrightarrow> r = Inr v))"
proof (cases "cl_connected c")
  case False
  then show ?thesis using d by (auto simp: doOp_def)
next
  case True
  obtain q c1 where w: "waitGuardInterval E c = (q, c1)" by fastforce
  note wd = wait_dev [OF L w]
  show ?thesis
  proof (cases q)
    case (Some e)
    then show ?thesis using d True w wd by (auto simp: doOp_def)
  next
    case None
    obtain x c2 where t: "timed_call E op fn c1 = (x, c2)" by fastforce
    obtain u u' where f: "fn u = (x, u')" "dev u = client_dev dev c1" "client_dev dev c2 = dev u'"
      by (rule timed_frame [OF L t])
    have "client_dev dev c' = dev u' \<and> (\<forall>v. r = Inr v \<longleftrightarrow> x = Inr v)"
      using d True w None t f(3) by (cases x) (auto simp: doOp_def)
    then have "cl_connected c \<and> fn u = (x, u') \<and> dev u = client_dev dev c \<and> client_dev dev c' = dev u'
        \<and> (\<forall>v. r = Inr v \<longrightarrow> x = Inr v) \<and> (\<forall>v. x = Inr v \<longrightarrow> r = Inr v)"
      using f(1,2) wd True by simp
    then show ?thesis by blast
  qed
qed

lemma reads_lawD:
  assumes "reads_law f bank dev" and "f h a n w = (r, w')"
  shows "dev w' = dev w" and "r = Inr bs \<Longrightarrow> bs = Uint16ToBytes (regs_from (bank (dev w)) a n)"
proof -
  have "dev (snd (f h a n w)) = dev w" using assms(1) by (simp add: reads_law_def quiet_def)
  then show "dev w' = dev w" by (simp add: assms(2))
  show "r = Inr bs \<Longrightarrow> bs = Uint16ToBytes (regs_from (bank (dev w)) a n)"
    using assms unfolding reads_law_def by blast
qed

lemma doOp_read_dev:
  assumes L: "device_laws E dev" and R: "reads_law f bank dev" and d: "doOp E op (f h a n) c = (r, c')"
  shows "client_dev dev c' = client_dev dev c
    \<and> (\<forall>bs. r = Inr bs \<longrightarrow> bs = Uint16ToBytes (regs_from (bank (client_dev dev c)) a n))"
  using doOp_frame [OF L d]
proof
  assume "client_dev dev c' = client_dev dev c \<and> (\<exists>e. r = Inl e)"
  then show ?thesis by auto
next
  assume "\<exists>w w' x. cl_connected c \<and> f h a n w = (x, w') \<and> dev w = client_dev dev c
    \<and> client_dev dev c' = dev w' \<and> (\<forall>v. r = Inr v \<longrightarrow> x = Inr v) \<and> (\<forall>v. x = Inr v \<longrightarrow> r = Inr v)"
  then obtain w w' x where w: "f h a n w = (x, w')" "dev w = client_dev dev c"
      "client_dev dev c' = dev w'" "\<forall>v. r = Inr v \<longrightarrow> x = Inr v"
    by blast
  with reads_lawD(1) [OF R w(1)] reads_lawD(2) [OF R w(1)] show ?thesis by auto
qed

lemma length_regs_from [simp]: "length (regs_from m a n) = unat n"
  by (simp add: regs_from_def)

lemma ReadInput_dev:
  assumes L: "device_laws E dev" and d: "ReadInput E a n c = (r, c')"
  shows "client_dev dev c' = client_dev dev c
    \<and> (\<forall>vs. r = Inr vs \<longrightarrow> vs = regs_from (rf_in (client_dev dev c)) a n)"
proof -
  obtain x c1 where o: "doOp E ''read_input'' (me_readInput E (handler_of c) a n) c = (x, c1)"
    by fastforce
  from doOp_read_dev [OF L device_lawsD(5) [OF L] o] d o show ?thesis
    by (auto simp: ReadInput_def BytesToUint16_roundtrip split: if_splits sum.splits)
qed

lemma ReadHolding_dev:
  assumes L: "device_laws E dev" and d: "ReadHolding E a n c = (r, c')"
  shows "client_dev dev c' = client_dev dev c
    \<and> (\<forall>vs. r = Inr vs \<longrightarrow> vs = regs_from (rf_hold (client_dev dev c)) a n)"
proof -
  obtain x c1 where o: "doOp E ''read_holding'' (me_readHolding E (handler_of c) a n) c = (x, c1)"
    by fastforce
  from doOp_read_dev [OF L device_lawsD(6) [OF L] o] d o show ?thesis
    by (auto simp: ReadHolding_def BytesToUint16_roundtrip split: if_splits sum.splits)
qed

text \<open>A write that is acknowledged has been made; one that is not may or may not have been.\<close>

definition wrote :: "u16 \<Rightarrow> u16 \<Rightarrow> bool \<Rightarrow> RegFile \<Rightarrow> RegFile \<Rightarrow> bool" where
  "wrote a v acked d d' \<longleftrightarrow> d' = set_hold a v d \<or> (\<not> acked \<and> d' = d)"

lemma write_lawD:
  "write_law f dev \<Longrightarrow> f h a v w = (r, w') \<Longrightarrow> wrote a v (err_of r = None) (dev w) (dev w')"
  unfolding write_law_def wrote_def by (cases r) (auto, blast+)

lemma WriteHolding_dev:
  assumes L: "device_laws E dev" and d: "WriteHolding E a v c = (e, c')"
  shows "wrote a v (e = None) (client_dev dev c) (client_dev dev c')"
proof -
  obtain r where o: "doOp E ''write_holding'' (me_writeSingle E (handler_of c) a v) c = (r, c')"
    and e: "e = err_of r"
    using d by (auto simp: WriteHolding_def split: prod.splits)
  from doOp_frame [OF L o] show ?thesis
  proof
    assume "client_dev dev c' = client_dev dev c \<and> (\<exists>e. r = Inl e)"
    then show ?thesis by (auto simp: wrote_def e)
  next
    assume "\<exists>w w' x. cl_connected c \<and> me_writeSingle E (handler_of c) a v w = (x, w')
      \<and> dev w = client_dev dev c \<and> client_dev dev c' = dev w'
      \<and> (\<forall>v. r = Inr v \<longrightarrow> x = Inr v) \<and> (\<forall>v. x = Inr v \<longrightarrow> r = Inr v)"
    then obtain w w' x where w: "me_writeSingle E (handler_of c) a v w = (x, w')"
      "dev w = client_dev dev c" "client_dev dev c' = dev w'" "\<forall>v. r = Inr v \<longrightarrow> x = Inr v"
      by blast
    with write_lawD [OF device_lawsD(7) [OF L] w(1)] show ?thesis
      by (auto simp: wrote_def e)
  qed
qed

lemma modify_write_dev:
  assumes L: "device_laws E dev" and d: "modify_write E a v c = (e, c')"
  shows "wrote a v (e = None) (client_dev dev c) (client_dev dev c')"
proof -
  obtain q c1 where w: "waitGuardInterval E c = (q, c1)" by fastforce
  note wd = wait_dev [OF L w]
  show ?thesis
  proof (cases q)
    case (Some x)
    then show ?thesis using d w wd by (auto simp: modify_write_def wrote_def)
  next
    case None
    obtain x c2 where t: "timed_call E ''modify_holding_write'' (me_writeSingle E (handler_of c1) a v) c1 = (x, c2)"
      by fastforce
    obtain u u' where f: "me_writeSingle E (handler_of c1) a v u = (x, u')" "dev u = client_dev dev c1"
        "client_dev dev c2 = dev u'"
      by (rule timed_frame [OF L t])
    have "client_dev dev c' = dev u' \<and> (e = None \<longleftrightarrow> err_of x = None)"
      using d w None t f(3) by (cases x) (auto simp: modify_write_def)
    then show ?thesis
      using write_lawD [OF device_lawsD(7) [OF L] f(1)] f(2) wd by (auto simp: wrote_def)
  qed
qed

lemma decode_one_single:
  "decode_one (Uint16ToBytes (regs_from m a 1)) = Inr (m a)"
  by (simp add: decode_one_def BytesToUint16_roundtrip regs_from_def)

lemma ModifyHolding_dev:
  assumes L: "device_laws E dev" and d: "ModifyHolding E a f c = (e, c')"
  shows "(e \<noteq> None \<and> client_dev dev c' = client_dev dev c)
    \<or> (\<exists>v. f (rf_hold (client_dev dev c) a) = Some v
          \<and> wrote a v (e = None) (client_dev dev c) (client_dev dev c'))"
proof (cases "cl_connected c")
  case False
  then show ?thesis using d by (auto simp: ModifyHolding_def)
next
  case True
  obtain q c1 where w: "waitGuardInterval E c = (q, c1)" by fastforce
  note wd = wait_dev [OF L w]
  show ?thesis
  proof (cases q)
    case (Some x)
    then show ?thesis using d True w wd by (auto simp: ModifyHolding_def)
  next
    case None
    obtain x c2 where t: "timed_call E ''modify_holding_read'' (me_readHolding E (handler_of c1) a 1) c1 = (x, c2)"
      by fastforce
    obtain u u' where f: "me_readHolding E (handler_of c1) a 1 u = (x, u')" "dev u = client_dev dev c1"
        "client_dev dev c2 = dev u'"
      by (rule timed_frame [OF L t])
    note rl = reads_lawD [OF device_lawsD(6) [OF L] f(1)]
    have c2: "client_dev dev c2 = client_dev dev c" using rl(1) f wd by simp
    show ?thesis
    proof (cases x)
      case (Inl err)
      then show ?thesis using d True w None t c2 by (auto simp: ModifyHolding_def)
    next
      case (Inr bs)
      have dec: "decode_one bs = Inr (rf_hold (client_dev dev c) a)"
        using rl(2) [OF Inr] f(2) wd by (simp add: decode_one_single)
      let ?c3 = "upd_metrics (counter_inc (ModbusOpsTotal ''modify_holding_read'' ''ok'')) c2"
      show ?thesis
      proof (cases "f (rf_hold (client_dev dev c) a)")
        case panicked: None
        then show ?thesis using d True w None t c2 Inr dec by (auto simp: ModifyHolding_def)
      next
        case (Some v)
        then have "modify_write E a v ?c3 = (e, c')"
          using d True w None t Inr dec by (auto simp: ModifyHolding_def)
        from modify_write_dev [OF L this] Some c2 show ?thesis by simp
      qed
    qed
  qed
qed

subsection \<open>Progress: a controller that answers\<close>

definition usable :: "('w \<Rightarrow> bool) \<Rightarrow> 'w Client \<Rightarrow> bool" where
  "usable up c \<longleftrightarrow> cl_connected c \<and> up (cl_world c)"

lemma usable_upd_metrics [simp]: "usable up (upd_metrics f c) = usable up c"
  by (simp add: usable_def)

lemma wait_usable:
  assumes "responsive E up" and "usable up c"
  obtains c' where "waitGuardInterval E c = (None, c')" "usable up c'"
proof -
  have "fst (waitGuardInterval E c) = None \<and> usable up (snd (waitGuardInterval E c))"
    using assms by (simp add: waitGuardInterval_def Let_def case_prod_unfold responsive_def usable_def)
  then show ?thesis using that by (metis prod.collapse)
qed

lemma timed_usable:
  assumes R: "responsive E up" and A: "answers f up" and U: "usable up c"
  obtains bs c' where "timed_call E op (f h a n) c = (Inr bs, c')" "usable up c'"
proof -
  let ?w = "snd (me_now E (cl_world c))"
  have "up ?w" using R U by (simp add: responsive_def usable_def)
  then obtain bs w' where f: "f h a n ?w = (Inr bs, w')" "up w'"
    using A unfolding answers_def by blast
  have "up (snd (me_now E w'))" using R f(2) by (simp add: responsive_def)
  then show ?thesis
    using that [of bs] U f by (auto simp: timed_call_def Let_def case_prod_unfold usable_def)
qed

lemma doOp_usable:
  assumes R: "responsive E up" and A: "answers f up" and U: "usable up c"
  obtains bs c' where "doOp E op (f h a n) c = (Inr bs, c')" "usable up c'"
proof -
  obtain c1 where w: "waitGuardInterval E c = (None, c1)" "usable up c1" by (rule wait_usable [OF R U])
  obtain bs c2 where t: "timed_call E op (f h a n) c1 = (Inr bs, c2)" "usable up c2"
    by (rule timed_usable [OF R A w(2)])
  show ?thesis
    by (rule that [of bs "upd_metrics (counter_inc (ModbusOpsTotal op ''ok'')) c2"])
      (use U w t in \<open>simp_all add: doOp_def usable_def\<close>)
qed

lemma responsiveD:
  "responsive E up \<Longrightarrow> answers (me_readInput E) up"
  "responsive E up \<Longrightarrow> answers (me_readHolding E) up"
  "responsive E up \<Longrightarrow> answers (me_writeSingle E) up"
  by (simp_all add: responsive_def)

lemma ReadInput_usable:
  assumes L: "device_laws E dev" and R: "responsive E up" and U: "usable up c"
    and n: "n \<noteq> 0" "n \<le> maxRegistersPerRead"
  obtains c' where "ReadInput E a n c = (Inr (regs_from (rf_in (client_dev dev c)) a n), c')" "usable up c'"
proof -
  obtain bs c' where d: "doOp E ''read_input'' (me_readInput E (handler_of c) a n) c = (Inr bs, c')"
      "usable up c'"
    by (rule doOp_usable [OF R responsiveD(1) [OF R] U])
  from doOp_read_dev [OF L device_lawsD(5) [OF L] d(1)] d n show ?thesis
    by (intro that [of c']) (auto simp: ReadInput_def BytesToUint16_roundtrip)
qed

lemma ReadHolding_usable:
  assumes L: "device_laws E dev" and R: "responsive E up" and U: "usable up c"
    and n: "n \<noteq> 0" "n \<le> maxRegistersPerRead"
  obtains c' where "ReadHolding E a n c = (Inr (regs_from (rf_hold (client_dev dev c)) a n), c')" "usable up c'"
proof -
  obtain bs c' where d: "doOp E ''read_holding'' (me_readHolding E (handler_of c) a n) c = (Inr bs, c')"
      "usable up c'"
    by (rule doOp_usable [OF R responsiveD(2) [OF R] U])
  from doOp_read_dev [OF L device_lawsD(6) [OF L] d(1)] d n show ?thesis
    by (intro that [of c']) (auto simp: ReadHolding_def BytesToUint16_roundtrip)
qed

lemma WriteHolding_usable:
  assumes R: "responsive E up" and U: "usable up c"
  obtains c' where "WriteHolding E a v c = (None, c')" "usable up c'"
proof -
  obtain bs c' where "doOp E ''write_holding'' (me_writeSingle E (handler_of c) a v) c = (Inr bs, c')"
      "usable up c'"
    by (rule doOp_usable [OF R responsiveD(3) [OF R] U])
  then show ?thesis by (intro that) (auto simp: WriteHolding_def)
qed

lemma ModifyHolding_usable:
  assumes L: "device_laws E dev" and R: "responsive E up" and U: "usable up c"
    and f: "f (rf_hold (client_dev dev c) a) = Some v"
  obtains c' where "ModifyHolding E a f c = (None, c')" "usable up c'"
proof -
  obtain c1 where w: "waitGuardInterval E c = (None, c1)" "usable up c1" by (rule wait_usable [OF R U])
  obtain bs c2 where t: "timed_call E ''modify_holding_read'' (me_readHolding E (handler_of c1) a 1) c1 = (Inr bs, c2)"
      "usable up c2"
    by (rule timed_usable [OF R responsiveD(2) [OF R] w(2)])
  obtain u u' where r: "me_readHolding E (handler_of c1) a 1 u = (Inr bs, u')" "dev u = client_dev dev c1"
    by (rule timed_frame [OF L t(1)])
  have dec: "decode_one bs = Inr (rf_hold (client_dev dev c) a)"
    using reads_lawD(2) [OF device_lawsD(6) [OF L] r(1) refl] r(2) wait_dev [OF L w(1)]
    by (simp add: decode_one_single)
  let ?c3 = "upd_metrics (counter_inc (ModbusOpsTotal ''modify_holding_read'' ''ok'')) c2"
  have "usable up ?c3" using t(2) by simp
  then obtain c4 where w2: "waitGuardInterval E ?c3 = (None, c4)" "usable up c4"
    by (rule wait_usable [OF R])
  obtain bs' c5 where t2: "timed_call E ''modify_holding_write'' (me_writeSingle E (handler_of c4) a v) c4 = (Inr bs', c5)"
      "usable up c5"
    by (rule timed_usable [OF R responsiveD(3) [OF R] w2(2)])
  show ?thesis
    by (rule that [of "upd_metrics (counter_inc (ModbusOpsTotal ''modify_holding_write'' ''ok'')) c5"])
      (use U w t dec f w2 t2 in \<open>simp_all add: ModifyHolding_def modify_write_def usable_def\<close>)
qed

subsection \<open>A controller that meets the laws\<close>

text \<open>
  One tick is a millisecond. \<open>wd_script\<close> says what the next dials and transactions do: \<open>None\<close>
  succeeds, \<open>Some e\<close> fails with \<open>e\<close>; an exhausted script succeeds.
\<close>

record World =
  wd_ticks :: nat
  wd_dev :: RegFile
  wd_script :: "go_error option list"
  wd_log :: "(nat \<times> gotime) list"

definition wd_clock :: "World \<Rightarrow> gotime" where
  "wd_clock w = (int (wd_ticks w) + 1) * Millisecond"

definition sim_now :: "World \<Rightarrow> gotime \<times> World" where
  "sim_now w = (wd_clock w, w)"

definition sim_wait :: "duration \<Rightarrow> World \<Rightarrow> go_error option \<times> World" where
  "sim_wait d w = (None, w\<lparr>wd_ticks := wd_ticks w + nat (d div Millisecond) + 1\<rparr>)"

definition sim_next :: "World \<Rightarrow> go_error option \<times> World" where
  "sim_next w =
     (case wd_script w of
        [] \<Rightarrow> (None, w)
      | x # xs \<Rightarrow> (x, w\<lparr>wd_script := xs\<rparr>))"

definition sim_dial :: "ModbusConfig \<Rightarrow> World \<Rightarrow> (go_error + nat) \<times> World" where
  "sim_dial cfg w =
     (case sim_next w of
        (Some e, w') \<Rightarrow> (Inl e, w')
      | (None, w') \<Rightarrow> (Inr (Suc (sum_list (map fst (wd_log w)))), w'))"

definition sim_bus ::
  "(World \<Rightarrow> u8 list) \<Rightarrow> (World \<Rightarrow> World) \<Rightarrow> nat \<Rightarrow> World \<Rightarrow> (go_error + u8 list) \<times> World" where
  "sim_bus reply act h w =
     (let w0 = w\<lparr>wd_ticks := wd_ticks w + 1, wd_log := wd_log w @ [(h, wd_clock w)]\<rparr> in
      case sim_next w0 of
        (Some e, w') \<Rightarrow> (Inl e, w')
      | (None, w') \<Rightarrow> (Inr (reply w), act w'))"

definition sim_env :: "World ModbusEnv" where
  "sim_env =
     \<lparr>me_now = sim_now, me_wait = sim_wait, me_dial = sim_dial, me_close = (\<lambda>h w. (None, w)),
      me_readInput = (\<lambda>h a n. sim_bus (\<lambda>w. Uint16ToBytes (regs_from (rf_in (wd_dev w)) a n)) id h),
      me_readHolding = (\<lambda>h a n. sim_bus (\<lambda>w. Uint16ToBytes (regs_from (rf_hold (wd_dev w)) a n)) id h),
      me_writeSingle = (\<lambda>h a v. sim_bus (\<lambda>w. Uint16ToBytes [v])
                                 (\<lambda>w. w\<lparr>wd_dev := set_hold a v (wd_dev w)\<rparr>) h)\<rparr>"

lemmas sim_defs = sim_env_def sim_now_def sim_wait_def sim_dial_def sim_bus_def sim_next_def

lemma fst_le_sum_list: "(h, t) \<in> set l \<Longrightarrow> h \<le> sum_list (map fst l)" for l :: "(nat \<times> gotime) list"
  by (rule member_le_sum_list) (force, simp_all)

lemma sim_wait_clock: "wd_clock w + d \<le> wd_clock (snd (sim_wait d w))"
proof -
  define q where "q = d div 1000000"
  have "d < (q + 1) * 1000000" by (simp add: q_def) 
  moreover have "(q + 1) * 1000000 \<le> (int (nat q) + 1) * 1000000" by simp
  ultimately have "d \<le> (int (nat (d div Millisecond)) + 1) * Millisecond"
    unfolding Millisecond_def q_def by linarith
  then show ?thesis by (simp add: sim_wait_def wd_clock_def algebra_simps)
qed

lemma sim_env_laws: "env_laws sim_env wd_clock wd_log"
proof -
  have ms: "0 < Millisecond" by (simp add: Millisecond_def)
  have "wait_law sim_env wd_clock wd_log"
    unfolding wait_law_def using sim_wait_clock ms
    by (auto simp: sim_env_def sim_wait_def wd_clock_def)
  moreover have "dial_law sim_env wd_clock wd_log"
    unfolding dial_law_def
    by (auto simp: sim_defs wd_clock_def dest: fst_le_sum_list split: list.splits option.splits)
  ultimately show ?thesis
    using ms
    by (simp add: env_laws_def now_law_def close_law_def bus_law_def)
      (auto simp: sim_defs wd_clock_def Let_def zero_time_def split: list.splits option.splits)
qed

lemma sim_device_laws: "device_laws sim_env wd_dev"
  by (simp add: device_laws_def quiet_def reads_law_def write_law_def)
    (auto simp: sim_defs Let_def split: list.splits option.splits)

lemma sim_responsive: "responsive sim_env (\<lambda>w. wd_script w = [])"
  by (simp add: responsive_def answers_def sim_defs Let_def)

definition sim_world :: "RegFile \<Rightarrow> go_error option list \<Rightarrow> World" where
  "sim_world d script = \<lparr>wd_ticks = 0, wd_dev = d, wd_script = script, wd_log = []\<rparr>"

definition zero_regs :: RegFile where "zero_regs = \<lparr>rf_in = (\<lambda>_. 0), rf_hold = (\<lambda>_. 0)\<rparr>"

subsection \<open>When a failure drops the connection\<close>

definition lost :: "go_error \<Rightarrow> bool" where
  "lost e \<longleftrightarrow> err_is e (MbErr ErrConnectionLost) \<or> err_is e (MbErr ErrTimeout)"

text \<open>A wait ends early only with the error of the context.\<close>

definition ctx_law :: "'w ModbusEnv \<Rightarrow> bool" where
  "ctx_law E \<longleftrightarrow> (\<forall>d w. fst (me_wait E d w) \<in> {None, Some (CtxErr Canceled), Some (CtxErr DeadlineExceeded)})"

lemma handleOpError_connected:
  "cl_connected (handleOpError op err c) \<longleftrightarrow> cl_connected c \<and> \<not> lost (wrap_err op err)"
  by (auto simp: handleOpError_def Let_def lost_def)

lemma timed_connected: "timed_call E op fn c = (r, c') \<Longrightarrow> cl_connected c' = cl_connected c"
  by (erule timed_call_frame) simp

lemma wait_connected: "waitGuardInterval E c = (r, c') \<Longrightarrow> cl_connected c' = cl_connected c"
  by (erule wait_frame) simp

lemma wait_err:
  assumes "ctx_law E" and "waitGuardInterval E c = (Some e, c')"
  shows "\<not> lost (Wrapf op [e])"
proof -
  have "e \<in> {CtxErr Canceled, CtxErr DeadlineExceeded}"
    using assms unfolding ctx_law_def
    by (simp add: waitGuardInterval_def Let_def case_prod_unfold split: if_splits) (metis option.discI option.inject)
  then show ?thesis by (auto simp: lost_def)
qed

lemma doOp_connected:
  assumes X: "ctx_law E" and C: "cl_connected c" and d: "doOp E op fn c = (r, c')"
  shows "cl_connected c' \<longleftrightarrow> \<not> (\<exists>e. r = Inl e \<and> lost e)"
proof -
  obtain q c1 where w: "waitGuardInterval E c = (q, c1)" by fastforce
  have c1: "cl_connected c1" using wait_connected [OF w] C by simp
  show ?thesis
  proof (cases q)
    case (Some e)
    then show ?thesis using d C w c1 wait_err [OF X w [unfolded Some]] by (auto simp: doOp_def)
  next
    case None
    obtain x c2 where t: "timed_call E op fn c1 = (x, c2)" by fastforce
    have "cl_connected c2" using timed_connected [OF t] c1 by simp
    then show ?thesis using d C w t None
      by (cases x) (auto simp: doOp_def handleOpError_connected)
  qed
qed

lemma not_lost_simps [simp]:
  "\<not> lost (Wrapf s [MbErr ErrIllegalDataValue])" "\<not> lost (ErrText s)"
  by (simp_all add: lost_def)

lemma decode_not_lost: "BytesToUint16 b = Inl e \<Longrightarrow> \<not> lost (Wrapf s [e])"
  by (auto simp: BytesToUint16_def lost_def split: if_splits)

lemma decode_one_not_lost: "decode_one b = Inl e \<Longrightarrow> \<not> lost e"
  by (auto simp: decode_one_def dest: decode_not_lost split: sum.splits list.splits)

lemma ModifyHolding_connected:
  assumes X: "ctx_law E" and C: "cl_connected c" and d: "ModifyHolding E a f c = (r, c')"
  shows "cl_connected c' \<longleftrightarrow> \<not> (\<exists>e. r = Some e \<and> lost e)"
proof -
  obtain q c1 where w: "waitGuardInterval E c = (q, c1)" by fastforce
  have c1: "cl_connected c1" using wait_connected [OF w] C by simp
  show ?thesis
  proof (cases q)
    case (Some e)
    then show ?thesis using d C w c1 wait_err [OF X w [unfolded Some]] by (auto simp: ModifyHolding_def)
  next
    case None
    obtain x c2 where t: "timed_call E ''modify_holding_read'' (me_readHolding E (handler_of c1) a 1) c1 = (x, c2)"
      by fastforce
    have c2: "cl_connected c2" using timed_connected [OF t] c1 by simp
    show ?thesis
    proof (cases x)
      case (Inl e)
      then show ?thesis using d C w t None c2 by (auto simp: ModifyHolding_def handleOpError_connected)
    next
      case (Inr raw)
      show ?thesis
      proof (cases "decode_one raw")
        case e: (Inl e)
        then show ?thesis using d C w t None c2 Inr decode_one_not_lost [OF e]
          by (auto simp: ModifyHolding_def)
      next
        case cur: (Inr cur)
        let ?c3 = "upd_metrics (counter_inc (ModbusOpsTotal ''modify_holding_read'' ''ok'')) c2"
        show ?thesis
        proof (cases "f cur")
          case panicked: None
          then show ?thesis using d C w t None c2 Inr cur by (auto simp: ModifyHolding_def)
        next
          case (Some v)
          obtain q2 c4 where w2: "waitGuardInterval E ?c3 = (q2, c4)" by fastforce
          obtain y c5 where t2: "timed_call E ''modify_holding_write'' (me_writeSingle E (handler_of c4) a v) c4 = (y, c5)"
            by fastforce
          have c4: "cl_connected c4" using wait_connected [OF w2] c2 by simp
          have c5: "cl_connected c5" using timed_connected [OF t2] c4 by simp
          have m: "modify_write E a v ?c3 = (r, c')"
            using d C w t None Inr cur Some by (auto simp: ModifyHolding_def)
          have "q2 = Some e \<Longrightarrow> \<not> lost (Wrapf ''modify_holding'' [e])" for e
            using wait_err [OF X] w2 by blast
          then show ?thesis
            using m c4 c5 w2 t2
            by (cases q2; cases y) (auto simp: modify_write_def handleOpError_connected)
        qed
      qed
    qed
  qed
qed

subsection \<open>Properties\<close>

text \<open>
  C10. Whatever sequence of operations is run on a client, and whatever the network does,
  two transactions on the same connection start at least the guard interval apart.
\<close>

theorem guard_interval_kept:
  assumes "env_laws E clk lg" and "mc_GuardInterval cfg \<le> int64_max" and "lg w = []"
  shows "spaced (mc_GuardInterval cfg) (client_log lg (client_run E ops (NewClient cfg m w)))"
  by (rule guard_interval_run [OF assms])

text \<open>
  The connection gauge of the metrics always shows the state of the connection, and a
  connected client has a handler.
\<close>

lemma gauge_mirrors_connection:
  "modbusConnectedFlag (cl_metrics (client_run E ops (NewClient cfg metrics0 w)))
     = Connected (client_run E ops (NewClient cfg metrics0 w))
   \<and> Connected (client_run E ops (NewClient cfg metrics0 w))
     = (Connected (client_run E ops (NewClient cfg metrics0 w))
        \<and> cl_handler (client_run E ops (NewClient cfg metrics0 w)) \<noteq> None)"
  using wf.I_run [OF client_wf_NewClient, of E ops cfg w] by (auto simp: client_wf_def Connected_def)

text \<open>
  C27. An operation on a connected client leaves it connected exactly when it does not report a
  lost connection or a timeout: protocol errors, refused arguments, decoding failures, a
  panicking modifier and a cancelled wait keep the connection.
\<close>

theorem connection_dropped_iff:
  assumes "ctx_law E" and "cl_connected c"
  shows "(\<forall>r c'. ReadInput E a n c = (r, c') \<longrightarrow> (Connected c' \<longleftrightarrow> \<not> (\<exists>e. r = Inl e \<and> lost e)))
    \<and> (\<forall>r c'. ReadHolding E a n c = (r, c') \<longrightarrow> (Connected c' \<longleftrightarrow> \<not> (\<exists>e. r = Inl e \<and> lost e)))
    \<and> (\<forall>r c'. WriteHolding E a v c = (r, c') \<longrightarrow> (Connected c' \<longleftrightarrow> \<not> (\<exists>e. r = Some e \<and> lost e)))
    \<and> (\<forall>r c'. ModifyHolding E a f c = (r, c') \<longrightarrow> (Connected c' \<longleftrightarrow> \<not> (\<exists>e. r = Some e \<and> lost e)))"
proof (intro conjI allI impI)
  fix r c'
  assume d: "ReadInput E a n c = (r, c')"
  obtain x c1 where o: "doOp E ''read_input'' (me_readInput E (handler_of c) a n) c = (x, c1)" by fastforce
  show "Connected c' \<longleftrightarrow> \<not> (\<exists>e. r = Inl e \<and> lost e)"
    using d o doOp_connected [OF assms o] assms(2)
    by (auto simp: ReadInput_def Connected_def dest: decode_not_lost split: if_splits sum.splits)
next
  fix r c'
  assume d: "ReadHolding E a n c = (r, c')"
  obtain x c1 where o: "doOp E ''read_holding'' (me_readHolding E (handler_of c) a n) c = (x, c1)" by fastforce
  show "Connected c' \<longleftrightarrow> \<not> (\<exists>e. r = Inl e \<and> lost e)"
    using d o doOp_connected [OF assms o] assms(2)
    by (auto simp: ReadHolding_def Connected_def dest: decode_not_lost split: if_splits sum.splits)
next
  fix r c'
  assume d: "WriteHolding E a v c = (r, c')"
  obtain x c1 where o: "doOp E ''write_holding'' (me_writeSingle E (handler_of c) a v) c = (x, c1)" by fastforce
  show "Connected c' \<longleftrightarrow> \<not> (\<exists>e. r = Some e \<and> lost e)"
    using d o doOp_connected [OF assms o] by (cases x) (auto simp: WriteHolding_def Connected_def)
next
  fix r c'
  assume "ModifyHolding E a f c = (r, c')"
  then show "Connected c' \<longleftrightarrow> \<not> (\<exists>e. r = Some e \<and> lost e)"
    unfolding Connected_def by (rule ModifyHolding_connected [OF assms])
qed



text \<open>
  On a client that is not connected every operation is refused, with the not-connected error
  (or the error for a bad count), and touches neither the network nor the client.
\<close>

lemma disconnected_refused:
  assumes "\<not> Connected c"
  shows "WriteHolding E a v c = (Some (Wrapf ''write_holding'' [DtoErr ErrModbusNotConnected]), c)
    \<and> ModifyHolding E a f c = (Some (Wrapf ''modify_holding'' [DtoErr ErrModbusNotConnected]), c)
    \<and> ReadInput E a n c = (Inl (Wrapf ''read_input''
        [if n = 0 \<or> maxRegistersPerRead < n then MbErr ErrIllegalDataValue else DtoErr ErrModbusNotConnected]), c)
    \<and> ReadHolding E a n c = (Inl (Wrapf ''read_holding''
        [if n = 0 \<or> maxRegistersPerRead < n then MbErr ErrIllegalDataValue else DtoErr ErrModbusNotConnected]), c)"
  using assms
  by (simp add: Connected_def WriteHolding_def ModifyHolding_def ReadInput_def ReadHolding_def doOp_def)


subsection \<open>Witnesses\<close>

definition sim_cfg :: ModbusConfig where
  "sim_cfg = \<lparr>mc_Host = ''localhost'', mc_Port = 502, mc_SlaveID = 1, mc_ConnectTimeout = 5 * Second,
     mc_ReadTimeout = 3 * Second, mc_WriteTimeout = 3 * Second, mc_GuardInterval = 150 * Millisecond\<rparr>"

text \<open>A connected client whose next transactions follow the script.\<close>

definition sim_client :: "RegFile \<Rightarrow> go_error option list \<Rightarrow> World Client" where
  "sim_client regs script =
     snd (Connect sim_env (NewClient sim_cfg metrics0 (sim_world regs (None # script))))"

lemma sim_client_connected [simp]: "cl_connected (sim_client regs script)"
  by (simp add: sim_client_def Connect_def NewClient_def sim_defs sim_world_def)

lemma sim_ctx_law: "ctx_law sim_env"
  by (simp add: ctx_law_def sim_defs)

abbreviation reset_error :: go_error where
  "reset_error \<equiv> NetErr False True []"

lemma sim_write_lost:
  "\<exists>e c'. WriteHolding sim_env 2 1 (sim_client zero_regs [Some reset_error]) = (Some e, c') \<and> lost e"
  by (simp add: WriteHolding_def doOp_def sim_client_def Connect_def NewClient_def sim_defs sim_world_def
      waitGuardInterval_def IsZero_def timed_call_def Let_def wrap_err_def lost_def)

theorem guard_interval_kept_witness:
  "spaced (150 * Millisecond) (client_log wd_log (client_run sim_env
     [OpConnect, OpReadInput 2 17, OpWriteHolding 31 220, OpModifyHolding 86 Some]
     (NewClient sim_cfg metrics0 (sim_world zero_regs []))))"
  using guard_interval_kept [OF sim_env_laws, of sim_cfg "sim_world zero_regs []"]
  by (simp add: sim_cfg_def sim_world_def int64_max_def Millisecond_def)

theorem connection_dropped_iff_witness:
  "\<exists>e c'. WriteHolding sim_env 2 1 (sim_client zero_regs [Some reset_error]) = (Some e, c') \<and> \<not> Connected c'"
  using connection_dropped_iff [OF sim_ctx_law sim_client_connected] sim_write_lost by blast


lemma disconnected_refused_example:
  "WriteHolding sim_env 2 1 (NewClient sim_cfg metrics0 (sim_world zero_regs []))
     = (Some (Wrapf ''write_holding'' [DtoErr ErrModbusNotConnected]), NewClient sim_cfg metrics0 (sim_world zero_regs []))"
  using disconnected_refused [of "NewClient sim_cfg metrics0 (sim_world zero_regs [])" sim_env 2 1]
  by (simp add: Connected_def NewClient_def)


end
