(* ===== verification/Backoff.thy ===== *)
theory Backoff
  imports Config
begin

text \<open>
  \<^verbatim>\<open>application/service/backoff.go\<close>: exponential delays with symmetric jitter. The random
  number of each call is an argument (a float in [0, 1)); the conversion of an
  out-of-range float to a duration is the parameter \<open>oor\<close> of \<open>f_to_int64\<close>.

  For delays below \<open>2\<^sup>5\<^sup>3\<close> nanoseconds (104 days) and a factor that keeps the product in range
  the base delay never decreases and stays between the configured bounds. The last part shows
  what happens where the product leaves the range of a duration.
\<close>

record Backoff =
  bo_min :: duration
  bo_max :: duration
  bo_factor :: f64
  bo_jitter :: f64
  bo_current :: duration

definition NewBackoffWithRand :: "ReconnectConfig \<Rightarrow> Backoff" where
  "NewBackoffWithRand cfg =
     \<lparr>bo_min = rc_MinDelay cfg, bo_max = rc_MaxDelay cfg, bo_factor = rc_Factor cfg,
      bo_jitter = rc_JitterPct cfg, bo_current = rc_MinDelay cfg\<rparr>"

definition bo_Next :: "(f64 \<Rightarrow> int) \<Rightarrow> f64 \<Rightarrow> Backoff \<Rightarrow> duration \<times> Backoff" where
  "bo_Next oor rnd b =
     (let actual0 = bo_current b;
          actual1 =
            (if f_lt (Fin 0) (bo_jitter b)
             then let mult = f_add (Fin 1) (f_mul (f_sub (f_mul rnd (Fin 2)) (Fin 1)) (bo_jitter b))
                  in f_to_int64 oor (f_mul (f64_of_int (bo_current b)) mult)
             else actual0);
          actual = (if actual1 < 0 then 0 else actual1);
          next0 = f_to_int64 oor (f_mul (f64_of_int (bo_current b)) (bo_factor b));
          next1 = (if bo_max b < next0 then bo_max b else next0)
      in (actual, b\<lparr>bo_current := next1\<rparr>))"

definition bo_Reset :: "Backoff \<Rightarrow> Backoff" where
  "bo_Reset b = b\<lparr>bo_current := bo_min b\<rparr>"

fun bo_run :: "(f64 \<Rightarrow> int) \<Rightarrow> f64 list \<Rightarrow> Backoff \<Rightarrow> duration list \<times> Backoff" where
  "bo_run oor [] b = ([], b)"
| "bo_run oor (r # rs) b =
     (let (d, b1) = bo_Next oor r b; (ds, b2) = bo_run oor rs b1 in (d # ds, b2))"

lemma bo_Next_frame [simp]:
  "bo_min (snd (bo_Next oor r b)) = bo_min b" "bo_max (snd (bo_Next oor r b)) = bo_max b"
  "bo_factor (snd (bo_Next oor r b)) = bo_factor b" "bo_jitter (snd (bo_Next oor r b)) = bo_jitter b"
  by (simp_all add: bo_Next_def Let_def)

lemma bo_Next_nonneg: "0 \<le> fst (bo_Next oor r b)"
  by (simp add: bo_Next_def Let_def)

lemma bo_Next_current_le_max: "bo_current (snd (bo_Next oor r b)) \<le> bo_max b"
  by (simp add: bo_Next_def Let_def)

lemma bo_Next_exact: "\<not> f_lt (Fin 0) (bo_jitter b) \<Longrightarrow> 0 \<le> bo_current b \<Longrightarrow>
    fst (bo_Next oor r b) = bo_current b"
  by (simp add: bo_Next_def Let_def)

subsection \<open>Growth of the base delay\<close>

definition tame :: "Backoff \<Rightarrow> bool" where
  "tame b \<longleftrightarrow> 1 \<le> bo_min b \<and> bo_max b < 2 ^ 53 \<and>
     (case bo_factor b of Fin f \<Rightarrow> 1 < f \<and> of_int (bo_max b) * f \<le> 2 ^ 62 | _ \<Rightarrow> False)"

lemma grown:
  assumes "tame b" and "bo_min b \<le> bo_current b" and "bo_current b \<le> bo_max b"
  shows "bo_current b \<le> f_to_int64 oor (f_mul (f64_of_int (bo_current b)) (bo_factor b))"
proof -
  obtain f where f: "bo_factor b = Fin f" "1 < f" "of_int (bo_max b) * f \<le> 2 ^ 62"
    using assms(1) by (auto simp: tame_def split: f64.splits)
  define c where "c = bo_current b"
  define x where "x = of_int c * f"
  have c: "1 \<le> c" "c < 2 ^ 53" using assms by (auto simp: c_def tame_def)
  have fc: "f64_of_int c = Fin (of_int c)"
    unfolding f64_of_int_def by (rule round64_of_int) (use c in simp)
  have lo: "of_int c \<le> x" using c f(2) by (simp add: x_def)
  have "x \<le> of_int (bo_max b) * f"
    unfolding x_def using f(2) assms(3) by (intro mult_right_mono) (auto simp: c_def)
  with f(3) have hi: "x \<le> 2 ^ 62" by linarith
  obtain r where r: "round64 x = Fin r" "of_int c \<le> r" "r \<le> 2 ^ 63 - 1"
    using round64_ge_int [OF c lo hi] .
  have "c \<le> rat_trunc r" "rat_trunc r \<le> 2 ^ 63 - 1"
  proof -
    have "rat_trunc r = \<lfloor>r\<rfloor>" using c r(2) by (auto simp: rat_trunc_def)
    moreover have "c \<le> \<lfloor>r\<rfloor>" using r(2) by (simp add: le_floor_iff)
    moreover have "\<lfloor>r\<rfloor> \<le> 2 ^ 63 - 1" using r(3) by (simp add: floor_le_iff)
    ultimately show "c \<le> rat_trunc r" "rat_trunc r \<le> 2 ^ 63 - 1" by simp_all
  qed
  then show ?thesis
    using c by (simp add: c_def [symmetric] fc f(1) x_def [symmetric] r(1) f_to_int64_def Let_def
        int64_min_def int64_max_def)
qed

lemma bo_Next_grows:
  assumes "tame b" and "bo_min b \<le> bo_current b" and "bo_current b \<le> bo_max b"
  shows "bo_current b \<le> bo_current (snd (bo_Next oor r b))"
  using grown [OF assms, of oor] assms(3) by (simp add: bo_Next_def Let_def)

text \<open>What a run of calls does to the base delay and returns.\<close>

definition settled :: "Backoff \<Rightarrow> bool" where
  "settled b \<longleftrightarrow> tame b \<and> bo_min b \<le> bo_current b \<and> bo_current b \<le> bo_max b"

lemma settled_Next:
  assumes "settled b"
  shows "settled (snd (bo_Next oor r b)) \<and> bo_current b \<le> bo_current (snd (bo_Next oor r b))"
proof -
  have "bo_current b \<le> bo_current (snd (bo_Next oor r b))"
    using bo_Next_grows [of b oor r] assms by (simp add: settled_def)
  then show ?thesis
    using assms bo_Next_current_le_max [of oor r b] by (simp add: settled_def tame_def split: f64.splits)
qed

lemma bo_run_settled:
  "settled b \<Longrightarrow> \<not> f_lt (Fin 0) (bo_jitter b) \<Longrightarrow>
     sorted (fst (bo_run oor rs b)) \<and> (\<forall>d \<in> set (fst (bo_run oor rs b)). bo_current b \<le> d \<and> d \<le> bo_max b)"
proof (induction rs arbitrary: b)
  case (Cons r rs)
  let ?b1 = "snd (bo_Next oor r b)"
  have "1 \<le> bo_current b" using Cons.prems(1) by (auto simp: settled_def tame_def)
  then have d: "fst (bo_Next oor r b) = bo_current b" using Cons.prems(2) by (intro bo_Next_exact) auto
  note s = settled_Next [OF Cons.prems(1), of oor r]
  have IH: "sorted (fst (bo_run oor rs ?b1)) \<and>
      (\<forall>d \<in> set (fst (bo_run oor rs ?b1)). bo_current ?b1 \<le> d \<and> d \<le> bo_max ?b1)"
    using s Cons.prems(2) by (intro Cons.IH) auto
  have "bo_current b \<le> bo_max b" using Cons.prems(1) by (simp add: settled_def)
  then show ?case
    using IH s d by (auto simp: Let_def case_prod_unfold)
qed simp

lemma bo_run_current:
  "settled b \<Longrightarrow> settled (snd (bo_run oor rs b))
     \<and> bo_current b \<le> bo_current (snd (bo_run oor rs b))"
proof (induction rs arbitrary: b)
  case (Cons r rs)
  note s = settled_Next [OF Cons.prems(1), of oor r]
  from Cons.IH [of "snd (bo_Next oor r b)"] s show ?case
    by (auto simp: Let_def case_prod_unfold)
qed simp

lemma bo_run_nonneg: "d \<in> set (fst (bo_run oor rs b)) \<Longrightarrow> 0 \<le> d"
  by (induction rs arbitrary: b) (auto simp: Let_def case_prod_unfold bo_Next_nonneg)

text \<open>A factor that is not a number makes the base delay the conversion of a not-a-number.\<close>

lemma f_mul_NaN [simp]: "f_mul x NaN = NaN"
  by (cases x) auto

lemma bo_Next_NaN:
  "bo_factor b = NaN \<Longrightarrow> bo_max b \<ge> oor NaN \<Longrightarrow> bo_current (snd (bo_Next oor r b)) = oor NaN"
  by (simp add: bo_Next_def Let_def f_to_int64_def)

lemma bo_run_NaN:
  "bo_factor b = NaN \<Longrightarrow> \<not> f_lt (Fin 0) (bo_jitter b) \<Longrightarrow> oor NaN \<le> 0 \<Longrightarrow> 0 < bo_max b \<Longrightarrow>
     bo_current b = oor NaN \<Longrightarrow> fst (bo_run oor rs b) = replicate (length rs) 0"
proof (induction rs arbitrary: b)
  case (Cons r rs)
  have n: "bo_current (snd (bo_Next oor r b)) = oor NaN"
    using Cons.prems by (intro bo_Next_NaN) auto
  have "fst (bo_Next oor r b) = 0"
    using Cons.prems by (simp add: bo_Next_def Let_def)
  with Cons.IH [of "snd (bo_Next oor r b)"] Cons.prems n show ?case
    by (simp add: Let_def case_prod_unfold)
qed simp

subsection \<open>Properties\<close>

text \<open>
  C31. For delays and a factor whose product fits a duration, the reconnect delays never go
  below the minimum, never exceed the maximum and never decrease until a reset (with no jitter);
  with jitter the base delay keeps these bounds and no delay is negative.
\<close>

theorem backoff_bounded:
  assumes "tame (NewBackoffWithRand cfg)" and "rc_MinDelay cfg \<le> rc_MaxDelay cfg"
  shows "(\<not> f_lt (Fin 0) (rc_JitterPct cfg) \<longrightarrow>
        sorted (fst (bo_run oor rs (NewBackoffWithRand cfg)))
        \<and> (\<forall>d \<in> set (fst (bo_run oor rs (NewBackoffWithRand cfg))). rc_MinDelay cfg \<le> d \<and> d \<le> rc_MaxDelay cfg))
    \<and> rc_MinDelay cfg \<le> bo_current (snd (bo_run oor rs (NewBackoffWithRand cfg)))
    \<and> bo_current (snd (bo_run oor rs (NewBackoffWithRand cfg))) \<le> rc_MaxDelay cfg
    \<and> list_all (\<lambda>d. 0 \<le> d) (fst (bo_run oor rs (NewBackoffWithRand cfg)))
    \<and> bo_current (bo_Reset (snd (bo_run oor rs (NewBackoffWithRand cfg)))) = rc_MinDelay cfg"
proof -
  let ?b = "NewBackoffWithRand cfg"
  have s: "settled ?b" using assms by (simp add: settled_def NewBackoffWithRand_def)
  have f: "bo_max (snd (bo_run oor rs b)) = bo_max b \<and> bo_min (snd (bo_run oor rs b)) = bo_min b" for b
    by (induction rs arbitrary: b) (simp_all add: Let_def case_prod_unfold)
  show ?thesis
    using bo_run_settled [OF s, of oor rs] bo_run_current [OF s, of oor rs] f [of ?b]
      bo_run_nonneg [of _ oor rs ?b]
    by (auto simp: settled_def NewBackoffWithRand_def list_all_iff bo_Reset_def)
qed

definition default_reconnect :: ReconnectConfig where
  "default_reconnect = \<lparr>rc_MinDelay = Second, rc_MaxDelay = 60 * Second, rc_Factor = Fin 2,
     rc_JitterPct = Fin 0\<rparr>"

theorem backoff_bounded_witness:
  "rc_MinDelay default_reconnect
     \<le> bo_current (snd (bo_run oor_amd64 [Fin 0, Fin 0] (NewBackoffWithRand default_reconnect)))"
  using backoff_bounded [of default_reconnect oor_amd64 "[Fin 0, Fin 0]"]
  by (simp add: tame_def NewBackoffWithRand_def default_reconnect_def Second_def)


definition sim_config :: "ReconnectConfig \<Rightarrow> Config" where
  "sim_config r =
     \<lparr>cf_Modbus = \<lparr>mc_Host = ''h'', mc_Port = 502, mc_SlaveID = 1, mc_ConnectTimeout = Second,
         mc_ReadTimeout = Second, mc_WriteTimeout = Second, mc_GuardInterval = 100 * Millisecond\<rparr>,
      cf_MQTT = \<lparr>mq_Broker = ''b'', mq_ClientID = ''c'', mq_Username = [], mq_Password = [],
         mq_Keepalive = 30 * Second, mq_QoS = 1\<rparr>,
      cf_HomeAssistant = \<lparr>ha_DiscoveryPrefix = ''homeassistant'', ha_DevicePrefix = ''oasis'',
         ha_DeviceName = ''Oasis'', ha_Manufacturer = ''GTC'', ha_Model = ''Syberia 5''\<rparr>,
      cf_Polling = \<lparr>pl_HotInterval = 5 * Second, pl_MediumInterval = 15 * Second,
         pl_SlowInterval = 60 * Second, pl_AvailabilityThreshold = 30 * Second\<rparr>,
      cf_HTTP = \<lparr>ht_Port = 8080\<rparr>, cf_Logger = \<lparr>lg_Level = ''info''\<rparr>, cf_Reconnect = r\<rparr>"

lemma sim_config_valid: "valid_reconnect r \<Longrightarrow> Validate (sim_config r) = None"
  by (simp add: Validate_accepts_iff sim_config_def valid_config_def valid_modbus_def valid_mqtt_def
      valid_polling_def Second_def Millisecond_def)


end
