(* ===== verification/Supervisor.thy ===== *)
theory Supervisor
  imports Device Backoff
begin

text \<open>
  \<^verbatim>\<open>application/service/connection_supervisor.go\<close>. The two retry loops work on the client and
  the backoff (\<open>conn\<close>); each is a \<open>partial_function\<close>, since a controller that never answers
  keeps it running, and is proved to return when the controller comes back. The running
  system interleaves dispatcher calls (poll tiers and commands) with the supervisor
  goroutine: \<open>sys_step\<close> is the step relation, \<open>sys_inv\<close> its invariant.
\<close>

type_synonym 'w conn = "'w Client \<times> Backoff"

subsection \<open>The pieces of the retry loops\<close>

text \<open>A random number is drawn only when there is jitter.\<close>

definition sv_delay ::
  "(f64 \<Rightarrow> int) \<Rightarrow> ('w \<Rightarrow> f64 \<times> 'w) \<Rightarrow> 'w conn \<Rightarrow> duration \<times> 'w conn" where
  "sv_delay oor rng s =
     (let (c, b) = s;
          (r, w) = (if f_lt (Fin 0) (bo_jitter b) then rng (cl_world c) else (Fin 0, cl_world c));
          (d, b1) = bo_Next oor r b
      in (d, c\<lparr>cl_world := w\<rparr>, b1))"

definition sv_wait :: "'w ModbusEnv \<Rightarrow> duration \<Rightarrow> 'w conn \<Rightarrow> go_error option \<times> 'w conn" where
  "sv_wait E d s =
     (let (c, b) = s; (r, w) = me_wait E d (cl_world c) in (r, c\<lparr>cl_world := w\<rparr>, b))"

definition sv_attempt :: "'w ModbusEnv \<Rightarrow> 'w conn \<Rightarrow> bool \<times> 'w conn" where
  "sv_attempt E s =
     (let (c, b) = s in
      case Connect E c of
        (None, c1) \<Rightarrow> (True, c1, bo_Reset b)
      | (Some err, c1) \<Rightarrow>
          (False, upd_metrics (counter_inc (ModbusErrorsTotal ''reconnect_failed'')) c1, b))"

subsection \<open>The loops\<close>

partial_function (option) initialConnect ::
  "'w ModbusEnv \<Rightarrow> (f64 \<Rightarrow> int) \<Rightarrow> ('w \<Rightarrow> f64 \<times> 'w) \<Rightarrow> 'w conn \<Rightarrow>
     (go_error option \<times> 'w conn) option" where
  "initialConnect E oor rng s =
     (let (ok, s1) = sv_attempt E s in
      if ok then Some (None, s1)
      else let (d, s2) = sv_delay oor rng s1;
               (r, s3) = sv_wait E d s2
           in case r of Some e \<Rightarrow> Some (Some e, s3)
              | None \<Rightarrow> initialConnect E oor rng s3)"

partial_function (option) reconnectLoop ::
  "'w ModbusEnv \<Rightarrow> (f64 \<Rightarrow> int) \<Rightarrow> ('w \<Rightarrow> f64 \<times> 'w) \<Rightarrow> 'w conn \<Rightarrow>
     (go_error option \<times> 'w conn) option" where
  "reconnectLoop E oor rng s =
     (let (d, s1) = sv_delay oor rng s;
          (r, s2) = sv_wait E d s1
      in case r of Some e \<Rightarrow> Some (Some e, s2)
         | None \<Rightarrow>
             (let (ok, s3) = sv_attempt E s2
              in if ok then Some (None, s3) else reconnectLoop E oor rng s3))"

text \<open>
  \<open>Start\<close>: the initial connect; \<open>Inl\<close> is the error it returns, \<open>Inr\<close> the state in which the
  supervisor goroutine is launched.
\<close>

definition supervisor_Start ::
  "'w ModbusEnv \<Rightarrow> (f64 \<Rightarrow> int) \<Rightarrow> ('w \<Rightarrow> f64 \<times> 'w) \<Rightarrow> 'w conn \<Rightarrow> (go_error + 'w conn) option" where
  "supervisor_Start E oor rng s =
     (case initialConnect E oor rng s of
        None \<Rightarrow> None
      | Some (Some e, _) \<Rightarrow> Some (Inl e)
      | Some (None, s1) \<Rightarrow> Some (Inr s1))"

subsection \<open>The loops return once the controller answers\<close>

text \<open>
  \<open>m\<close> bounds the number of dials that will still fail; waiting and drawing random numbers do
  not raise it.
\<close>

definition dials_bounded ::
  "'w ModbusEnv \<Rightarrow> ('w \<Rightarrow> f64 \<times> 'w) \<Rightarrow> ('w \<Rightarrow> nat) \<Rightarrow> bool" where
  "dials_bounded E rng m \<longleftrightarrow>
     (\<forall>cfg w e w'. me_dial E cfg w = (Inl e, w') \<longrightarrow> m w' < m w)
     \<and> (\<forall>d w r w'. me_wait E d w = (r, w') \<longrightarrow> m w' \<le> m w)
     \<and> (\<forall>w r w'. rng w = (r, w') \<longrightarrow> m w' \<le> m w)"

lemma sv_delay_bounded:
  "dials_bounded E rng m \<Longrightarrow> sv_delay oor rng s = (d, s') \<Longrightarrow> m (cl_world (fst s')) \<le> m (cl_world (fst s))"
  by (cases s) (auto simp: sv_delay_def Let_def dials_bounded_def split: prod.splits if_splits)

lemma sv_wait_bounded:
  "dials_bounded E rng m \<Longrightarrow> sv_wait E d s = (r, s') \<Longrightarrow> m (cl_world (fst s')) \<le> m (cl_world (fst s))"
  by (cases s) (auto simp: sv_wait_def Let_def dials_bounded_def split: prod.splits)

lemma sv_attempt_bounded:
  "dials_bounded E rng m \<Longrightarrow> sv_attempt E s = (False, s') \<Longrightarrow> m (cl_world (fst s')) < m (cl_world (fst s))"
  by (cases s)
    (auto simp: sv_attempt_def Connect_def Let_def dials_bounded_def
      simp del: WrapError.simps split: prod.splits sum.splits option.splits if_splits)

lemma sv_attempt_True: "sv_attempt E s = (True, c, b) \<Longrightarrow> cl_connected c \<and> b = bo_Reset (snd s)"
  by (cases s) (auto simp: sv_attempt_def Connect_def Let_def WrapError_Some simp del: WrapError.simps
      split: prod.splits sum.splits option.splits if_splits)

lemma initialConnect_returns:
  assumes "dials_bounded E rng m"
  shows "\<exists>r c b. initialConnect E oor rng s = Some (r, c, b)
     \<and> (r = None \<longrightarrow> cl_connected c \<and> bo_current b = bo_min b)"
proof (induction "m (cl_world (fst s))" arbitrary: s rule: less_induct)
  case less
  obtain ok s1 where a: "sv_attempt E s = (ok, s1)" by (cases "sv_attempt E s")
  obtain d s2 where d: "sv_delay oor rng s1 = (d, s2)" by (cases "sv_delay oor rng s1")
  obtain r s3 where w: "sv_wait E d s2 = (r, s3)" by (cases "sv_wait E d s2")
  note eq = initialConnect.simps [of E oor rng s]
  show ?case
  proof (cases ok)
    case True
    obtain c b where s1: "s1 = (c, b)" by (cases s1)
    with sv_attempt_True [of E s c b] a True show ?thesis
      by (subst eq) (simp add: bo_Reset_def)
  next
    case False
    show ?thesis
    proof (cases r)
      case (Some e)
      obtain c b where "s3 = (c, b)" by (cases s3)
      with Some False show ?thesis by (subst eq) (simp add: a d w)
    next
      case None
      have "m (cl_world (fst s3)) < m (cl_world (fst s))"
        using sv_attempt_bounded [OF assms] a False sv_delay_bounded [OF assms d]
          sv_wait_bounded [OF assms w] by fastforce
      from less [OF this] None False show ?thesis by (subst eq) (simp add: a d w)
    qed
  qed
qed

lemma reconnectLoop_returns:
  assumes "dials_bounded E rng m"
  shows "\<exists>r c b. reconnectLoop E oor rng s = Some (r, c, b)
     \<and> (r = None \<longrightarrow> cl_connected c \<and> bo_current b = bo_min b)"
proof (induction "m (cl_world (fst s))" arbitrary: s rule: less_induct)
  case less
  obtain d s1 where d: "sv_delay oor rng s = (d, s1)" by (cases "sv_delay oor rng s")
  obtain r s2 where w: "sv_wait E d s1 = (r, s2)" by (cases "sv_wait E d s1")
  obtain ok s3 where a: "sv_attempt E s2 = (ok, s3)" by (cases "sv_attempt E s2")
  obtain c b where s3: "s3 = (c, b)" by (cases s3)
  obtain c2 b2 where s2: "s2 = (c2, b2)" by (cases s2)
  note eq = reconnectLoop.simps [of E oor rng s]
  show ?case
  proof (cases r)
    case (Some e)
    with s2 show ?thesis by (subst eq) (simp add: d w)
  next
    case None
    show ?thesis
    proof (cases ok)
      case True
      with sv_attempt_True [of E s2 c b] a s3 None show ?thesis
        by (subst eq) (simp add: d w bo_Reset_def)
    next
      case False
      have "m (cl_world (fst s3)) < m (cl_world (fst s))"
        using sv_attempt_bounded [OF assms] a False sv_delay_bounded [OF assms d]
          sv_wait_bounded [OF assms w] by fastforce
      from less [OF this] None False show ?thesis by (subst eq) (simp add: a d w)
    qed
  qed
qed

subsection \<open>The running system\<close>

text \<open>
  The supervisor goroutine waits in its select, has received a trigger, or dwells on the
  backoff timer of the reconnect loop; it has stopped once the context is cancelled.
\<close>

datatype Phase = PhWaiting | PhTriggered | PhDwelling duration | PhStopped

record 'w System =
  sy_disp :: "'w Client Dispatcher"
  sy_backoff :: Backoff
  sy_phase :: Phase

abbreviation sy_client :: "'w System \<Rightarrow> 'w Client" where
  "sy_client s \<equiv> ds_client (sy_disp s)"

definition set_client :: "'w Client \<Rightarrow> 'w System \<Rightarrow> 'w System" where
  "set_client c s = s\<lparr>sy_disp := (sy_disp s)\<lparr>ds_client := c\<rparr>\<rparr>"

definition init_system :: "'w Client \<Rightarrow> int \<Rightarrow> Backoff \<Rightarrow> 'w System" where
  "init_system c threshold b =
     \<lparr>sy_disp = \<lparr>ds_client = c, ds_threshold = threshold, ds_consecutiveErrs = 0, ds_pending = False\<rparr>,
      sy_backoff = b, sy_phase = PhWaiting\<rparr>"

inductive sup_step ::
  "'w ModbusEnv \<Rightarrow> (f64 \<Rightarrow> int) \<Rightarrow> ('w \<Rightarrow> f64 \<times> 'w) \<Rightarrow> 'w System \<Rightarrow> 'w System \<Rightarrow> bool"
  for E oor rng where
  receive: "sy_phase s = PhWaiting \<Longrightarrow> ds_pending (sy_disp s) \<Longrightarrow>
     sup_step E oor rng s (s\<lparr>sy_disp := (sy_disp s)\<lparr>ds_pending := False\<rparr>, sy_phase := PhTriggered\<rparr>)"
| force_close: "sy_phase s = PhTriggered \<Longrightarrow> ForceClose E (sy_client s) = (err, c) \<Longrightarrow>
     sv_delay oor rng (c, sy_backoff s) = (dl, c', b') \<Longrightarrow>
     sup_step E oor rng s ((set_client c' s)\<lparr>sy_backoff := b', sy_phase := PhDwelling dl\<rparr>)"
| reconnected: "sy_phase s = PhDwelling dl \<Longrightarrow>
     sv_attempt E (sy_client s, sy_backoff s) = (True, c, b) \<Longrightarrow>
     sup_step E oor rng s ((set_client c s)\<lparr>sy_backoff := b, sy_phase := PhWaiting\<rparr>)"
| reconnect_failed: "sy_phase s = PhDwelling dl \<Longrightarrow>
     sv_attempt E (sy_client s, sy_backoff s) = (False, c, b) \<Longrightarrow>
     sv_delay oor rng (c, b) = (dl', c', b') \<Longrightarrow>
     sup_step E oor rng s ((set_client c' s)\<lparr>sy_backoff := b', sy_phase := PhDwelling dl'\<rparr>)"
| cancelled: "sy_phase s = PhWaiting \<or> (\<exists>dl. sy_phase s = PhDwelling dl) \<Longrightarrow>
     sup_step E oor rng s (s\<lparr>sy_phase := PhStopped\<rparr>)"

text \<open>The supervisor goroutine together with the callers of the dispatcher and the outside world,
  which includes the other components that count in the metrics registry.\<close>

inductive sys_step ::
  "'w ModbusEnv \<Rightarrow> (f64 \<Rightarrow> int) \<Rightarrow> ('w \<Rightarrow> f64 \<times> 'w) \<Rightarrow> 'w System \<Rightarrow> 'w System \<Rightarrow> bool"
  for E oor rng where
  read_input: "ds_ReadInput (client_port E) a n (sy_disp s) = (ri, d) \<Longrightarrow>
     sys_step E oor rng s (s\<lparr>sy_disp := d\<rparr>)"
| read_holding: "ds_ReadHolding (client_port E) a n (sy_disp s) = (rh, d) \<Longrightarrow>
     sys_step E oor rng s (s\<lparr>sy_disp := d\<rparr>)"
| write_holding: "ds_WriteHolding (client_port E) a v (sy_disp s) = (rw, d) \<Longrightarrow>
     sys_step E oor rng s (s\<lparr>sy_disp := d\<rparr>)"
| modify_holding: "ds_ModifyHolding (client_port E) a f (sy_disp s) = (rm, d) \<Longrightarrow>
     sys_step E oor rng s (s\<lparr>sy_disp := d\<rparr>)"
| world: "modbusConnectedFlag m = modbusConnectedFlag (cl_metrics (sy_client s)) \<Longrightarrow>
     sys_step E oor rng s (set_client ((sy_client s)\<lparr>cl_metrics := m, cl_world := w\<rparr>) s)"
| supervised: "sup_step E oor rng s t \<Longrightarrow> sys_step E oor rng s t"

inductive sys_reach ::
  "'w ModbusEnv \<Rightarrow> (f64 \<Rightarrow> int) \<Rightarrow> ('w \<Rightarrow> f64 \<times> 'w) \<Rightarrow> 'w System \<Rightarrow> 'w System \<Rightarrow> bool"
  for E oor rng where
  refl: "sys_reach E oor rng s s"
| step: "sys_reach E oor rng s t \<Longrightarrow> sys_step E oor rng t u \<Longrightarrow> sys_reach E oor rng s u"

lemma sys_reach_trans: "sys_reach E oor rng t u \<Longrightarrow> sys_reach E oor rng s t \<Longrightarrow> sys_reach E oor rng s u"
  by (induction rule: sys_reach.induct) (auto intro: sys_reach.step)

inductive_simps sys_reach_simps: "sys_reach E oor rng s t"

text \<open>
  The invariant. The connection gauge mirrors the flag; the connection is down while the
  supervisor dwells, so no two connections are ever in use; and no wake-up is lost: when the
  failure count has reached the threshold, a trigger is pending, the supervisor is already
  at work, or the connection is up again.
\<close>

definition sys_inv :: "'w System \<Rightarrow> bool" where
  "sys_inv s \<longleftrightarrow> client_wf (sy_client s) \<and> 0 < ds_threshold (sy_disp s)
     \<and> (\<forall>dl. sy_phase s = PhDwelling dl \<longrightarrow> \<not> cl_connected (sy_client s))
     \<and> (ds_threshold (sy_disp s) \<le> ds_consecutiveErrs (sy_disp s) \<longrightarrow>
          ds_pending (sy_disp s) \<or> sy_phase s \<noteq> PhWaiting \<or> cl_connected (sy_client s))"

lemma disconnected_noop:
  assumes "\<not> cl_connected c"
  shows "\<exists>e. ReadInput E a n c = (Inl e, c)" "\<exists>e. ReadHolding E a n c = (Inl e, c)"
    "\<exists>e. WriteHolding E a v c = (Some e, c)" "\<exists>e. ModifyHolding E a f c = (Some e, c)"
  using assms by (simp_all add: ReadInput_def ReadHolding_def WriteHolding_def ModifyHolding_def doOp_def)

text \<open>One lemma for the four dispatcher calls: each is a client step followed by \<open>recordOutcome\<close>.\<close>

lemma ds_call_shape:
  "ds_ReadInput (client_port E) a n d = (ri, d') \<Longrightarrow>
     d' = recordOutcome (err_of ri) (d\<lparr>ds_client := client_step E (OpReadInput a n) (ds_client d)\<rparr>)
     \<and> (\<not> cl_connected (ds_client d) \<longrightarrow> err_of ri \<noteq> None \<and> ds_client d' = ds_client d)"
  "ds_ReadHolding (client_port E) a n d = (rh, d') \<Longrightarrow>
     d' = recordOutcome (err_of rh) (d\<lparr>ds_client := client_step E (OpReadHolding a n) (ds_client d)\<rparr>)
     \<and> (\<not> cl_connected (ds_client d) \<longrightarrow> err_of rh \<noteq> None \<and> ds_client d' = ds_client d)"
  "ds_WriteHolding (client_port E) a v d = (rw, d') \<Longrightarrow>
     d' = recordOutcome rw (d\<lparr>ds_client := client_step E (OpWriteHolding a v) (ds_client d)\<rparr>)
     \<and> (\<not> cl_connected (ds_client d) \<longrightarrow> rw \<noteq> None \<and> ds_client d' = ds_client d)"
  "ds_ModifyHolding (client_port E) a f d = (rm, d') \<Longrightarrow>
     d' = recordOutcome rm (d\<lparr>ds_client := client_step E (OpModifyHolding a f) (ds_client d)\<rparr>)
     \<and> (\<not> cl_connected (ds_client d) \<longrightarrow> rm \<noteq> None \<and> ds_client d' = ds_client d)"
  using disconnected_noop(1) [of "ds_client d" E a n] disconnected_noop(2) [of "ds_client d" E a n]
    disconnected_noop(3) [of "ds_client d" E a v] disconnected_noop(4) [of "ds_client d" E a f]
  by (auto simp: ds_ops client_port_def Let_def split: prod.splits)

lemma sys_inv_call:
  assumes "sys_inv s"
    and "d = recordOutcome err ((sy_disp s)\<lparr>ds_client := client_step E op (sy_client s)\<rparr>)"
    and "\<not> cl_connected (sy_client s) \<Longrightarrow> err \<noteq> None \<and> ds_client d = sy_client s"
  shows "sys_inv (s\<lparr>sy_disp := d\<rparr>)"
  using assms wf.I_step [of "sy_client s" E op] by (auto simp: sys_inv_def)

lemma sv_delay_client: "sv_delay oor rng (c, b) = (dl, c', b') \<Longrightarrow>
    cl_connected c' = cl_connected c \<and> client_wf c' = client_wf c"
  by (auto simp: sv_delay_def Let_def client_wf_def split: prod.splits if_splits)

lemma sv_attempt_client:
  "sv_attempt E (c, b) = (ok, c', b') \<Longrightarrow> client_wf c \<Longrightarrow> \<not> cl_connected c \<Longrightarrow>
     client_wf c' \<and> cl_connected c' = ok"
  by (auto simp: sv_attempt_def Connect_def Let_def client_wf_def WrapError_Some simp del: WrapError.simps
      split: prod.splits sum.splits option.splits if_splits)

lemma ForceClose_down: "ForceClose E c = (e, c') \<Longrightarrow> \<not> cl_connected c'"
  by (auto simp: ForceClose_def Let_def split: if_splits)

lemma sup_step_inv: "sup_step E oor rng s t \<Longrightarrow> sys_inv s \<Longrightarrow> sys_inv t"
proof (induction rule: sup_step.induct)
  case (receive s)
  then show ?case by (simp add: sys_inv_def)
next
  case (force_close s err c dl c' b')
  have "client_wf c" using wf.I_step [of "sy_client s" E OpForceClose] force_close by (simp add: sys_inv_def)
  then show ?case
    using force_close sv_delay_client [OF force_close(3)] ForceClose_down [OF force_close(2)]
    by (simp add: sys_inv_def set_client_def)
next
  case (reconnected s dl c b)
  then show ?case
    using sv_attempt_client [OF reconnected(2)] by (simp add: sys_inv_def set_client_def)
next
  case (reconnect_failed s dl c b dl' c' b')
  then show ?case
    using sv_attempt_client [OF reconnect_failed(2)] sv_delay_client [OF reconnect_failed(3)]
    by (simp add: sys_inv_def set_client_def)
next
  case (cancelled s)
  then show ?case by (auto simp: sys_inv_def)
qed

lemma sys_step_inv: "sys_step E oor rng s t \<Longrightarrow> sys_inv s \<Longrightarrow> sys_inv t"
proof (induction rule: sys_step.induct)
  case (read_input a n s ri d)
  from ds_call_shape(1) [OF read_input(1)] show ?case
    by (intro sys_inv_call [OF read_input(2), where err = "err_of ri" and op = "OpReadInput a n"]) auto
next
  case (read_holding a n s rh d)
  from ds_call_shape(2) [OF read_holding(1)] show ?case
    by (intro sys_inv_call [OF read_holding(2), where err = "err_of rh" and op = "OpReadHolding a n"]) auto
next
  case (write_holding a v s rw d)
  from ds_call_shape(3) [OF write_holding(1)] show ?case
    by (intro sys_inv_call [OF write_holding(2), where err = "rw" and op = "OpWriteHolding a v"]) auto
next
  case (modify_holding a f s rm d)
  from ds_call_shape(4) [OF modify_holding(1)] show ?case
    by (intro sys_inv_call [OF modify_holding(2), where err = "rm" and op = "OpModifyHolding a f"]) auto
next
  case (world m s w)
  then show ?case by (simp add: sys_inv_def set_client_def client_wf_def)
qed (rule sup_step_inv)

lemma sys_reach_inv: "sys_reach E oor rng s t \<Longrightarrow> sys_inv s \<Longrightarrow> sys_inv t"
  by (induction rule: sys_reach.induct) (auto intro: sys_step_inv)

lemma sys_inv_init: "client_wf c \<Longrightarrow> 0 < threshold \<Longrightarrow> sys_inv (init_system c threshold b)"
  by (simp add: sys_inv_def init_system_def)

text \<open>The client the supervisor hands over after the initial connect.\<close>

lemma sv_pieces_wf:
  "client_wf (fst s) \<Longrightarrow> sv_attempt E s = (ok, s') \<Longrightarrow> client_wf (fst s')"
  "client_wf (fst s) \<Longrightarrow> sv_delay oor rng s = (d, s') \<Longrightarrow> client_wf (fst s')"
  "client_wf (fst s) \<Longrightarrow> sv_wait E d s = (r, s') \<Longrightarrow> client_wf (fst s')"
  by (auto simp: sv_attempt_def sv_delay_def sv_wait_def Connect_def Let_def client_wf_def
      simp del: WrapError.simps split: prod.splits sum.splits option.splits if_splits)

lemma initialConnect_wf:
  assumes "initialConnect E oor rng s = Some res"
  shows "client_wf (fst s) \<longrightarrow>
     client_wf (fst (snd res)) \<and> (fst res = None \<longrightarrow> cl_connected (fst (snd res)))"
  using assms
proof (rule initialConnect.raw_induct [where P = "\<lambda>E oor rng s res. client_wf (fst s) \<longrightarrow>
     client_wf (fst (snd res)) \<and> (fst res = None \<longrightarrow> cl_connected (fst (snd res)))", rotated], goal_cases)
  case (1 f E oor rng s res)
  obtain ok s1 where a: "sv_attempt E s = (ok, s1)" by (cases "sv_attempt E s")
  obtain d s2 where d: "sv_delay oor rng s1 = (d, s2)" by (cases "sv_delay oor rng s1")
  obtain r s3 where w: "sv_wait E d s2 = (r, s3)" by (cases "sv_wait E d s2")
  show ?case
  proof
    assume c: "client_wf (fst s)"
    note c1 = sv_pieces_wf(1) [OF c a]
    note c3 = sv_pieces_wf(3) [OF sv_pieces_wf(2) [OF c1 d] w]
    show "client_wf (fst (snd res)) \<and> (fst res = None \<longrightarrow> cl_connected (fst (snd res)))"
    proof (cases ok)
      case True
      then have "res = (None, s1)" using 1(2) a by simp
      moreover have "cl_connected (fst s1)" using sv_attempt_True [of E s "fst s1" "snd s1"] a True by simp
      ultimately show ?thesis using c1 by simp
    next
      case False
      show ?thesis
      proof (cases r)
        case None
        then have "f E oor rng s3 = Some res" using 1(2) a d w False by simp
        then show ?thesis using 1(1) c3 by blast
      next
        case (Some e)
        then have "res = (Some e, s3)" using 1(2) a d w False by simp
        then show ?thesis using c3 by simp
      qed
    qed
  qed
qed

lemma supervisor_Start_wf:
  assumes "supervisor_Start E oor rng (NewClient cfg metrics0 w, b) = Some (Inr (c, b'))"
  shows "client_wf c \<and> cl_connected c"
proof -
  obtain res where r: "initialConnect E oor rng (NewClient cfg metrics0 w, b) = Some res"
      "fst res = None" "snd res = (c, b')"
    using assms by (auto simp: supervisor_Start_def split: option.splits prod.splits)
  then show ?thesis using initialConnect_wf [OF r(1)] client_wf_NewClient [of cfg w] by simp
qed

lemma sys_step_threshold:
  "sys_step E oor rng s t \<Longrightarrow> ds_threshold (sy_disp t) = ds_threshold (sy_disp s)"
proof (induction rule: sys_step.induct)
  case (read_input a n s ri d)
  then show ?case using ds_call_threshold(1) [of "client_port E" a n "sy_disp s"] by simp
next
  case (read_holding a n s rh d)
  then show ?case using ds_call_threshold(2) [of "client_port E" a n "sy_disp s"] by simp
next
  case (write_holding a v s rw d)
  then show ?case using ds_call_threshold(3) [of "client_port E" a v "sy_disp s"] by simp
next
  case (modify_holding a f s rm d)
  then show ?case using ds_call_threshold(4) [of "client_port E" a f "sy_disp s"] by simp
qed (auto simp: set_client_def elim: sup_step.cases)

lemma sys_reach_threshold:
  "sys_reach E oor rng s t \<Longrightarrow> ds_threshold (sy_disp t) = ds_threshold (sy_disp s)"
  by (induction rule: sys_reach.induct) (simp_all add: sys_step_threshold)

subsection \<open>A trigger raised while reconnecting\<close>

lemma stale_trigger_aux:
  assumes ph: "sy_phase s = PhDwelling dl" and dn: "\<not> cl_connected (sy_client s)"
    and th: "ds_threshold (sy_disp s) \<le> ds_consecutiveErrs (sy_disp s) + 1"
    and up: "me_dial E (cl_cfg (sy_client s)) (cl_world (sy_client s)) = (Inr h, w')"
  shows "\<exists>s1 s2 s3 s4. sys_step E oor rng s s1 \<and> sys_step E oor rng s1 s2 \<and> cl_connected (sy_client s2)
    \<and> sy_disp s3 = (sy_disp s2)\<lparr>ds_pending := False\<rparr> \<and> sys_step E oor rng s2 s3
    \<and> sys_step E oor rng s3 s4 \<and> \<not> cl_connected (sy_client s4)"
proof -
  obtain r d where c: "ds_WriteHolding (client_port E) 0 0 (sy_disp s) = (r, d)"
    by (cases "ds_WriteHolding (client_port E) 0 0 (sy_disp s)")
  have d: "ds_client d = sy_client s" "r \<noteq> None" using ds_call_shape(3) [OF c] dn by auto
  have pend: "ds_pending d" using ds_call_shape(3) [OF c] d th by simp
  let ?s1 = "s\<lparr>sy_disp := d\<rparr>"
  obtain c2 b2 where a: "sv_attempt E (sy_client ?s1, sy_backoff ?s1) = (True, c2, b2)"
    using up dn by (simp add: sv_attempt_def Connect_def d(1))
  let ?s2 = "(set_client c2 ?s1)\<lparr>sy_backoff := b2, sy_phase := PhWaiting\<rparr>"
  let ?s3 = "?s2\<lparr>sy_disp := (sy_disp ?s2)\<lparr>ds_pending := False\<rparr>, sy_phase := PhTriggered\<rparr>"
  obtain e c3 where f: "ForceClose E (sy_client ?s3) = (e, c3)"
    by (cases "ForceClose E (sy_client ?s3)")
  obtain dl' c4 b4 where y: "sv_delay oor rng (c3, sy_backoff ?s3) = (dl', c4, b4)"
    by (rule prod_cases3)
  let ?s4 = "(set_client c4 ?s3)\<lparr>sy_backoff := b4, sy_phase := PhDwelling dl'\<rparr>"
  have "sys_step E oor rng s ?s1" by (rule sys_step.write_holding [OF c])
  moreover have "sys_step E oor rng ?s1 ?s2"
    by (rule sys_step.supervised, rule sup_step.reconnected [OF _ a]) (simp add: ph)
  moreover have "sys_step E oor rng ?s2 ?s3"
    by (rule sys_step.supervised, rule sup_step.receive) (simp_all add: set_client_def pend)
  moreover have "sys_step E oor rng ?s3 ?s4"
    by (rule sys_step.supervised, rule sup_step.force_close [OF _ f y]) simp
  moreover have "cl_connected (sy_client ?s2)"
    using sv_attempt_True [OF a] by (simp add: set_client_def)
  moreover have "\<not> cl_connected (sy_client ?s4)"
    using ForceClose_down [OF f] sv_delay_client [OF y] by (simp add: set_client_def)
  ultimately show ?thesis
    by (intro exI [of _ ?s1] exI [of _ ?s2] exI [of _ ?s3] exI [of _ ?s4]) simp
qed

subsection \<open>Properties\<close>

text \<open>
  C11. In every state the running program reaches after its initial connect: the connection
  gauge is right, the connection is down while the supervisor waits to redial (so no
  two connections are ever used), and no wake-up is lost: once the failures reach the threshold, a
  trigger is pending, the supervisor is at work, or the connection is up again.
\<close>

theorem supervision_invariant:
  assumes "supervisor_Start E oor rng (NewClient cfg metrics0 w, b) = Some (Inr (c, b'))"
    and "0 < threshold" and "sys_reach E oor rng (init_system c threshold b') s"
  shows "modbusConnectedFlag (cl_metrics (sy_client s)) = Connected (sy_client s)
    \<and> (\<forall>dl. sy_phase s = PhDwelling dl \<longrightarrow> \<not> Connected (sy_client s))
    \<and> (threshold \<le> ds_consecutiveErrs (sy_disp s) \<longrightarrow>
         ds_pending (sy_disp s) \<or> sy_phase s \<noteq> PhWaiting \<or> Connected (sy_client s))"
proof -
  have "ds_threshold (sy_disp s) = threshold"
    using sys_reach_threshold [OF assms(3)] by (simp add: init_system_def)
  moreover have "sys_inv s"
    using sys_reach_inv [OF assms(3)] sys_inv_init supervisor_Start_wf [OF assms(1)] assms(2) by blast
  ultimately show ?thesis by (auto simp: sys_inv_def client_wf_def Connected_def)
qed


text \<open>
  A trigger raised while the supervisor is redialling outlives the successful redial: from
  such a state there is a run in which the connection comes up, no operation is attempted on it,
  and the supervisor tears it down again.
\<close>

lemma stale_trigger_teardown:
  assumes "sy_phase s = PhDwelling dl" and "\<not> cl_connected (sy_client s)"
    and "ds_threshold (sy_disp s) \<le> ds_consecutiveErrs (sy_disp s) + 1"
    and "me_dial E (cl_cfg (sy_client s)) (cl_world (sy_client s)) = (Inr h, w')"
  shows "\<exists>s1 s2 s3 s4. sys_step E oor rng s s1 \<and> sys_step E oor rng s1 s2 \<and> cl_connected (sy_client s2)
    \<and> sy_disp s3 = (sy_disp s2)\<lparr>ds_pending := False\<rparr> \<and> sys_step E oor rng s2 s3
    \<and> sys_step E oor rng s3 s4 \<and> \<not> cl_connected (sy_client s4)"
  by (rule stale_trigger_aux [OF assms])

subsection \<open>Witnesses\<close>

definition sim_rng :: "World \<Rightarrow> f64 \<times> World" where "sim_rng w = (Fin 0, w)"

lemma sim_dials_bounded: "dials_bounded sim_env sim_rng (\<lambda>w. length (wd_script w))"
  by (auto simp: dials_bounded_def sim_defs sim_rng_def split: list.splits option.splits)

lemma sim_start:
  "\<exists>c b. supervisor_Start sim_env oor_amd64 sim_rng
     (NewClient sim_cfg metrics0 (sim_world zero_regs []), NewBackoffWithRand default_reconnect) = Some (Inr (c, b))"
  by (simp add: supervisor_Start_def initialConnect.simps sv_attempt_def Connect_def NewClient_def sim_defs sim_world_def)

theorem supervision_invariant_witness:
  "\<exists>c b. supervisor_Start sim_env oor_amd64 sim_rng
       (NewClient sim_cfg metrics0 (sim_world zero_regs []), NewBackoffWithRand default_reconnect) = Some (Inr (c, b))
     \<and> modbusConnectedFlag (cl_metrics (sy_client (init_system c 3 b)))
       = Connected (sy_client (init_system c 3 b))"
  using sim_start supervision_invariant [OF _ _ sys_reach.refl, of sim_env oor_amd64 sim_rng sim_cfg
      "sim_world zero_regs []" "NewBackoffWithRand default_reconnect" _ _ 3]
  by auto


lemma stale_trigger_teardown_example:
  "\<exists>s s1 s2 s3 s4. sys_step sim_env oor_amd64 sim_rng s s1 \<and> sys_step sim_env oor_amd64 sim_rng s1 s2
     \<and> cl_connected (sy_client s2) \<and> sy_disp s3 = (sy_disp s2)\<lparr>ds_pending := False\<rparr>
     \<and> sys_step sim_env oor_amd64 sim_rng s2 s3 \<and> sys_step sim_env oor_amd64 sim_rng s3 s4
     \<and> \<not> cl_connected (sy_client s4)"
proof -
  let ?c = "NewClient sim_cfg metrics0 (sim_world zero_regs [])"
  let ?s = "(init_system ?c 1 (NewBackoffWithRand default_reconnect))\<lparr>sy_phase := PhDwelling Second\<rparr>"
  have "me_dial sim_env (cl_cfg ?c) (cl_world ?c) = (Inr 1, cl_world ?c)"
    by (simp add: NewClient_def sim_defs sim_world_def)
  then show ?thesis
    by (intro exI [of _ ?s] stale_trigger_teardown) (simp_all add: init_system_def NewClient_def)
qed

end
