(* ===== verification/LinkSpec.thy ===== *)
theory LinkSpec
  imports Supervisor
begin

text \<open>
  What the supervised connection promises, without clients, dispatchers, counters or timers: a link
  that is up or down, a pending signal, and a keeper that is idle, closes the link or redials it. The
  running system of theory Supervisor refines it: the link comes up by a redial of the keeper only,
  and the keeper acts on a signal only.
\<close>

datatype Keeper = Idle | Closing | Redialling | Retired

record Link =
  lk_up :: bool
  lk_signal :: bool
  lk_keeper :: Keeper

inductive link_step :: "Link \<Rightarrow> Link \<Rightarrow> bool" where
  lost: "lk_up l \<Longrightarrow> link_step l (l\<lparr>lk_up := False\<rparr>)"
| signalled: "link_step l (l\<lparr>lk_signal := True\<rparr>)"
| lost_signalled: "lk_up l \<Longrightarrow> link_step l (l\<lparr>lk_up := False, lk_signal := True\<rparr>)"
| woken: "lk_signal l \<Longrightarrow> lk_keeper l = Idle \<Longrightarrow> link_step l (l\<lparr>lk_signal := False, lk_keeper := Closing\<rparr>)"
| closed: "lk_keeper l = Closing \<Longrightarrow> link_step l (l\<lparr>lk_up := False, lk_keeper := Redialling\<rparr>)"
| redialled: "lk_keeper l = Redialling \<Longrightarrow> \<not> lk_up l \<Longrightarrow> link_step l (l\<lparr>lk_up := True, lk_keeper := Idle\<rparr>)"
| retired: "lk_keeper l \<noteq> Closing \<Longrightarrow> link_step l (l\<lparr>lk_keeper := Retired\<rparr>)"

inductive_cases link_stepE: "link_step l l'"

fun keeper_of :: "Phase \<Rightarrow> Keeper" where
  "keeper_of PhWaiting = Idle"
| "keeper_of PhTriggered = Closing"
| "keeper_of (PhDwelling dl) = Redialling"
| "keeper_of PhStopped = Retired"

lemma keeper_redials: "keeper_of ph = Redialling \<longleftrightarrow> (\<exists>dl. ph = PhDwelling dl)"
  by (cases ph) simp_all

definition link_of :: "'w System \<Rightarrow> Link" where
  "link_of s = \<lparr>lk_up = cl_connected (sy_client s), lk_signal = ds_pending (sy_disp s),
     lk_keeper = keeper_of (sy_phase s)\<rparr>"

text \<open>A dispatcher call can lose the link and raise the signal, nothing else.\<close>

lemma client_step_connected:
  assumes "op \<noteq> OpConnect" and "cl_connected (client_step E op c)"
  shows "cl_connected c"
proof (rule ccontr)
  assume d: "\<not> cl_connected c"
  note n = disconnected_noop [OF d]
  show False
  proof (cases op)
    case (OpReadInput a k)
    with n(1) [of E a k] d assms(2) show ?thesis by auto
  next
    case (OpReadHolding a k)
    with n(2) [of E a k] d assms(2) show ?thesis by auto
  next
    case (OpWriteHolding a v)
    with n(3) [of E a v] d assms(2) show ?thesis by auto
  next
    case (OpModifyHolding a f)
    with n(4) [of E a f] d assms(2) show ?thesis by auto
  next
    case OpForceClose
    then show ?thesis using assms(2) ForceClose_down [of E c "fst (ForceClose E c)" "snd (ForceClose E c)"] by auto
  qed (use assms in auto)
qed

lemma recordOutcome_link:
  "cl_connected (ds_client (recordOutcome err d)) = cl_connected (ds_client d)
   \<and> (ds_pending d \<longrightarrow> ds_pending (recordOutcome err d))"
  by (auto simp: recordOutcome_def Trigger_def Let_def split: option.splits)

lemma link_lowered:
  assumes "lk_keeper l' = lk_keeper l" and "lk_up l' \<longrightarrow> lk_up l" and "lk_signal l \<longrightarrow> lk_signal l'"
  shows "l' = l \<or> link_step l l'"
proof -
  obtain u g k where l: "l = \<lparr>lk_up = u, lk_signal = g, lk_keeper = k\<rparr>" by (cases l)
  obtain u' g' where l': "l' = \<lparr>lk_up = u', lk_signal = g', lk_keeper = k\<rparr>" using assms(1) l by (cases l') simp
  show ?thesis
    using assms(2,3) link_step.lost [of l] link_step.signalled [of l] link_step.lost_signalled [of l]
    by (cases u; cases u'; cases g; cases g') (simp_all add: l l')
qed

lemma call_link:
  assumes "d = recordOutcome err ((sy_disp s)\<lparr>ds_client := client_step E op (sy_client s)\<rparr>)" and "op \<noteq> OpConnect"
  shows "link_of (s\<lparr>sy_disp := d\<rparr>) = link_of s \<or> link_step (link_of s) (link_of (s\<lparr>sy_disp := d\<rparr>))"
proof (rule link_lowered)
  show "lk_up (link_of (s\<lparr>sy_disp := d\<rparr>)) \<longrightarrow> lk_up (link_of s)"
    using assms client_step_connected [OF assms(2), of E "sy_client s"] recordOutcome_link [of err]
    by (simp add: link_of_def)
  show "lk_signal (link_of s) \<longrightarrow> lk_signal (link_of (s\<lparr>sy_disp := d\<rparr>))"
    using assms(1) recordOutcome_link [of err] by (simp add: link_of_def)
qed (simp add: link_of_def)

subsection \<open>The simulation\<close>

lemma sup_step_link:
  assumes "sup_step E oor rng s t" and "sys_inv s"
  shows "link_of t = link_of s \<or> link_step (link_of s) (link_of t)"
  using assms
proof (induction rule: sup_step.induct)
  case (receive s)
  then show ?case using link_step.woken [of "link_of s"] by (simp add: link_of_def)
next
  case (force_close s err c dl c' b')
  then show ?case
    using link_step.closed [of "link_of s"] sv_delay_client [OF force_close(3)] ForceClose_down [OF force_close(2)]
    by (simp add: link_of_def set_client_def)
next
  case (reconnected s dl c b)
  then have "cl_connected c" "\<not> cl_connected (sy_client s)"
    using sv_attempt_client [OF reconnected(2)] by (simp_all add: sys_inv_def)
  with reconnected show ?case
    using link_step.redialled [of "link_of s"] by (simp add: link_of_def set_client_def)
next
  case (reconnect_failed s dl c b dl' c' b')
  then have "\<not> cl_connected c'" "\<not> cl_connected (sy_client s)"
    using sv_attempt_client [OF reconnect_failed(2)] sv_delay_client [OF reconnect_failed(3)]
    by (simp_all add: sys_inv_def)
  with reconnect_failed show ?case by (simp add: link_of_def set_client_def)
next
  case (cancelled s)
  then show ?case using link_step.retired [of "link_of s"] by (auto simp: link_of_def)
qed

lemma sys_step_link:
  assumes "sys_step E oor rng s t" and "sys_inv s"
  shows "link_of t = link_of s \<or> link_step (link_of s) (link_of t)"
  using assms
proof (induction rule: sys_step.induct)
  case (read_input a n s ri d)
  from ds_call_shape(1) [OF read_input(1)]
  show ?case by (intro call_link [where err = "err_of ri" and op = "OpReadInput a n" and E = E]) simp_all
next
  case (read_holding a n s rh d)
  from ds_call_shape(2) [OF read_holding(1)]
  show ?case by (intro call_link [where err = "err_of rh" and op = "OpReadHolding a n" and E = E]) simp_all
next
  case (write_holding a v s rw d)
  from ds_call_shape(3) [OF write_holding(1)]
  show ?case by (intro call_link [where err = "rw" and op = "OpWriteHolding a v" and E = E]) simp_all
next
  case (modify_holding a f s rm d)
  from ds_call_shape(4) [OF modify_holding(1)]
  show ?case by (intro call_link [where err = "rm" and op = "OpModifyHolding a f" and E = E]) simp_all
next
  case (world m s w)
  then show ?case by (simp add: link_of_def set_client_def)
qed (rule sup_step_link)

lemma sys_reach_link:
  "sys_reach E oor rng s t \<Longrightarrow> sys_inv s \<Longrightarrow> link_step\<^sup>*\<^sup>* (link_of s) (link_of t)"
proof (induction rule: sys_reach.induct)
  case (step s t u)
  from step.hyps(1) step.prems have "sys_inv t" by (rule sys_reach_inv)
  from sys_step_link [OF step.hyps(2) this] step.IH [OF step.prems] show ?case
    by (auto intro: rtranclp.rtrancl_into_rtrancl)
qed simp

text \<open>The abstract link is never up while it is being redialled.\<close>

lemma link_redial_down:
  "link_step\<^sup>*\<^sup>* l l' \<Longrightarrow> (lk_keeper l = Redialling \<longrightarrow> \<not> lk_up l) \<Longrightarrow> lk_keeper l' = Redialling \<longrightarrow> \<not> lk_up l'"
  by (induction rule: rtranclp_induct) (auto elim: link_stepE)

subsection \<open>The refinement\<close>

definition link0 :: Link where
  "link0 = \<lparr>lk_up = True, lk_signal = False, lk_keeper = Idle\<rparr>"

lemma link_init: "cl_connected c \<Longrightarrow> link_of (init_system c threshold b) = link0"
  by (simp add: link_of_def init_system_def link0_def)

text \<open>
  C21. The supervised connection refines the abstract link. Whatever the sequence of dispatcher calls
  of the poller and of the command handlers, of events of the network and of steps of the supervisor
  after the initial connect, each of them is a step of the link or leaves it as it is: the connection
  is lost by anybody, but it is opened by the supervisor only, once the supervisor has consumed a
  pending trigger and closed it; and it is never up while the supervisor waits to redial it.
\<close>

theorem supervision_refines_link:
  assumes "supervisor_Start E oor rng (NewClient cfg metrics0 w, b) = Some (Inr (c, b'))"
    and "0 < threshold" and "sys_reach E oor rng (init_system c threshold b') s"
  shows "link_step\<^sup>*\<^sup>* link0 (link_of s)
    \<and> (\<forall>t. sys_step E oor rng s t \<longrightarrow> link_of t = link_of s \<or> link_step (link_of s) (link_of t))
    \<and> (\<forall>dl. sy_phase s = PhDwelling dl \<longrightarrow> \<not> lk_up (link_of s))"
proof -
  have c: "client_wf c" "cl_connected c" using supervisor_Start_wf [OF assms(1)] by simp_all
  note i = sys_inv_init [OF c(1) assms(2)]
  note l = sys_reach_link [OF assms(3) i] and r = sys_reach_inv [OF assms(3) i]
  show ?thesis
    using l sys_step_link [OF _ r] link_redial_down [OF l]
    by (simp add: link_init [OF c(2)]) (simp add: link_of_def link0_def keeper_redials)
qed

theorem supervision_refines_link_witness:
  "\<exists>c b. supervisor_Start sim_env oor_amd64 sim_rng
       (NewClient sim_cfg metrics0 (sim_world zero_regs []), NewBackoffWithRand default_reconnect) = Some (Inr (c, b))
     \<and> link_step\<^sup>*\<^sup>* link0 (link_of (init_system c 3 b))"
  using sim_start supervision_refines_link [OF _ _ sys_reach.refl, of sim_env oor_amd64 sim_rng sim_cfg
      "sim_world zero_regs []" "NewBackoffWithRand default_reconnect" _ _ 3]
  by auto

end
