(* ===== verification/Recovery.thy ===== *)
theory Recovery
  imports LinkSpec
begin

text \<open>
  Fairness and recovery. An endless run of the supervised system is a sequence of states; its scheduling
  is fair when the callers of the dispatcher keep calling (the poll tiers tick for ever) and the
  supervisor is not passed over for ever while it could go on. Under fair scheduling the connection
  comes back once the controller can be dialled.
\<close>

subsection \<open>Runs\<close>

text \<open>One call of the dispatcher.\<close>

inductive ds_call :: "'w ModbusEnv \<Rightarrow> 'w Client Dispatcher \<Rightarrow> 'w Client Dispatcher \<Rightarrow> bool" for E where
  ds_input: "ds_ReadInput (client_port E) a n d = (ri, d') \<Longrightarrow> ds_call E d d'"
| ds_holding: "ds_ReadHolding (client_port E) a n d = (rh, d') \<Longrightarrow> ds_call E d d'"
| ds_write: "ds_WriteHolding (client_port E) a v d = (rw, d') \<Longrightarrow> ds_call E d d'"
| ds_modify: "ds_ModifyHolding (client_port E) a f d = (rm, d') \<Longrightarrow> ds_call E d d'"

text \<open>The supervisor has something to do: a trigger to receive, a connection to close or to redial.\<close>

definition sup_ready :: "'w System \<Rightarrow> bool" where
  "sup_ready s \<longleftrightarrow> sy_phase s \<noteq> PhStopped \<and> (sy_phase s = PhWaiting \<longrightarrow> ds_pending (sy_disp s))"

definition dial_answers :: "'w ModbusEnv \<Rightarrow> 'w System \<Rightarrow> bool" where
  "dial_answers E s \<longleftrightarrow> (\<exists>h w. me_dial E (cl_cfg (sy_client s)) (cl_world (sy_client s)) = (Inr h, w))"

definition run_of :: "'w ModbusEnv \<Rightarrow> (f64 \<Rightarrow> int) \<Rightarrow> ('w \<Rightarrow> f64 \<times> 'w) \<Rightarrow> (nat \<Rightarrow> 'w System) \<Rightarrow> bool" where
  "run_of E oor rng \<sigma> \<longleftrightarrow> (\<forall>i. \<sigma> (Suc i) = \<sigma> i \<or> sys_step E oor rng (\<sigma> i) (\<sigma> (Suc i)))"

definition fair_run :: "'w ModbusEnv \<Rightarrow> (f64 \<Rightarrow> int) \<Rightarrow> ('w \<Rightarrow> f64 \<times> 'w) \<Rightarrow> (nat \<Rightarrow> 'w System) \<Rightarrow> bool" where
  "fair_run E oor rng \<sigma> \<longleftrightarrow> run_of E oor rng \<sigma>
     \<and> (\<forall>i. \<exists>j \<ge> i. \<exists>d. ds_call E (sy_disp (\<sigma> j)) d \<and> \<sigma> (Suc j) = (\<sigma> j)\<lparr>sy_disp := d\<rparr>)
     \<and> (\<forall>i. \<exists>j \<ge> i. \<not> sup_ready (\<sigma> j) \<or> sup_step E oor rng (\<sigma> j) (\<sigma> (Suc j)))"

subsection \<open>While the connection is down\<close>

lemma recordOutcome_failed:
  "err \<noteq> None \<Longrightarrow> ds_consecutiveErrs (recordOutcome err d) = ds_consecutiveErrs d + 1"
  by (cases err) (simp_all add: recordOutcome_def Let_def Trigger_def)

lemma failed_record:
  assumes "d' = recordOutcome err (d\<lparr>ds_client := c\<rparr>) \<and> (\<not> cl_connected (ds_client d) \<longrightarrow> err \<noteq> None \<and> ds_client d' = ds_client d)"
    and "\<not> cl_connected (ds_client d)"
  shows "ds_client d' = ds_client d \<and> ds_consecutiveErrs d' = ds_consecutiveErrs d + 1"
proof -
  have d: "d' = recordOutcome err (d\<lparr>ds_client := c\<rparr>)" and e: "err \<noteq> None" "ds_client d' = ds_client d" using assms by auto
  have "ds_consecutiveErrs d' = ds_consecutiveErrs d + 1" unfolding d recordOutcome_failed [OF e(1)] by simp
  with e(2) show ?thesis by simp
qed

lemma failed_call:
  assumes "ds_call E d d'" and "\<not> cl_connected (ds_client d)"
  shows "ds_client d' = ds_client d \<and> ds_consecutiveErrs d' = ds_consecutiveErrs d + 1"
  using assms(1) by (cases rule: ds_call.cases) (auto dest!: ds_call_shape [THEN failed_record, OF _ assms(2)])

text \<open>How far the supervisor is from the next dial.\<close>

fun phase_rank :: "Phase \<Rightarrow> nat" where
  "phase_rank PhWaiting = 2"
| "phase_rank PhTriggered = 1"
| "phase_rank _ = 0"

lemma phase_rank_waiting: "phase_rank ph = 2 \<longleftrightarrow> ph = PhWaiting"
  by (cases ph) simp_all

lemma sup_step_down:
  assumes "sup_step E oor rng s t" and "\<not> cl_connected (sy_client s)" and "dial_answers E s" and "sy_phase t \<noteq> PhStopped"
  shows "cl_connected (sy_client t) \<or> phase_rank (sy_phase t) < phase_rank (sy_phase s)
    \<and> ds_consecutiveErrs (sy_disp t) = ds_consecutiveErrs (sy_disp s)"
  using assms
proof (induction rule: sup_step.induct)
  case (reconnected s dl c b)
  then show ?case using sv_attempt_True [of E _ c b] by (simp add: set_client_def)
next
  case (reconnect_failed s dl c b dl' c' b')
  then show ?case by (auto simp: sv_attempt_def Connect_def dial_answers_def split: prod.splits)
qed (simp_all add: set_client_def)

lemma sys_step_down:
  assumes "sys_step E oor rng s t" and "\<not> cl_connected (sy_client s)" and "\<not> sup_step E oor rng s t"
  shows "sy_phase t = sy_phase s \<and> ds_consecutiveErrs (sy_disp s) \<le> ds_consecutiveErrs (sy_disp t)"
  using assms
proof (induction rule: sys_step.induct)
  case (read_input a n s ri d)
  then show ?case using failed_call [OF ds_call.ds_input [OF read_input(1)]] by simp
next
  case (read_holding a n s rh d)
  then show ?case using failed_call [OF ds_call.ds_holding [OF read_holding(1)]] by simp
next
  case (write_holding a v s rw d)
  then show ?case using failed_call [OF ds_call.ds_write [OF write_holding(1)]] by simp
next
  case (modify_holding a f s rm d)
  then show ?case using failed_call [OF ds_call.ds_modify [OF modify_holding(1)]] by simp
qed (simp_all add: set_client_def)

subsection \<open>It does not stay down\<close>

lemma down_step:
  assumes "\<sigma> (Suc j) = \<sigma> j \<or> sys_step E oor rng (\<sigma> j) (\<sigma> (Suc j))" and "\<not> cl_connected (sy_client (\<sigma> j))"
    and "\<not> cl_connected (sy_client (\<sigma> (Suc j)))" and "dial_answers E (\<sigma> j)" and "sy_phase (\<sigma> (Suc j)) \<noteq> PhStopped"
  shows "phase_rank (sy_phase (\<sigma> (Suc j))) \<le> phase_rank (sy_phase (\<sigma> j))
    \<and> ds_consecutiveErrs (sy_disp (\<sigma> j)) \<le> ds_consecutiveErrs (sy_disp (\<sigma> (Suc j)))
    \<and> (sup_step E oor rng (\<sigma> j) (\<sigma> (Suc j)) \<longrightarrow> phase_rank (sy_phase (\<sigma> (Suc j))) < phase_rank (sy_phase (\<sigma> j)))"
proof (cases "sup_step E oor rng (\<sigma> j) (\<sigma> (Suc j))")
  case True
  then show ?thesis using sup_step_down [OF True assms(2,4,5)] assms(3) by simp
next
  case False
  then show ?thesis using sys_step_down [OF _ assms(2) False] assms(1) by auto
qed

lemma fair_run_inv: "run_of E oor rng \<sigma> \<Longrightarrow> sys_inv (\<sigma> 0) \<Longrightarrow> sys_inv (\<sigma> i)"
proof (induction i)
  case (Suc i)
  then show ?case using sys_step_inv unfolding run_of_def by metis
qed

lemma run_threshold: "run_of E oor rng \<sigma> \<Longrightarrow> ds_threshold (sy_disp (\<sigma> i)) = ds_threshold (sy_disp (\<sigma> 0))"
proof (induction i)
  case (Suc i)
  then show ?case using sys_step_threshold unfolding run_of_def by metis
qed simp

lemma rank_settles:
  fixes f :: "nat \<Rightarrow> nat"
  assumes step: "\<And>j. k \<le> j \<Longrightarrow> f (Suc j) \<le> f j \<and> (P j \<longrightarrow> f (Suc j) < f j)"
  shows "\<exists>K \<ge> k. \<forall>j \<ge> K. f j = f K \<and> \<not> P j"
proof -
  define m where "m = (LEAST v. \<exists>j \<ge> k. f j = v)"
  have ex: "\<exists>v. \<exists>j \<ge> k. f j = v" by blast
  obtain K where K: "k \<le> K" "f K = m" using LeastI_ex [OF ex] unfolding m_def by blast
  have least: "m \<le> f j" if "k \<le> j" for j
    unfolding m_def by (rule Least_le) (use that in blast)
  have below: "f j \<le> m" if "K \<le> j" for j
    using that
  proof (induction j rule: dec_induct)
    case (step n)
    then show ?case using assms [of n] K(1) by linarith
  qed (simp add: K(2))
  have eq: "f j = m" if "K \<le> j" for j
    by (rule antisym [OF below [OF that] least]) (use K(1) that in simp)
  have "\<not> P j" if "K \<le> j" for j
    using assms [of j] eq [OF that] eq [of "Suc j"] K(1) that by auto
  with eq K show ?thesis by auto
qed

lemma counter_grows:
  fixes g :: "nat \<Rightarrow> int"
  assumes mono: "\<And>j. k \<le> j \<Longrightarrow> g j \<le> g (Suc j)" and up: "\<And>i. k \<le> i \<Longrightarrow> \<exists>j \<ge> i. g j + 1 \<le> g (Suc j)"
  shows "\<exists>J \<ge> k. \<forall>j \<ge> J. b \<le> g j"
proof -
  have le: "g i \<le> g j" if "k \<le> i" "i \<le> j" for i j
    using that(2)
  proof (induction j rule: dec_induct)
    case (step n)
    with mono [of n] that(1) show ?case by linarith
  qed simp
  have grows: "\<exists>j \<ge> k. g k + int n \<le> g j" for n
  proof (induction n)
    case (Suc n)
    then obtain j where j: "k \<le> j" "g k + int n \<le> g j" by blast
    obtain j' where j': "j \<le> j'" "g j' + 1 \<le> g (Suc j')" using up [OF j(1)] by blast
    have "g k + int (Suc n) \<le> g (Suc j')" using le [OF j(1) j'(1)] j(2) j'(2) by simp
    moreover have "k \<le> Suc j'" using j(1) j'(1) by simp
    ultimately show ?case by blast
  qed auto
  obtain J where J: "k \<le> J" "g k + int (nat (b - g k)) \<le> g J" using grows by blast
  then have "b \<le> g J" by linarith
  with J(1) le show ?thesis by (meson order_trans)
qed

lemma fair_runD:
  assumes "fair_run E oor rng \<sigma>"
  shows "run_of E oor rng \<sigma>"
    and "\<exists>j \<ge> i. \<exists>d. ds_call E (sy_disp (\<sigma> j)) d \<and> \<sigma> (Suc j) = (\<sigma> j)\<lparr>sy_disp := d\<rparr>"
    and "\<exists>j \<ge> i. \<not> sup_ready (\<sigma> j) \<or> sup_step E oor rng (\<sigma> j) (\<sigma> (Suc j))"
  using assms unfolding fair_run_def by (iprover+)

lemma run_ofD: "run_of E oor rng \<sigma> \<Longrightarrow> \<sigma> (Suc j) = \<sigma> j \<or> sys_step E oor rng (\<sigma> j) (\<sigma> (Suc j))"
  unfolding run_of_def by (rule spec)

text \<open>The supervisor makes no step for ever once its rank has settled; it is idle then.\<close>

lemma settles_idle:
  assumes fair: "fair_run E oor rng \<sigma>" and alive: "\<And>i. sy_phase (\<sigma> i) \<noteq> PhStopped"
    and rank: "\<And>j. K \<le> j \<Longrightarrow> phase_rank (sy_phase (\<sigma> j)) = r"
    and nosup: "\<And>j. K \<le> j \<Longrightarrow> \<not> sup_step E oor rng (\<sigma> j) (\<sigma> (Suc j))" and i: "K \<le> i"
  shows "\<exists>j \<ge> i. \<not> ds_pending (sy_disp (\<sigma> j))" and "sy_phase (\<sigma> i) = PhWaiting"
proof -
  obtain j where j: "i \<le> j" "\<not> sup_ready (\<sigma> j)"
    using fair_runD(3) [OF fair, of i] nosup i order_trans by blast
  then have w: "sy_phase (\<sigma> j) = PhWaiting" "\<not> ds_pending (sy_disp (\<sigma> j))"
    using alive [of j] unfolding sup_ready_def by blast+
  with j(1) show "\<exists>j \<ge> i. \<not> ds_pending (sy_disp (\<sigma> j))" by blast
  have "r = 2" using rank [OF order_trans [OF i j(1)]] w(1) by simp
  then show "sy_phase (\<sigma> i) = PhWaiting" using rank [OF i] by (simp add: phase_rank_waiting)
qed

lemma down_count:
  assumes "fair_run E oor rng \<sigma>" and "\<And>i. k \<le> i \<Longrightarrow> \<not> cl_connected (sy_client (\<sigma> i))" and "k \<le> i"
  shows "\<exists>j \<ge> i. ds_consecutiveErrs (sy_disp (\<sigma> j)) + 1 \<le> ds_consecutiveErrs (sy_disp (\<sigma> (Suc j)))"
proof -
  obtain j d where j: "i \<le> j" "ds_call E (sy_disp (\<sigma> j)) d" "\<sigma> (Suc j) = (\<sigma> j)\<lparr>sy_disp := d\<rparr>"
    using fair_runD(2) [OF assms(1)] by blast
  have "ds_consecutiveErrs d = ds_consecutiveErrs (sy_disp (\<sigma> j)) + 1"
    using failed_call [OF j(2) assms(2) [OF order_trans [OF assms(3) j(1)]]] by (rule conjunct2)
  then show ?thesis using j(1,3) by (intro exI [of _ j]) simp
qed

lemma not_down_for_ever:
  assumes fair: "fair_run E oor rng \<sigma>" and inv: "sys_inv (\<sigma> 0)" and alive: "\<And>i. sy_phase (\<sigma> i) \<noteq> PhStopped"
    and up: "\<And>i. k \<le> i \<Longrightarrow> dial_answers E (\<sigma> i)" and down: "\<And>i. k \<le> i \<Longrightarrow> \<not> cl_connected (sy_client (\<sigma> i))"
  shows False
proof -
  note run = fair_runD(1) [OF fair]
  have s: "k \<le> j \<Longrightarrow> phase_rank (sy_phase (\<sigma> (Suc j))) \<le> phase_rank (sy_phase (\<sigma> j))
      \<and> ds_consecutiveErrs (sy_disp (\<sigma> j)) \<le> ds_consecutiveErrs (sy_disp (\<sigma> (Suc j)))
      \<and> (sup_step E oor rng (\<sigma> j) (\<sigma> (Suc j)) \<longrightarrow> phase_rank (sy_phase (\<sigma> (Suc j))) < phase_rank (sy_phase (\<sigma> j)))" for j
    by (rule down_step [where \<sigma> = \<sigma>, OF run_ofD [OF run] down down [OF le_SucI] up alive])
  obtain K where K: "k \<le> K" and st: "\<forall>j \<ge> K. phase_rank (sy_phase (\<sigma> j)) = phase_rank (sy_phase (\<sigma> K))
      \<and> \<not> sup_step E oor rng (\<sigma> j) (\<sigma> (Suc j))"
    using rank_settles [of k "\<lambda>j. phase_rank (sy_phase (\<sigma> j))" "\<lambda>j. sup_step E oor rng (\<sigma> j) (\<sigma> (Suc j))"] s by blast
  have idle: "\<exists>j \<ge> i. \<not> ds_pending (sy_disp (\<sigma> j))" "sy_phase (\<sigma> i) = PhWaiting" if "K \<le> i" for i
    by (rule settles_idle [OF fair alive _ _ that]; use st in blast)+
  obtain J where J: "K \<le> J" "\<forall>j \<ge> J. ds_threshold (sy_disp (\<sigma> 0)) \<le> ds_consecutiveErrs (sy_disp (\<sigma> j))"
    using counter_grows [of K "\<lambda>j. ds_consecutiveErrs (sy_disp (\<sigma> j))", OF s [OF order_trans [OF K], THEN conjunct2, THEN conjunct1]
        down_count [OF fair down order_trans [OF K]]] by blast
  obtain j where j: "J \<le> j" "\<not> ds_pending (sy_disp (\<sigma> j))" using idle(1) [OF J(1)] by blast
  have "sy_phase (\<sigma> j) = PhWaiting" by (rule idle(2)) (use J(1) j(1) in simp)
  moreover have "\<not> cl_connected (sy_client (\<sigma> j))" by (rule down) (use K J(1) j(1) in simp)
  moreover have "ds_threshold (sy_disp (\<sigma> j)) \<le> ds_consecutiveErrs (sy_disp (\<sigma> j))"
    using J(2) [rule_format, OF j(1)] run_threshold [OF run, of j] by simp
  ultimately show False using fair_run_inv [OF run inv, of j] j(2) by (simp add: sys_inv_def)
qed

text \<open>
  C29. Connections recover. In every endless run of the program after its initial connect in which the
  callers of the dispatcher go on calling, the supervisor is not passed over for ever, and dialling the
  controller works from some moment on, the connection is up again and again: after every moment of the
  run there is a later one at which it is up, however it was lost, and whatever failures and events of
  the network came before.
\<close>

theorem connection_recovers:
  assumes "supervisor_Start E oor rng (NewClient cfg metrics0 w, b) = Some (Inr (c, b'))" and "0 < threshold"
    and "sys_reach E oor rng (init_system c threshold b') (\<sigma> 0)" and "fair_run E oor rng \<sigma>"
    and "\<And>i. sy_phase (\<sigma> i) \<noteq> PhStopped" and "\<And>i. k \<le> i \<Longrightarrow> dial_answers E (\<sigma> i)"
  shows "\<exists>j \<ge> i. Connected (sy_client (\<sigma> j))"
proof (rule ccontr)
  assume "\<not> ?thesis"
  then have down: "\<not> cl_connected (sy_client (\<sigma> j))" if "max i k \<le> j" for j using that by (auto simp: Connected_def)
  have "client_wf c" using supervisor_Start_wf [OF assms(1)] by (rule conjunct1)
  then have inv: "sys_inv (\<sigma> 0)" by (rule sys_reach_inv [OF assms(3) sys_inv_init [OF _ assms(2)]])
  have up: "dial_answers E (\<sigma> j)" if "max i k \<le> j" for j using assms(6) that by simp
  show False by (rule not_down_for_ever [OF assms(4) inv assms(5) up down])
qed

subsection \<open>A run that loses the connection and recovers\<close>

text \<open>
  The simulated controller: a write fails, the supervisor closes the connection, redials it, and the
  callers write for ever after.
\<close>

abbreviation sim_step :: "World System \<Rightarrow> World System \<Rightarrow> bool" where
  "sim_step \<equiv> sys_step sim_env oor_amd64 sim_rng"

definition sim_calm :: "World System \<Rightarrow> bool" where
  "sim_calm s \<longleftrightarrow> sy_phase s = PhWaiting \<and> \<not> ds_pending (sy_disp s) \<and> usable (\<lambda>w. wd_script w = []) (sy_client s)"

primrec writes_for_ever :: "World System \<Rightarrow> nat \<Rightarrow> World System" where
  "writes_for_ever s 0 = s"
| "writes_for_ever s (Suc n) =
     (writes_for_ever s n)\<lparr>sy_disp := snd (ds_WriteHolding (client_port sim_env) 0 0 (sy_disp (writes_for_ever s n)))\<rparr>"

lemma sim_calm_write:
  assumes "sim_calm s"
  shows "sim_calm (s\<lparr>sy_disp := snd (ds_WriteHolding (client_port sim_env) 0 0 (sy_disp s))\<rparr>)"
proof -
  obtain c where "WriteHolding sim_env 0 0 (sy_client s) = (None, c)" "usable (\<lambda>w. wd_script w = []) c"
    using WriteHolding_usable [OF sim_responsive] assms unfolding sim_calm_def by blast
  then show ?thesis
    using assms by (simp add: sim_calm_def ds_WriteHolding_def client_port_def recordOutcome_def)
qed

lemma writes_calm: "sim_calm s \<Longrightarrow> sim_calm (writes_for_ever s n)"
  by (induction n) (simp_all add: sim_calm_write)

lemma sim_dials: "wd_script (cl_world (sy_client s)) = [] \<Longrightarrow> dial_answers sim_env s"
  by (simp add: dial_answers_def sim_defs)

lemma sim_calm_dials: "sim_calm s \<Longrightarrow> dial_answers sim_env s"
  by (simp add: sim_calm_def usable_def sim_dials)

lemma write_call: "ds_call E d (snd (ds_WriteHolding (client_port E) a v d))"
  by (rule ds_call.ds_write [of E a v d "fst (ds_WriteHolding (client_port E) a v d)"]) simp

lemma write_step: "sys_step E oor rng s (s\<lparr>sy_disp := snd (ds_WriteHolding (client_port E) a v (sy_disp s))\<rparr>)"
  by (rule sys_step.write_holding [of E a v s "fst (ds_WriteHolding (client_port E) a v (sy_disp s))"]) simp

text \<open>A system that is redialled and then written to for ever is a fair run.\<close>

definition recovered :: "World System \<Rightarrow> World System \<Rightarrow> nat \<Rightarrow> World System" where
  "recovered s t i = (case i of 0 \<Rightarrow> s | Suc n \<Rightarrow> writes_for_ever t n)"

lemma recovered_fair:
  assumes "sim_step s t" and "sim_calm t"
  shows "fair_run sim_env oor_amd64 sim_rng (recovered s t)"
proof -
  have calm: "sim_calm (recovered s t (Suc n))" for n using writes_calm [OF assms(2)] by (simp add: recovered_def)
  have wr: "recovered s t (Suc (Suc n)) = (recovered s t (Suc n))\<lparr>sy_disp := snd (ds_WriteHolding (client_port sim_env) 0 0 (sy_disp (recovered s t (Suc n))))\<rparr>" for n
    by (simp add: recovered_def)
  have "run_of sim_env oor_amd64 sim_rng (recovered s t)"
    unfolding run_of_def
  proof
    fix i
    show "recovered s t (Suc i) = recovered s t i \<or> sim_step (recovered s t i) (recovered s t (Suc i))"
    proof (cases i)
      case 0
      then show ?thesis using assms(1) by (simp add: recovered_def)
    next
      case (Suc n)
      then show ?thesis unfolding Suc wr by (intro disjI2 write_step)
    qed
  qed
  moreover have "\<exists>j \<ge> i. \<exists>d. ds_call sim_env (sy_disp (recovered s t j)) d \<and> recovered s t (Suc j) = (recovered s t j)\<lparr>sy_disp := d\<rparr>" for i
    by (rule exI [of _ "Suc i"]) (use write_call wr [of i] le_SucI [OF order_refl] in blast)
  moreover have "\<not> sup_ready (recovered s t (Suc i))" for i
    using calm [of i] by (simp add: sim_calm_def sup_ready_def)
  then have "\<exists>j \<ge> i. \<not> sup_ready (recovered s t j) \<or> sup_step sim_env oor_amd64 sim_rng (recovered s t j) (recovered s t (Suc j))" for i
    by (intro exI [of _ "Suc i"]) simp
  ultimately show ?thesis unfolding fair_run_def by blast
qed

text \<open>The loss and the redial.\<close>

lemma sim_write_fails:
  assumes "cl_connected c" and "wd_script (cl_world c) = [Some e]"
  shows "\<exists>e' c'. WriteHolding sim_env a v c = (Some e', c') \<and> wd_script (cl_world c') = []"
proof -
  have g: "fst (waitGuardInterval sim_env c) = None \<and> cl_connected (snd (waitGuardInterval sim_env c))
      \<and> wd_script (cl_world (snd (waitGuardInterval sim_env c))) = [Some e]"
    using assms by (simp add: waitGuardInterval_def sim_defs Let_def)
  then show ?thesis
    using assms by (auto simp: WriteHolding_def doOp_def timed_call_def handleOpError_def sim_defs Let_def case_prod_unfold split: sum.splits)
qed

lemma sim_redial:
  "sv_delay oor sim_rng (c, b) = (dl, c', b') \<Longrightarrow> c' = c"
  "ForceClose sim_env c = (err, c') \<Longrightarrow> cl_world c' = cl_world c"
  "\<not> cl_connected c \<Longrightarrow> wd_script (cl_world c) = [] \<Longrightarrow>
     \<exists>c'. sv_attempt sim_env (c, b) = (True, c', bo_Reset b) \<and> usable (\<lambda>w. wd_script w = []) c'"
  by (auto simp: sv_delay_def ForceClose_def sv_attempt_def Connect_def usable_def sim_rng_def sim_defs Let_def split: if_splits prod.splits option.splits)

lemma sim_lost:
  assumes "cl_connected c"
  shows "\<exists>s dl. sys_reach sim_env oor_amd64 sim_rng (init_system c 1 b) s \<and> wd_script (cl_world (sy_client s)) = []
    \<and> sy_phase s = PhDwelling dl \<and> \<not> cl_connected (sy_client s) \<and> ds_threshold (sy_disp s) = 1
    \<and> ds_consecutiveErrs (sy_disp s) = 1 \<and> \<not> ds_pending (sy_disp s)"
proof -
  define s1 where "s1 = set_client ((sy_client (init_system c 1 b))\<lparr>cl_metrics := cl_metrics c, cl_world := sim_world zero_regs [Some reset_error]\<rparr>) (init_system c 1 b)"
  define s2 where "s2 = s1\<lparr>sy_disp := snd (ds_WriteHolding (client_port sim_env) 0 0 (sy_disp s1))\<rparr>"
  define s3 where "s3 = s2\<lparr>sy_disp := (sy_disp s2)\<lparr>ds_pending := False\<rparr>, sy_phase := PhTriggered\<rparr>"
  obtain e c2 where l: "WriteHolding sim_env 0 0 (sy_client s1) = (Some e, c2)" "wd_script (cl_world c2) = []"
    using sim_write_fails [of "sy_client s1" reset_error 0 0] assms
    by (auto simp: s1_def set_client_def sim_world_def init_system_def)
  have s2: "sy_client s2 = c2" "ds_pending (sy_disp s2)" "sy_phase s2 = PhWaiting" "ds_threshold (sy_disp s2) = 1"
      "ds_consecutiveErrs (sy_disp s2) = 1"
    using l by (simp_all add: s2_def s1_def set_client_def ds_WriteHolding_def client_port_def recordOutcome_def Trigger_def init_system_def)
  obtain err c3 where f: "ForceClose sim_env (sy_client s3) = (err, c3)" by (cases "ForceClose sim_env (sy_client s3)")
  obtain dl c4 b4 where y: "sv_delay oor_amd64 sim_rng (c3, sy_backoff s3) = (dl, c4, b4)" by (rule prod_cases3)
  define s4 where "s4 = (set_client c4 s3)\<lparr>sy_backoff := b4, sy_phase := PhDwelling dl\<rparr>"
  have c4: "\<not> cl_connected c4" "wd_script (cl_world c4) = []"
    using sim_redial(1) [OF y] sim_redial(2) [OF f] ForceClose_down [OF f] l(2) s2(1) by (simp_all add: s3_def)
  have "sim_step (init_system c 1 b) s1" unfolding s1_def by (rule sys_step.world) (simp add: init_system_def)
  moreover have "sim_step s1 s2" unfolding s2_def by (rule write_step)
  moreover have "sim_step s2 s3" unfolding s3_def by (rule sys_step.supervised [OF sup_step.receive]) (rule s2)+
  moreover have "sim_step s3 s4"
    unfolding s4_def by (rule sys_step.supervised [OF sup_step.force_close [OF _ f y]]) (simp add: s3_def)
  ultimately have "sys_reach sim_env oor_amd64 sim_rng (init_system c 1 b) s4"
    by (rule sys_reach.step [OF sys_reach.step [OF sys_reach.step [OF sys_reach.step [OF sys_reach.refl]]]])
  then show ?thesis using c4 s2(4,5) by (intro exI [of _ s4] exI [of _ dl]) (simp add: s4_def s3_def set_client_def)
qed

lemma sim_recovers:
  assumes "cl_connected c"
  shows "\<exists>s t. sys_reach sim_env oor_amd64 sim_rng (init_system c 1 b) s \<and> \<not> cl_connected (sy_client s)
    \<and> dial_answers sim_env s \<and> sy_phase s \<noteq> PhStopped \<and> sim_step s t \<and> sim_calm t"
proof -
  obtain s dl where s: "sys_reach sim_env oor_amd64 sim_rng (init_system c 1 b) s" "wd_script (cl_world (sy_client s)) = []"
      "sy_phase s = PhDwelling dl" "\<not> cl_connected (sy_client s)" "\<not> ds_pending (sy_disp s)"
    using sim_lost [OF assms] by blast
  obtain c5 where a: "sv_attempt sim_env (sy_client s, sy_backoff s) = (True, c5, bo_Reset (sy_backoff s))"
      "usable (\<lambda>w. wd_script w = []) c5"
    using sim_redial(3) [OF s(4,2)] by blast
  define t where "t = (set_client c5 s)\<lparr>sy_backoff := bo_Reset (sy_backoff s), sy_phase := PhWaiting\<rparr>"
  have "sim_step s t" unfolding t_def by (rule sys_step.supervised [OF sup_step.reconnected [OF s(3) a(1)]])
  moreover have "sim_calm t" using s(5) a(2) by (simp add: sim_calm_def t_def set_client_def)
  moreover have "dial_answers sim_env s" by (rule sim_dials) (rule s(2))
  ultimately show ?thesis using s by (intro exI [of _ s] exI [of _ t]) simp
qed

theorem connection_recovers_witness:
  "\<exists>\<sigma>. fair_run sim_env oor_amd64 sim_rng \<sigma> \<and> \<not> Connected (sy_client (\<sigma> 0))
     \<and> (\<exists>j \<ge> 7. Connected (sy_client (\<sigma> j)))"
proof -
  obtain c b where st: "supervisor_Start sim_env oor_amd64 sim_rng
      (NewClient sim_cfg metrics0 (sim_world zero_regs []), NewBackoffWithRand default_reconnect) = Some (Inr (c, b))"
    using sim_start by blast
  have "cl_connected c" using supervisor_Start_wf [OF st] by (rule conjunct2)
  then obtain s t where s: "sys_reach sim_env oor_amd64 sim_rng (init_system c 1 b) s" "\<not> cl_connected (sy_client s)"
      "dial_answers sim_env s" "sy_phase s \<noteq> PhStopped" "sim_step s t" "sim_calm t"
    using sim_recovers by blast
  have calm: "sim_calm (recovered s t (Suc n))" for n using writes_calm [OF s(6)] by (simp add: recovered_def)
  have run: "fair_run sim_env oor_amd64 sim_rng (recovered s t)" by (rule recovered_fair [OF s(5,6)])
  have 0: "recovered s t 0 = s" by (simp add: recovered_def)
  have "sy_phase (recovered s t i) \<noteq> PhStopped" for i
    using s(4) 0 calm [of "i - 1"] by (cases i) (simp_all add: sim_calm_def)
  moreover have "dial_answers sim_env (recovered s t i)" for i
    using s(3) 0 sim_calm_dials [OF calm] by (cases i) simp_all
  ultimately have "\<exists>j \<ge> 7. Connected (sy_client (recovered s t j))"
    using connection_recovers [OF st _ _ run, of 1 0 7] s(1) by (simp add: 0)
  with run s(2) show ?thesis by (intro exI [of _ "recovered s t"]) (simp add: 0 Connected_def)
qed

end
