(* ===== verification/Livelock.thy ===== *)
theory Livelock
  imports Recovery
begin

text \<open>
  A lost connection may come back for ever without coming back to use. While the supervisor dwells, a call
  of the dispatcher that fails raises a trigger again, since the count of failures is past the threshold;
  the trigger outlives the redial and the supervisor closes the connection it has just opened. One
  failed call per dwell is enough, and nothing relates \<^verbatim>\<open>RECONNECT_MIN_DELAY\<close>, to which every successful
  redial resets the delay, to \<^verbatim>\<open>POLL_HOT_INTERVAL\<close>. What \<open>connection_recovers\<close> promises is therefore all
  that holds: the connection is up again and again.
\<close>

subsection \<open>An environment in good health\<close>

definition healthy :: "'w ModbusEnv \<Rightarrow> ('w \<Rightarrow> f64 \<times> 'w) \<Rightarrow> ('w \<Rightarrow> bool) \<Rightarrow> bool" where
  "healthy E rng up \<longleftrightarrow> responsive E up
     \<and> (\<forall>cfg w. up w \<longrightarrow> (\<exists>h w'. me_dial E cfg w = (Inr h, w') \<and> up w'))
     \<and> (\<forall>h w. up w \<longrightarrow> up (snd (me_close E h w))) \<and> (\<forall>w. up w \<longrightarrow> up (snd (rng w)))"

lemma healthy_dial:
  assumes "healthy E rng up" and "up w"
  obtains h w' where "me_dial E cfg w = (Inr h, w')" "up w'"
  using assms unfolding healthy_def by blast

lemma healthy_attempt:
  assumes H: "healthy E rng up" and u: "up (cl_world c)"
  obtains c' where "sv_attempt E (c, b) = (True, c', bo_Reset b)" "cl_connected c'" "up (cl_world c')"
proof (cases "cl_connected c")
  case True
  then show ?thesis by (intro that [of c]) (simp_all add: sv_attempt_def Connect_def u)
next
  case False
  obtain h w' where "me_dial E (cl_cfg c) (cl_world c) = (Inr h, w')" "up w'"
    by (rule healthy_dial [OF H u])
  with False show ?thesis
    by (intro that) (auto simp: sv_attempt_def Connect_def Let_def)
qed

lemma healthy_close:
  assumes "healthy E rng up" and "up (cl_world c)"
  shows "up (cl_world (snd (ForceClose E c)))"
  using assms by (simp add: ForceClose_def Let_def healthy_def split: option.split)

lemma healthy_delay:
  assumes "healthy E rng up" and "up (cl_world c)" and "sv_delay oor rng (c, b) = (dl, c', b')"
  shows "up (cl_world c')"
  using assms by (auto simp: sv_delay_def Let_def healthy_def split: prod.splits if_splits dest: spec [of _ "cl_world c"])

subsection \<open>The lap\<close>

text \<open>
  A poll reads and fails, the redial succeeds, the trigger is received, the connection is closed. \<open>sup_acts\<close>
  is what the supervisor does next.
\<close>

definition poll_fails :: "'w ModbusEnv \<Rightarrow> 'w System \<Rightarrow> 'w System" where
  "poll_fails E s = s\<lparr>sy_disp := snd (ds_ReadInput (client_port E) 0 1 (sy_disp s))\<rparr>"

definition sup_acts :: "'w ModbusEnv \<Rightarrow> (f64 \<Rightarrow> int) \<Rightarrow> ('w \<Rightarrow> f64 \<times> 'w) \<Rightarrow> 'w System \<Rightarrow> 'w System" where
  "sup_acts E oor rng s =
     (case sy_phase s of
        PhWaiting \<Rightarrow> s\<lparr>sy_disp := (sy_disp s)\<lparr>ds_pending := False\<rparr>, sy_phase := PhTriggered\<rparr>
      | PhTriggered \<Rightarrow> (case sv_delay oor rng (snd (ForceClose E (sy_client s)), sy_backoff s) of
          (dl, c, b) \<Rightarrow> (set_client c s)\<lparr>sy_backoff := b, sy_phase := PhDwelling dl\<rparr>)
      | PhDwelling dl \<Rightarrow> (case sv_attempt E (sy_client s, sy_backoff s) of
          (ok, c, b) \<Rightarrow> (set_client c s)\<lparr>sy_backoff := b, sy_phase := PhWaiting\<rparr>)
      | PhStopped \<Rightarrow> s)"

definition lap :: "'w ModbusEnv \<Rightarrow> (f64 \<Rightarrow> int) \<Rightarrow> ('w \<Rightarrow> f64 \<times> 'w) \<Rightarrow> nat \<Rightarrow> 'w System \<Rightarrow> 'w System" where
  "lap E oor rng i s = (if i mod 4 = 0 then poll_fails E s else sup_acts E oor rng s)"

primrec laps :: "'w ModbusEnv \<Rightarrow> (f64 \<Rightarrow> int) \<Rightarrow> ('w \<Rightarrow> f64 \<times> 'w) \<Rightarrow> 'w System \<Rightarrow> nat \<Rightarrow> 'w System" where
  "laps E oor rng s 0 = s"
| "laps E oor rng s (Suc i) = lap E oor rng i (laps E oor rng s i)"

text \<open>Where a run of laps is after each of its four steps.\<close>

definition on_lap :: "('w \<Rightarrow> bool) \<Rightarrow> nat \<Rightarrow> 'w System \<Rightarrow> bool" where
  "on_lap up i s \<longleftrightarrow> up (cl_world (sy_client s)) \<and> ds_threshold (sy_disp s) \<le> ds_consecutiveErrs (sy_disp s)
     \<and> (if i mod 4 = 0 then (\<exists>dl. sy_phase s = PhDwelling dl) \<and> \<not> cl_connected (sy_client s)
        else if i mod 4 = 1 then (\<exists>dl. sy_phase s = PhDwelling dl) \<and> \<not> cl_connected (sy_client s) \<and> ds_pending (sy_disp s)
        else if i mod 4 = 2 then sy_phase s = PhWaiting \<and> cl_connected (sy_client s) \<and> ds_pending (sy_disp s)
        else sy_phase s = PhTriggered \<and> cl_connected (sy_client s))"

lemma poll_fails_call: "ds_call E (sy_disp s) (sy_disp (poll_fails E s))"
  by (rule ds_call.ds_input [of E 0 1 "sy_disp s" "fst (ds_ReadInput (client_port E) 0 1 (sy_disp s))"]) (simp add: poll_fails_def)

lemma poll_fails_down:
  assumes "\<not> cl_connected (sy_client s)" and "ds_threshold (sy_disp s) \<le> ds_consecutiveErrs (sy_disp s)"
  shows "sy_client (poll_fails E s) = sy_client s" "ds_pending (sy_disp (poll_fails E s))"
    "ds_threshold (sy_disp (poll_fails E s)) = ds_threshold (sy_disp s)"
    "ds_threshold (sy_disp s) \<le> ds_consecutiveErrs (sy_disp (poll_fails E s))" "sy_phase (poll_fails E s) = sy_phase s"
proof -
  obtain r d where c: "ds_ReadInput (client_port E) 0 1 (sy_disp s) = (r, d)" by fastforce
  have e: "err_of r \<noteq> None" "ds_client d = sy_client s" using ds_call_shape(1) [OF c] assms(1) by auto
  have "d = recordOutcome (err_of r) ((sy_disp s)\<lparr>ds_client := client_step E (OpReadInput 0 1) (sy_client s)\<rparr>)"
    using ds_call_shape(1) [OF c] by simp
  then have "ds_pending d" "ds_consecutiveErrs d = ds_consecutiveErrs (sy_disp s) + 1" "ds_threshold d = ds_threshold (sy_disp s)"
    using e(1) assms(2) by (simp_all add: recordOutcome_failed)
  with e(2) assms(2) show "sy_client (poll_fails E s) = sy_client s" "ds_pending (sy_disp (poll_fails E s))"
    "ds_threshold (sy_disp (poll_fails E s)) = ds_threshold (sy_disp s)"
    "ds_threshold (sy_disp s) \<le> ds_consecutiveErrs (sy_disp (poll_fails E s))" "sy_phase (poll_fails E s) = sy_phase s"
    by (simp_all add: poll_fails_def c)
qed

lemma sup_acts_dwelling:
  assumes H: "healthy E rng up" and s: "on_lap up 1 s"
  shows "sup_step E oor rng s (sup_acts E oor rng s) \<and> on_lap up 2 (sup_acts E oor rng s)"
proof -
  obtain dl where d: "sy_phase s = PhDwelling dl" "up (cl_world (sy_client s))" using s by (auto simp: on_lap_def)
  obtain c where a: "sv_attempt E (sy_client s, sy_backoff s) = (True, c, bo_Reset (sy_backoff s))" "cl_connected c" "up (cl_world c)"
    by (rule healthy_attempt [OF H d(2)])
  then have "sup_acts E oor rng s = (set_client c s)\<lparr>sy_backoff := bo_Reset (sy_backoff s), sy_phase := PhWaiting\<rparr>"
    by (simp add: sup_acts_def d(1))
  with a s sup_step.reconnected [OF d(1) a(1)] show ?thesis by (simp add: on_lap_def set_client_def)
qed

lemma sup_acts_waiting:
  assumes "on_lap up 2 s"
  shows "sup_step E oor rng s (sup_acts E oor rng s) \<and> on_lap up 3 (sup_acts E oor rng s)"
  using assms sup_step.receive [of s E oor rng] by (simp add: on_lap_def sup_acts_def)

lemma sup_acts_triggered:
  assumes H: "healthy E rng up" and s: "on_lap up 3 s"
  shows "sup_step E oor rng s (sup_acts E oor rng s) \<and> on_lap up 0 (sup_acts E oor rng s)"
proof -
  have p: "sy_phase s = PhTriggered" "up (cl_world (sy_client s))" using s by (simp_all add: on_lap_def)
  obtain err c where f: "ForceClose E (sy_client s) = (err, c)" by fastforce
  obtain dl c' b where y: "sv_delay oor rng (c, sy_backoff s) = (dl, c', b)" by (rule prod_cases3)
  have "sup_acts E oor rng s = (set_client c' s)\<lparr>sy_backoff := b, sy_phase := PhDwelling dl\<rparr>"
    by (simp add: sup_acts_def p(1) f y)
  moreover have "up (cl_world c)" using healthy_close [OF H p(2)] f by simp
  then have "up (cl_world c')" by (rule healthy_delay [OF H _ y])
  ultimately show ?thesis
    using sup_step.force_close [OF p(1) f y] s ForceClose_down [OF f] sv_delay_client [OF y] by (simp add: on_lap_def set_client_def)
qed

lemma mod4_cases:
  fixes i :: nat
  obtains "i mod 4 = 0" "Suc i mod 4 = 1" | "i mod 4 = 1" "Suc i mod 4 = 2" | "i mod 4 = 2" "Suc i mod 4 = 3"
    | "i mod 4 = 3" "Suc i mod 4 = 0"
proof -
  have "i mod 4 < 4" by simp
  then consider "i mod 4 = 0" | "i mod 4 = 1" | "i mod 4 = 2" | "i mod 4 = 3" by linarith
  then show thesis by cases (use that in \<open>simp_all add: mod_Suc\<close>)
qed

lemma on_lap_mod: "on_lap up (i mod 4) s = on_lap up i s"
  by (simp add: on_lap_def)

lemma lap_step:
  assumes H: "healthy E rng up" and s: "on_lap up i s"
  shows "on_lap up (Suc i) (lap E oor rng i s)"
    and "i mod 4 = 0 \<Longrightarrow> ds_call E (sy_disp s) (sy_disp (lap E oor rng i s)) \<and> lap E oor rng i s = s\<lparr>sy_disp := sy_disp (lap E oor rng i s)\<rparr>"
    and "i mod 4 \<noteq> 0 \<Longrightarrow> sup_step E oor rng s (lap E oor rng i s)"
proof -
  have m: "on_lap up (i mod 4) s" using s by (simp only: on_lap_mod)
  have "on_lap up (Suc i mod 4) (lap E oor rng i s) \<and> (i mod 4 \<noteq> 0 \<longrightarrow> sup_step E oor rng s (lap E oor rng i s))"
  proof (cases i rule: mod4_cases)
    case 1
    then show ?thesis using m poll_fails_down [of s E] by (auto simp: lap_def on_lap_def)
  next
    case 2
    then show ?thesis using m sup_acts_dwelling [OF H, of s oor] by (simp add: lap_def)
  next
    case 3
    then show ?thesis using m sup_acts_waiting [of up s E oor rng] by (simp add: lap_def)
  next
    case 4
    then show ?thesis using m sup_acts_triggered [OF H, of s oor] by (simp add: lap_def)
  qed
  then show "on_lap up (Suc i) (lap E oor rng i s)" "i mod 4 \<noteq> 0 \<Longrightarrow> sup_step E oor rng s (lap E oor rng i s)"
    unfolding on_lap_mod by blast+
  show "ds_call E (sy_disp s) (sy_disp (lap E oor rng i s)) \<and> lap E oor rng i s = s\<lparr>sy_disp := sy_disp (lap E oor rng i s)\<rparr>"
    if "i mod 4 = 0"
    using that poll_fails_call [of E s] by (simp add: lap_def poll_fails_def)
qed

lemma laps_on:
  assumes "healthy E rng up" and "on_lap up 0 s"
  shows "on_lap up i (laps E oor rng s i)"
  by (induction i) (simp_all add: assms(2) lap_step(1) [OF assms(1)])

lemma next_mod4: "r < 4 \<Longrightarrow> \<exists>j \<ge> i. j mod 4 = r" for i :: nat
  by (intro exI [of _ "4 * i + r"]) simp

lemma laps_fair:
  assumes H: "healthy E rng up" and s: "on_lap up 0 s"
  shows "fair_run E oor rng (laps E oor rng s)"
proof -
  let ?\<sigma> = "laps E oor rng s"
  note on = laps_on [OF H s]
  have call: "ds_call E (sy_disp (?\<sigma> i)) (sy_disp (?\<sigma> (Suc i))) \<and> ?\<sigma> (Suc i) = (?\<sigma> i)\<lparr>sy_disp := sy_disp (?\<sigma> (Suc i))\<rparr>"
    if "i mod 4 = 0" for i
    using lap_step(2) [OF H on that] by (simp only: laps.simps(2))
  have acts: "sup_step E oor rng (?\<sigma> i) (?\<sigma> (Suc i))" if "i mod 4 \<noteq> 0" for i
    using lap_step(3) [OF H on that] by (simp only: laps.simps(2))
  have "sys_step E oor rng (?\<sigma> i) (?\<sigma> (Suc i))" for i
  proof (cases "i mod 4 = 0")
    case True
    obtain r d where c: "ds_ReadInput (client_port E) 0 1 (sy_disp (?\<sigma> i)) = (r, d)" by fastforce
    with True have "?\<sigma> (Suc i) = (?\<sigma> i)\<lparr>sy_disp := d\<rparr>" by (simp add: lap_def poll_fails_def)
    with sys_step.read_input [OF c] show ?thesis by simp
  next
    case False
    then show ?thesis by (rule sys_step.supervised [OF acts])
  qed
  then have "run_of E oor rng ?\<sigma>" unfolding run_of_def by blast
  moreover have "\<exists>j \<ge> i. \<exists>d. ds_call E (sy_disp (?\<sigma> j)) d \<and> ?\<sigma> (Suc j) = (?\<sigma> j)\<lparr>sy_disp := d\<rparr>" for i
  proof -
    obtain j where "i \<le> j" "j mod 4 = 0" using next_mod4 [of 0 i] by auto
    with call [of j] show ?thesis by blast
  qed
  moreover have "\<exists>j \<ge> i. \<not> sup_ready (?\<sigma> j) \<or> sup_step E oor rng (?\<sigma> j) (?\<sigma> (Suc j))" for i
  proof -
    obtain j where "i \<le> j" "j mod 4 = 1" using next_mod4 [of 1 i] by auto
    with acts [of j] show ?thesis by (intro exI [of _ j]) simp
  qed
  ultimately show ?thesis unfolding fair_run_def by blast
qed

subsection \<open>Properties\<close>

text \<open>
  C30. Redialling can go on for ever although nothing is wrong any more. Take any state in which the
  supervisor dwells after a lost connection and the failures have reached the threshold, and let the
  controller be in good health from then on: every dial succeeds and every operation on an open connection
  is answered. Then there is an endless fair run in which the connection is opened again and again and
  closed again and again, not one operation succeeds, and the supervisor never settles.
\<close>

theorem reconnect_livelock:
  assumes "healthy E rng up" and "up (cl_world (sy_client s))" and "sy_phase s = PhDwelling dl" and "\<not> cl_connected (sy_client s)"
    and "0 < ds_threshold (sy_disp s)" and "ds_threshold (sy_disp s) \<le> ds_consecutiveErrs (sy_disp s)"
  shows "\<exists>\<sigma>. \<sigma> 0 = s \<and> fair_run E oor rng \<sigma> \<and> (\<forall>i. sy_phase (\<sigma> i) \<noteq> PhStopped)
    \<and> (\<forall>i. up (cl_world (sy_client (\<sigma> i))) \<and> dial_answers E (\<sigma> i))
    \<and> (\<forall>i. \<exists>j \<ge> i. Connected (sy_client (\<sigma> j))) \<and> (\<forall>i. \<exists>j \<ge> i. \<not> Connected (sy_client (\<sigma> j)))
    \<and> (\<forall>i. 0 < ds_consecutiveErrs (sy_disp (\<sigma> i)))"
proof -
  let ?\<sigma> = "laps E oor rng s"
  have s: "on_lap up 0 s" using assms(2-4,6) by (simp add: on_lap_def)
  note on = laps_on [OF assms(1) s, where oor = oor]
  have fair: "fair_run E oor rng ?\<sigma>" by (rule laps_fair [OF assms(1) s])
  have th: "ds_threshold (sy_disp (?\<sigma> i)) = ds_threshold (sy_disp s)" for i
    using run_threshold [OF fair_runD(1) [OF fair], of i] by simp
  have "sy_phase (?\<sigma> i) \<noteq> PhStopped" for i using on [of i] by (auto simp: on_lap_def split: if_splits)
  moreover have up: "up (cl_world (sy_client (?\<sigma> i)))" for i using on [of i] by (simp add: on_lap_def)
  have "dial_answers E (?\<sigma> i)" for i
    unfolding dial_answers_def by (rule healthy_dial [OF assms(1) up [of i]]) blast
  moreover have "0 < ds_consecutiveErrs (sy_disp (?\<sigma> i))" for i using on [of i] assms(5) th [of i] by (simp add: on_lap_def)
  moreover have "\<exists>j \<ge> i. Connected (sy_client (?\<sigma> j))" for i
  proof -
    obtain j where "i \<le> j" "j mod 4 = 2" using next_mod4 [of 2 i] by auto
    then show ?thesis using on [of j] by (intro exI [of _ j]) (simp add: on_lap_def Connected_def)
  qed
  moreover have "\<exists>j \<ge> i. \<not> Connected (sy_client (?\<sigma> j))" for i
  proof -
    obtain j where "i \<le> j" "j mod 4 = 0" using next_mod4 [of 0 i] by auto
    then show ?thesis using on [of j] by (intro exI [of _ j]) (simp add: on_lap_def Connected_def)
  qed
  ultimately show ?thesis using fair up by (intro exI [of _ ?\<sigma>]) simp
qed

subsection \<open>The simulated controller\<close>

lemma sim_healthy: "healthy sim_env sim_rng (\<lambda>w. wd_script w = [])"
  using sim_responsive by (simp add: healthy_def sim_env_def sim_dial_def sim_next_def sim_rng_def)

theorem reconnect_livelock_witness:
  "\<exists>c b s. sys_reach sim_env oor_amd64 sim_rng (init_system c 1 b) s
     \<and> (\<exists>\<sigma>. \<sigma> 0 = s \<and> fair_run sim_env oor_amd64 sim_rng \<sigma> \<and> (\<forall>i. dial_answers sim_env (\<sigma> i))
         \<and> (\<forall>i. 0 < ds_consecutiveErrs (sy_disp (\<sigma> i))))"
proof -
  obtain c b where st: "supervisor_Start sim_env oor_amd64 sim_rng
      (NewClient sim_cfg metrics0 (sim_world zero_regs []), NewBackoffWithRand default_reconnect) = Some (Inr (c, b))"
    using sim_start by blast
  have "cl_connected c" using supervisor_Start_wf [OF st] by (rule conjunct2)
  then obtain s dl where s: "sys_reach sim_env oor_amd64 sim_rng (init_system c 1 b) s" "wd_script (cl_world (sy_client s)) = []"
      "sy_phase s = PhDwelling dl" "\<not> cl_connected (sy_client s)" "ds_threshold (sy_disp s) = 1" "ds_consecutiveErrs (sy_disp s) = 1"
    using sim_lost by blast
  have t: "0 < ds_threshold (sy_disp s)" "ds_threshold (sy_disp s) \<le> ds_consecutiveErrs (sy_disp s)" using s(5,6) by simp_all
  show ?thesis
    by (rule exI [of _ c], rule exI [of _ b], rule exI [of _ s])
      (use s(1) reconnect_livelock [OF sim_healthy s(2-4) t, of oor_amd64] in blast)
qed

end
