(* ===== verification/Entity.thy ===== *)
theory Entity
  imports ValueObjects "HOL-Library.List_Lexorder" "HOL-Library.Char_ord" "HOL-Library.Sublist"
begin

text \<open>
  The entities of \<^verbatim>\<open>domain/entity\<close>: the operating state, the device configuration, the set of
  active error flags and the snapshot of one poll cycle, each decoded from raw registers.
  The lemmas give the exact decoding: which codes are operations and which of them are
  transitional, the three nibbles of the configuration, and for the error flags the set of
  register bits that are reported.
\<close>

subsection \<open>Operating state (operating\_state.go)\<close>

type_synonym OperatingState = int

definition OpUnknown :: OperatingState where "OpUnknown = -1"
definition OpIdle :: OperatingState where "OpIdle = 0"
definition OpOpenDamper :: OperatingState where "OpOpenDamper = 1"
definition OpPreheatCalorifier :: OperatingState where "OpPreheatCalorifier = 2"
definition OpStartFan :: OperatingState where "OpStartFan = 3"
definition OpNorthStart :: OperatingState where "OpNorthStart = 4"
definition OpFanCoastdown :: OperatingState where "OpFanCoastdown = 5"
definition OpCloseDamper :: OperatingState where "OpCloseDamper = 6"
definition OpElectricCalorifierPurge :: OperatingState where "OpElectricCalorifierPurge = 7"
definition OpOpenHotWaterValve :: OperatingState where "OpOpenHotWaterValve = 8"
definition OpCloseHotWaterValve :: OperatingState where "OpCloseHotWaterValve = 9"
definition OpOpenColdValve :: OperatingState where "OpOpenColdValve = 10"
definition OpCloseColdValve :: OperatingState where "OpCloseColdValve = 11"
definition OpRotorSpinup :: OperatingState where "OpRotorSpinup = 12"

lemmas op_consts [enum_defs] =
  OpUnknown_def OpIdle_def OpOpenDamper_def OpPreheatCalorifier_def OpStartFan_def
  OpNorthStart_def OpFanCoastdown_def OpCloseDamper_def OpElectricCalorifierPurge_def
  OpOpenHotWaterValve_def OpCloseHotWaterValve_def OpOpenColdValve_def OpCloseColdValve_def
  OpRotorSpinup_def

definition AllOperatingStates :: "OperatingState list" where
  "AllOperatingStates =
     [OpIdle, OpOpenDamper, OpPreheatCalorifier, OpStartFan, OpNorthStart, OpFanCoastdown,
      OpCloseDamper, OpElectricCalorifierPurge, OpOpenHotWaterValve, OpCloseHotWaterValve,
      OpOpenColdValve, OpCloseColdValve, OpRotorSpinup]"

definition OperatingStateFromRegister :: "u16 \<Rightarrow> OperatingState" where
  "OperatingStateFromRegister raw =
     (let bits = raw AND 0x1F in if 12 < bits then OpUnknown else uint bits)"

definition OperatingState_String :: "OperatingState \<Rightarrow> string" where
  "OperatingState_String s =
     (if s = OpIdle then ''idle''
      else if s = OpOpenDamper then ''open_damper''
      else if s = OpPreheatCalorifier then ''preheat_calorifier''
      else if s = OpStartFan then ''start_fan''
      else if s = OpNorthStart then ''north_start''
      else if s = OpFanCoastdown then ''fan_coastdown''
      else if s = OpCloseDamper then ''close_damper''
      else if s = OpElectricCalorifierPurge then ''electric_calorifier_purge''
      else if s = OpOpenHotWaterValve then ''open_hot_water_valve''
      else if s = OpCloseHotWaterValve then ''close_hot_water_valve''
      else if s = OpOpenColdValve then ''open_cold_valve''
      else if s = OpCloseColdValve then ''close_cold_valve''
      else if s = OpRotorSpinup then ''rotor_spinup''
      else ''unknown'')"

definition IsTransitional :: "OperatingState \<Rightarrow> bool" where
  "IsTransitional s \<longleftrightarrow> s \<noteq> OpIdle \<and> s \<noteq> OpUnknown"

subsection \<open>Device configuration (device\_config.go)\<close>

type_synonym HeaterType = int
type_synonym CoolerType = int
type_synonym RecuperatorType = int

definition HeaterNone :: HeaterType where "HeaterNone = 0"
definition HeaterElectric :: HeaterType where "HeaterElectric = 1"
definition HeaterWater :: HeaterType where "HeaterWater = 2"
definition HeaterCombined :: HeaterType where "HeaterCombined = 3"
definition CoolerNone :: CoolerType where "CoolerNone = 0"
definition CoolerKKB :: CoolerType where "CoolerKKB = 1"
definition CoolerFancoil :: CoolerType where "CoolerFancoil = 2"
definition RecuperatorNone :: RecuperatorType where "RecuperatorNone = 0"
definition RecuperatorPlate :: RecuperatorType where "RecuperatorPlate = 1"
definition RecuperatorRotor :: RecuperatorType where "RecuperatorRotor = 2"

lemmas device_consts [enum_defs] =
  HeaterNone_def HeaterElectric_def HeaterWater_def HeaterCombined_def
  CoolerNone_def CoolerKKB_def CoolerFancoil_def
  RecuperatorNone_def RecuperatorPlate_def RecuperatorRotor_def

definition HeaterType_String :: "HeaterType \<Rightarrow> string" where
  "HeaterType_String h =
     (if h = HeaterNone then ''none'' else if h = HeaterElectric then ''electric_heater''
      else if h = HeaterWater then ''water_heater''
      else if h = HeaterCombined then ''combined_heater'' else ''unknown_heater'')"

definition CoolerType_String :: "CoolerType \<Rightarrow> string" where
  "CoolerType_String c =
     (if c = CoolerNone then ''none'' else if c = CoolerKKB then ''kkb_cooler''
      else if c = CoolerFancoil then ''fancoil_cooler'' else ''unknown_cooler'')"

definition RecuperatorType_String :: "RecuperatorType \<Rightarrow> string" where
  "RecuperatorType_String r =
     (if r = RecuperatorNone then ''none'' else if r = RecuperatorPlate then ''plate_recuperator''
      else if r = RecuperatorRotor then ''rotor_recuperator'' else ''unknown_recuperator'')"

record DeviceConfig =
  dc_Heater :: HeaterType
  dc_Cooler :: CoolerType
  dc_Recuperator :: RecuperatorType
  dc_Raw :: u16

definition DeviceConfigFromRegister :: "u16 \<Rightarrow> DeviceConfig" where
  "DeviceConfigFromRegister raw =
     (let heater = raw AND 0xF; cooler = drop_bit 4 raw AND 0xF; recup = drop_bit 8 raw AND 0xF in
      \<lparr>dc_Heater = uint heater, dc_Cooler = uint cooler, dc_Recuperator = uint recup, dc_Raw = raw\<rparr>)"

definition HasHeater :: "DeviceConfig \<Rightarrow> bool" where "HasHeater c \<longleftrightarrow> dc_Heater c \<noteq> HeaterNone"
definition HasCooler :: "DeviceConfig \<Rightarrow> bool" where "HasCooler c \<longleftrightarrow> dc_Cooler c \<noteq> CoolerNone"

definition HasRecuperator :: "DeviceConfig \<Rightarrow> bool" where
  "HasRecuperator c \<longleftrightarrow> dc_Recuperator c \<noteq> RecuperatorNone"

fun strings_Join :: "string list \<Rightarrow> string \<Rightarrow> string" where
  "strings_Join [] sep = ''''"
| "strings_Join [s] sep = s"
| "strings_Join (s # t # ts) sep = s @ sep @ strings_Join (t # ts) sep"

definition DeviceConfig_String :: "DeviceConfig \<Rightarrow> string" where
  "DeviceConfig_String c =
     (let parts0 = (if dc_Heater c \<noteq> HeaterNone then [HeaterType_String (dc_Heater c)] else []);
          parts1 = (if dc_Cooler c \<noteq> CoolerNone
                    then parts0 @ [CoolerType_String (dc_Cooler c)] else parts0);
          parts = (if dc_Recuperator c \<noteq> RecuperatorNone
                   then parts1 @ [RecuperatorType_String (dc_Recuperator c)] else parts1)
      in if parts = [] then ''none'' else strings_Join parts '', '')"

subsection \<open>Error flags (error\_code.go)\<close>

record ErrorBit =
  eb_Register :: string
  eb_Bit :: u8
  eb_Code :: string
  eb_Description :: string

type_synonym ErrorSet = "ErrorBit list"

definition Error3ReservedBit :: u8 where "Error3ReservedBit = 6"

definition err_def :: "string \<Rightarrow> u8 \<Rightarrow> string \<Rightarrow> string \<Rightarrow> ErrorBit" where
  "err_def r b c d = \<lparr>eb_Register = r, eb_Bit = b, eb_Code = c, eb_Description = d\<rparr>"

definition documentedErrors :: "ErrorBit list" where
  "documentedErrors =
     [err_def ''Error_Code'' 0 ''E00'' ''T1 sensor fault (open or short)'',
      err_def ''Error_Code'' 1 ''E01'' ''T2 sensor fault (open or short)'',
      err_def ''Error_Code'' 2 ''E02'' ''T3 sensor fault (open or short)'',
      err_def ''Error_Code'' 3 ''E03'' ''filter1 pressure sensor fault'',
      err_def ''Error_Code'' 4 ''E04'' ''filter1 100% clogged'',
      err_def ''Error_Code'' 5 ''E05'' ''no coolant in the system'',
      err_def ''Error_Code'' 6 ''E06'' ''freeze threat (water temperature below 5C)'',
      err_def ''Error_Code'' 7 ''E07'' ''freeze threat (capillary sensor)'',
      err_def ''Error_Code'' 8 ''E08'' ''freeze threat (air temperature below 5C)'',
      err_def ''Error_Code'' 9 ''E09'' ''fan1 pressure sensor fault'',
      err_def ''Error_Code'' 10 ''E10'' ''FAN1 FAULT'',
      err_def ''Error_Code'' 11 ''E11'' ''FIRE'',
      err_def ''Error_Code'' 13 ''E13'' ''CALORIFIER OVERHEAT'',
      err_def ''Error_Code'' 14 ''E14'' ''KKB1 pressure fault'',
      err_def ''Error_Code'' 15 ''E15'' ''KKB2 pressure fault'']"

definition undocumented :: "string \<Rightarrow> string \<Rightarrow> nat \<Rightarrow> ErrorBit" where
  "undocumented reg pre b =
     err_def reg (of_nat b) (pre @ ''_b'' @ dec_nat b)
       (''undocumented bit '' @ dec_nat b @ '' ('' @ reg @ '')'')"

definition buildErrorBitCatalog :: "ErrorBit list" where
  "buildErrorBitCatalog =
     documentedErrors
     @ map (undocumented ''Error_Code_1'' ''E1'') [0..<16]
     @ map (undocumented ''Error_Code_2'' ''E2'') [0..<16]
     @ map (undocumented ''Error_Code_3'' ''E3'')
         (filter (\<lambda>b. (of_nat b :: u8) \<noteq> Error3ReservedBit) [0..<16])"

definition errorBitCatalog :: "ErrorBit list" where "errorBitCatalog = buildErrorBitCatalog"

text \<open>The body of the loop of \<open>DecodeErrors\<close>: the register a definition reads, and its test.\<close>

definition error_raw :: "u16 \<Rightarrow> u16 \<Rightarrow> u16 \<Rightarrow> u16 \<Rightarrow> string \<Rightarrow> u16 option" where
  "error_raw e0 e1 e2 e3 reg =
     (if reg = ''Error_Code'' then Some e0
      else if reg = ''Error_Code_1'' then Some e1
      else if reg = ''Error_Code_2'' then Some e2
      else if reg = ''Error_Code_3'' then Some e3
      else None)"

fun DecodeErrors_loop :: "u16 \<Rightarrow> u16 \<Rightarrow> u16 \<Rightarrow> u16 \<Rightarrow> ErrorSet \<Rightarrow> ErrorBit list \<Rightarrow> ErrorSet" where
  "DecodeErrors_loop e0 e1 e2 e3 out [] = out"
| "DecodeErrors_loop e0 e1 e2 e3 out (d # ds) =
     (case error_raw e0 e1 e2 e3 (eb_Register d) of
        None \<Rightarrow> DecodeErrors_loop e0 e1 e2 e3 out ds
      | Some raw \<Rightarrow>
          if raw AND push_bit (unat (eb_Bit d)) 1 \<noteq> 0
          then DecodeErrors_loop e0 e1 e2 e3 (out @ [d]) ds
          else DecodeErrors_loop e0 e1 e2 e3 out ds)"

definition DecodeErrors :: "u16 \<Rightarrow> u16 \<Rightarrow> u16 \<Rightarrow> u16 \<Rightarrow> ErrorSet" where
  "DecodeErrors e0 e1 e2 e3 = DecodeErrors_loop e0 e1 e2 e3 [] errorBitCatalog"

definition ErrorSet_IsEmpty :: "ErrorSet \<Rightarrow> bool" where
  "ErrorSet_IsEmpty s \<longleftrightarrow> length s = 0"

definition ErrorSet_Codes :: "ErrorSet \<Rightarrow> string list" where
  "ErrorSet_Codes s = sort (map eb_Code s)"

definition ErrorSet_String :: "ErrorSet \<Rightarrow> string" where
  "ErrorSet_String s = strings_Join (ErrorSet_Codes s) '',''"

subsection \<open>Snapshot (controller.go)\<close>

text \<open>The fixed array \<^verbatim>\<open>[4]uint16\<close>.\<close>

record RawErrors =
  re0 :: u16
  re1 :: u16
  re2 :: u16
  re3 :: u16

record Snapshot =
  sn_Firmware :: FirmwareVersion
  sn_DeviceID :: u16
  sn_DeviceConfig :: DeviceConfig
  sn_PowerOn :: bool
  sn_Switching :: bool
  sn_HeatCapable :: bool
  sn_CoolCapable :: bool
  sn_CurrentMode :: Mode
  sn_Operation :: OperatingState
  sn_OperationTimeLeft :: duration
  sn_TargetTemp :: Temperature
  sn_RoomTemp :: Temperature
  sn_SupplyTemp :: Temperature
  sn_FanTarget1 :: u16
  sn_FanState1 :: u16
  sn_FanState2 :: u16
  sn_HeaterPWM :: bool
  sn_DamperOpen :: bool
  sn_PIDDemand :: u16
  sn_FilterPct :: int
  sn_Errors :: ErrorSet
  sn_RawErrors :: RawErrors
  sn_RoomHumidity :: u16
  sn_PolledAt :: gotime

definition zero_Snapshot :: Snapshot where
  "zero_Snapshot =
     \<lparr>sn_Firmware = \<lparr>fv_raw = 0\<rparr>, sn_DeviceID = 0,
      sn_DeviceConfig = \<lparr>dc_Heater = 0, dc_Cooler = 0, dc_Recuperator = 0, dc_Raw = 0\<rparr>,
      sn_PowerOn = False, sn_Switching = False, sn_HeatCapable = False, sn_CoolCapable = False,
      sn_CurrentMode = 0, sn_Operation = 0, sn_OperationTimeLeft = 0,
      sn_TargetTemp = zero_Temperature, sn_RoomTemp = zero_Temperature,
      sn_SupplyTemp = zero_Temperature, sn_FanTarget1 = 0, sn_FanState1 = 0, sn_FanState2 = 0,
      sn_HeaterPWM = False, sn_DamperOpen = False, sn_PIDDemand = 0, sn_FilterPct = 0,
      sn_Errors = [], sn_RawErrors = \<lparr>re0 = 0, re1 = 0, re2 = 0, re3 = 0\<rparr>,
      sn_RoomHumidity = 0, sn_PolledAt = zero_time\<rparr>"

definition IsHealthy :: "Snapshot \<Rightarrow> gotime \<Rightarrow> duration \<Rightarrow> bool" where
  "IsHealthy s now threshold \<longleftrightarrow> time_sub now (sn_PolledAt s) \<le> threshold"

definition DecodeErrorSet :: "Snapshot \<Rightarrow> ErrorSet" where
  "DecodeErrorSet s =
     DecodeErrors (re0 (sn_RawErrors s)) (re1 (sn_RawErrors s)) (re2 (sn_RawErrors s))
       (re3 (sn_RawErrors s))"

definition ParseLastTime :: "u16 \<Rightarrow> duration" where
  "ParseLastTime raw =
     (let mins = drop_bit 8 raw AND 0xFF; secs = raw AND 0xFF in
      uint mins * Minute + uint secs * Second)"

subsection \<open>Laws of the decoders\<close>

lemma OperatingState_decode:
  "OperatingStateFromRegister raw =
     (if unat raw mod 32 \<le> 12 then int (unat raw mod 32) else OpUnknown)"
  by (simp add: OperatingStateFromRegister_def Let_def word_less_nat_alt unat_low_bits uint_nat
      del: of_nat_unat)

lemma IsTransitional_decode:
  "IsTransitional (OperatingStateFromRegister raw) \<longleftrightarrow> unat raw mod 32 \<in> {1..12}"
  by (auto simp: IsTransitional_def OperatingState_decode enum_defs)

lemma OperatingState_range:
  "OperatingStateFromRegister raw \<in> set (OpUnknown # AllOperatingStates)"
proof -
  have "OperatingStateFromRegister raw \<in> {-1..12}"
    by (auto simp: OperatingState_decode enum_defs)
  moreover have "{-1..12} = set [-1..12]" by simp
  moreover have "set [-1..12] = set (OpUnknown # AllOperatingStates)" by code_simp
  ultimately show ?thesis by blast
qed

lemma DeviceConfig_decode:
  "DeviceConfigFromRegister raw =
     \<lparr>dc_Heater = int (unat raw mod 16), dc_Cooler = int (unat raw div 16 mod 16),
      dc_Recuperator = int (unat raw div 256 mod 16), dc_Raw = raw\<rparr>"
  by (simp add: DeviceConfigFromRegister_def Let_def uint_nat unat_low_bits unat_drop
      del: of_nat_unat)

lemma ParseLastTime_decode:
  "ParseLastTime raw = int (unat raw div 256 * 60 + unat raw mod 256) * Second"
proof -
  have "unat raw div 256 mod 256 = unat raw div 256" using unat16_less [of raw] by simp
  then show ?thesis
    by (simp add: ParseLastTime_def Let_def uint_nat unat_low_bits unat_drop enum_defs
        algebra_simps del: of_nat_unat)
qed

lemma zero_poll_unhealthy:
  assumes "int64_max \<le> now" and "threshold < int64_max"
  shows "\<not> IsHealthy zero_Snapshot now threshold"
  using assms by (simp add: IsHealthy_def zero_Snapshot_def time_sub_def zero_time_def
      int64_max_def int64_min_def)

subsection \<open>Laws of the error flags\<close>

definition flag_set :: "u16 \<Rightarrow> u16 \<Rightarrow> u16 \<Rightarrow> u16 \<Rightarrow> ErrorBit \<Rightarrow> bool" where
  "flag_set e0 e1 e2 e3 d =
     (case error_raw e0 e1 e2 e3 (eb_Register d) of None \<Rightarrow> False
      | Some raw \<Rightarrow> raw AND push_bit (unat (eb_Bit d)) 1 \<noteq> 0)"

lemma DecodeErrors_loop_filter:
  "DecodeErrors_loop e0 e1 e2 e3 out ds = out @ filter (flag_set e0 e1 e2 e3) ds"
  by (induction ds arbitrary: out) (auto simp: flag_set_def split: option.splits)

lemma DecodeErrors_filter: "DecodeErrors e0 e1 e2 e3 = filter (flag_set e0 e1 e2 e3) errorBitCatalog"
  by (simp add: DecodeErrors_def DecodeErrors_loop_filter)

text \<open>The catalog as the set of (register, bit) pairs it covers.\<close>

definition flag_key :: "ErrorBit \<Rightarrow> string \<times> nat" where
  "flag_key d = (eb_Register d, unat (eb_Bit d))"

lemma catalog_keys:
  "map flag_key errorBitCatalog =
     map (Pair ''Error_Code'') (filter (\<lambda>i. i \<noteq> 12) [0..<16])
     @ map (Pair ''Error_Code_1'') [0..<16] @ map (Pair ''Error_Code_2'') [0..<16]
     @ map (Pair ''Error_Code_3'') (filter (\<lambda>i. i \<noteq> 6) [0..<16])"
  by code_simp

lemma flag_set_key:
  assumes "flag_key d = (r, i)" and "i < 16"
  shows "flag_set e0 e1 e2 e3 d \<longleftrightarrow>
    (case error_raw e0 e1 e2 e3 r of None \<Rightarrow> False | Some raw \<Rightarrow> bit raw i)"
  using assms by (auto simp: flag_set_def flag_key_def and_exp_eq_0_iff_not_bit split: option.splits)

lemma catalog_bits_small: "d \<in> set errorBitCatalog \<Longrightarrow> snd (flag_key d) < 16"
proof -
  assume "d \<in> set errorBitCatalog"
  then have "flag_key d \<in> set (map flag_key errorBitCatalog)" by simp
  then show ?thesis by (auto simp: catalog_keys)
qed

lemma DecodeErrors_keys:
  "flag_key ` set (DecodeErrors e0 e1 e2 e3) =
     {(''Error_Code'', i) |i. bit e0 i \<and> i \<noteq> 12} \<union> {(''Error_Code_1'', i) |i. bit e1 i}
     \<union> {(''Error_Code_2'', i) |i. bit e2 i} \<union> {(''Error_Code_3'', i) |i. bit e3 i \<and> i \<noteq> 6}"
  (is "_ = ?rhs")
proof -
  let ?sel = "\<lambda>(r, i). case error_raw e0 e1 e2 e3 r of None \<Rightarrow> False | Some raw \<Rightarrow> bit raw i"
  have "flag_key ` set (DecodeErrors e0 e1 e2 e3) =
      {k \<in> set (map flag_key errorBitCatalog). ?sel k}"
  proof -
    have "flag_set e0 e1 e2 e3 d = ?sel (flag_key d)" if "d \<in> set errorBitCatalog" for d
      using flag_set_key [of d "fst (flag_key d)" "snd (flag_key d)"] catalog_bits_small [OF that]
      by (simp add: case_prod_unfold)
    then have "filter (flag_set e0 e1 e2 e3) errorBitCatalog = filter (?sel \<circ> flag_key) errorBitCatalog"
      by (intro filter_cong) auto
    then show ?thesis by (auto simp: DecodeErrors_filter)
  qed
  also have "\<dots> = ?rhs"
    unfolding catalog_keys by (auto simp: error_raw_def dest: bit_imp_less16)
  finally show ?thesis .
qed

subsection \<open>Properties\<close>

text \<open>
  C28. The error set of a snapshot holds exactly the flags that are set in the four error
  registers, except bit 12 of the first (which the catalog does not list) and the reserved bit
  6 of the last; they come in the order of the catalog, without repetition.
\<close>

theorem errors_decoded:
  "flag_key ` set (DecodeErrorSet s) =
     {(''Error_Code'', i) |i. bit (re0 (sn_RawErrors s)) i \<and> i \<noteq> 12}
     \<union> {(''Error_Code_1'', i) |i. bit (re1 (sn_RawErrors s)) i}
     \<union> {(''Error_Code_2'', i) |i. bit (re2 (sn_RawErrors s)) i}
     \<union> {(''Error_Code_3'', i) |i. bit (re3 (sn_RawErrors s)) i \<and> i \<noteq> 6}
   \<and> subseq (DecodeErrorSet s) errorBitCatalog \<and> distinct (map flag_key (DecodeErrorSet s))"
proof -
  have sub: "subseq (DecodeErrorSet s) errorBitCatalog"
    by (simp add: DecodeErrorSet_def DecodeErrors_filter subseq_filter_left)
  have "distinct (map flag_key errorBitCatalog)" by code_simp
  then have "distinct (map flag_key (DecodeErrorSet s))"
    by (simp add: DecodeErrorSet_def DecodeErrors_filter distinct_map_filter)
  with sub show ?thesis by (simp add: DecodeErrorSet_def DecodeErrors_keys)
qed

text \<open>
  The operation code is the low five bits of its register; the thirteen known codes decode
  to their state and any other to unknown, and commands are held back exactly for codes 1 to 12.
\<close>

lemma operation_decoded:
  "OperatingStateFromRegister raw = (if unat raw mod 32 \<le> 12 then int (unat raw mod 32) else OpUnknown)
   \<and> (IsTransitional (OperatingStateFromRegister raw) \<longleftrightarrow> unat raw mod 32 \<in> {1..12})"
  using OperatingState_decode IsTransitional_decode by blast

end
