(* ===== verification/PollController.thy ===== *)
theory PollController
  imports Catalog Entity Device "HOL-Library.Sublist"
begin

text \<open>
  \<^verbatim>\<open>application/usecase/poll_controller.go\<close>: the three tier reads. The dispatcher and the clock
  the use case is built on are the record \<open>PollOps\<close>; \<open>poll_ops\<close> is the instance on the
  dispatcher of this development. The views \<open>hot_view\<close>, \<open>medium_view\<close> and \<open>slow_view\<close> state
  what a tier means in terms of register addresses; the locale \<open>register_source\<close> is the
  interface under which a poll returns its view, interpreted on the dispatcher over the client.
\<close>

record 's PollOps =
  po_ReadInput :: "u16 \<Rightarrow> u16 \<Rightarrow> 's \<Rightarrow> (go_error + u16 list) \<times> 's"
  po_ReadHolding :: "u16 \<Rightarrow> u16 \<Rightarrow> 's \<Rightarrow> (go_error + u16 list) \<times> 's"
  po_Now :: "'s \<Rightarrow> gotime \<times> 's"

subsection \<open>The polls\<close>

definition signedTempFromRaw :: "u16 \<Rightarrow> Temperature" where
  "signedTempFromRaw raw =
     (let c = f_div (f64_of_int (sint raw)) 10 in
      case c of
        NaN \<Rightarrow> zero_Temperature
      | Inf _ \<Rightarrow> zero_Temperature
      | Fin _ \<Rightarrow> (case NewTemperature c of Inl _ \<Rightarrow> zero_Temperature | Inr t \<Rightarrow> t))"

text \<open>
  One batch read of a poll: the error of the read is wrapped with the label of the batch, and
  a reply of another length is refused.
\<close>

definition poll_read ::
  "string \<Rightarrow> nat \<Rightarrow> ('s \<Rightarrow> (go_error + u16 list) \<times> 's) \<Rightarrow> 's \<Rightarrow> (go_error + u16 list) \<times> 's" where
  "poll_read label n rd s =
     (case rd s of
        (Inl err, s1) \<Rightarrow> (Inl (Wrapf label [err]), s1)
      | (Inr regs, s1) \<Rightarrow>
          if length regs \<noteq> n
          then (Inl (Wrapf (label @ '': got '' @ dec_nat (length regs) @ '' regs'') [ErrUnexpectedReadLength]), s1)
          else (Inr regs, s1))"

text \<open>The three batches of a tier, in the order of the source; the first failure ends the poll.\<close>

definition three_reads ::
  "('s \<Rightarrow> (go_error + u16 list) \<times> 's) \<Rightarrow> ('s \<Rightarrow> (go_error + u16 list) \<times> 's) \<Rightarrow>
     ('s \<Rightarrow> (go_error + u16 list) \<times> 's) \<Rightarrow> 's \<Rightarrow>
     (go_error + u16 list \<times> u16 list \<times> u16 list) \<times> 's" where
  "three_reads r1 r2 r3 s =
     (case r1 s of
        (Inl e, s1) \<Rightarrow> (Inl e, s1)
      | (Inr in1, s1) \<Rightarrow>
          (case r2 s1 of
             (Inl e, s2) \<Rightarrow> (Inl e, s2)
           | (Inr in2, s2) \<Rightarrow>
               (case r3 s2 of
                  (Inl e, s3) \<Rightarrow> (Inl e, s3)
                | (Inr hold, s3) \<Rightarrow> (Inr (in1, in2, hold), s3))))"

text \<open>The number of registers the client accepts in a read; what a poll asks for is such a batch.\<close>

definition batch :: "u16 \<Rightarrow> bool" where
  "batch n \<longleftrightarrow> n \<noteq> 0 \<and> n \<le> maxRegistersPerRead"

text \<open>After the reads the clock is read once and the partial snapshot is built.\<close>

definition stamp_poll ::
  "'s PollOps \<Rightarrow> (u16 list \<Rightarrow> u16 list \<Rightarrow> u16 list \<Rightarrow> gotime \<Rightarrow> Snapshot) \<Rightarrow>
     (go_error + u16 list \<times> u16 list \<times> u16 list) \<times> 's \<Rightarrow> (go_error + Snapshot) \<times> 's" where
  "stamp_poll P mk res =
     (case res of
        (Inl err, s1) \<Rightarrow> (Inl err, s1)
      | (Inr (in1, in2, hold), s1) \<Rightarrow>
          (case po_Now P s1 of (now, s2) \<Rightarrow> (Inr (mk in1 in2 hold now), s2)))"

definition hot_snapshot :: "u16 list \<Rightarrow> u16 list \<Rightarrow> u16 list \<Rightarrow> gotime \<Rightarrow> Snapshot" where
  "hot_snapshot in1 in2 hold now =
     (let state0 = in1 ! 0; state1 = in1 ! 1; dout = in1 ! 14;
          snap = zero_Snapshot\<lparr>
            sn_PowerOn := state0 AND push_bit 0 1 \<noteq> 0,
            sn_Switching := state0 AND push_bit 1 1 \<noteq> 0,
            sn_HeatCapable := state0 AND push_bit 6 1 \<noteq> 0,
            sn_CoolCapable := state0 AND push_bit 7 1 \<noteq> 0,
            sn_Operation := OperatingStateFromRegister state1,
            sn_OperationTimeLeft := ParseLastTime (in1 ! 4),
            sn_SupplyTemp := signedTempFromRaw (in1 ! 7),
            sn_FilterPct := sint (in1 ! 12),
            sn_HeaterPWM := 0 < dout AND 0x3,
            sn_DamperOpen := dout AND 0x20 \<noteq> 0,
            sn_PIDDemand := in1 ! 16,
            sn_FanState1 := in2 ! 0,
            sn_FanState2 := in2 ! 5,
            sn_TargetTemp := TemperatureFromRaw (hold ! 0),
            sn_FanTarget1 := hold ! 1,
            sn_PolledAt := now\<rparr>
      in snap\<lparr>sn_RawErrors := (sn_RawErrors snap)\<lparr>re0 := in1 ! 2, re1 := in1 ! 3\<rparr>\<rparr>)"

definition PollHot :: "'s PollOps \<Rightarrow> 's \<Rightarrow> (go_error + Snapshot) \<times> 's" where
  "PollHot P s =
     stamp_poll P hot_snapshot (three_reads (poll_read ''poll_hot read i2..i18'' 17 (po_ReadInput P 2 17))
             (poll_read ''poll_hot read i25..i30'' 6 (po_ReadInput P 25 6))
             (poll_read ''poll_hot read h31..h32'' 2 (po_ReadHolding P 31 2)) s)"

definition medium_snapshot :: "u16 list \<Rightarrow> u16 list \<Rightarrow> u16 list \<Rightarrow> gotime \<Rightarrow> Snapshot" where
  "medium_snapshot in1 in2 hold now =
     (let snap = zero_Snapshot\<lparr>
            sn_RoomTemp := signedTempFromRaw (in1 ! 0),
            sn_RoomHumidity := in1 ! 1,
            sn_CurrentMode := ModeFromRegister (hold ! 0),
            sn_PolledAt := now\<rparr>
      in snap\<lparr>sn_RawErrors := (sn_RawErrors snap)\<lparr>re2 := in2 ! 0, re3 := in2 ! 1\<rparr>\<rparr>)"

definition PollMedium :: "'s PollOps \<Rightarrow> 's \<Rightarrow> (go_error + Snapshot) \<times> 's" where
  "PollMedium P s =
     stamp_poll P medium_snapshot (three_reads (poll_read ''poll_medium read i57..i58'' 2 (po_ReadInput P 57 2))
             (poll_read ''poll_medium read i69..i70'' 2 (po_ReadInput P 69 2))
             (poll_read ''poll_medium read h86'' 1 (po_ReadHolding P 86 1)) s)"

definition slow_snapshot :: "u16 list \<Rightarrow> u16 list \<Rightarrow> u16 list \<Rightarrow> gotime \<Rightarrow> Snapshot" where
  "slow_snapshot in1 in2 hold now =
     zero_Snapshot\<lparr>
       sn_Firmware := FirmwareFromRaw (in1 ! 0),
       sn_DeviceID := in2 ! 0,
       sn_DeviceConfig := DeviceConfigFromRegister (hold ! 0),
       sn_PolledAt := now\<rparr>"

definition PollSlow :: "'s PollOps \<Rightarrow> 's \<Rightarrow> (go_error + Snapshot) \<times> 's" where
  "PollSlow P s =
     stamp_poll P slow_snapshot (three_reads (poll_read ''poll_slow read i0'' 1 (po_ReadInput P 0 1))
             (poll_read ''poll_slow read i79'' 1 (po_ReadInput P 79 1))
             (poll_read ''poll_slow read h0'' 1 (po_ReadHolding P 0 1)) s)"

lemmas polls [op_defs] = PollHot_def PollMedium_def PollSlow_def


subsection \<open>What a tier means, by register address\<close>

definition sensor_view :: "u16 \<Rightarrow> Temperature" where
  "sensor_view raw =
     (if 50 \<le> sint raw \<and> sint raw \<le> 300 then \<lparr>celsius = round64 (of_int (sint raw) / 10)\<rparr>
      else zero_Temperature)"

definition hot_view :: "RegFile \<Rightarrow> gotime \<Rightarrow> Snapshot" where
  "hot_view d t = zero_Snapshot\<lparr>
     sn_PowerOn := bit (rf_in d 2) 0, sn_Switching := bit (rf_in d 2) 1,
     sn_HeatCapable := bit (rf_in d 2) 6, sn_CoolCapable := bit (rf_in d 2) 7,
     sn_Operation := OperatingStateFromRegister (rf_in d 3),
     sn_OperationTimeLeft := ParseLastTime (rf_in d 6),
     sn_SupplyTemp := sensor_view (rf_in d 9),
     sn_FilterPct := sint (rf_in d 14),
     sn_HeaterPWM := bit (rf_in d 16) 0 \<or> bit (rf_in d 16) 1,
     sn_DamperOpen := bit (rf_in d 16) 5,
     sn_PIDDemand := rf_in d 18, sn_FanState1 := rf_in d 25, sn_FanState2 := rf_in d 30,
     sn_TargetTemp := TemperatureFromRaw (rf_hold d 31), sn_FanTarget1 := rf_hold d 32,
     sn_RawErrors := \<lparr>re0 = rf_in d 4, re1 = rf_in d 5, re2 = 0, re3 = 0\<rparr>,
     sn_PolledAt := t\<rparr>"

definition medium_view :: "RegFile \<Rightarrow> gotime \<Rightarrow> Snapshot" where
  "medium_view d t = zero_Snapshot\<lparr>
     sn_RoomTemp := sensor_view (rf_in d 57), sn_RoomHumidity := rf_in d 58,
     sn_CurrentMode := ModeFromRegister (rf_hold d 86),
     sn_RawErrors := \<lparr>re0 = 0, re1 = 0, re2 = rf_in d 69, re3 = rf_in d 70\<rparr>,
     sn_PolledAt := t\<rparr>"

definition slow_view :: "RegFile \<Rightarrow> gotime \<Rightarrow> Snapshot" where
  "slow_view d t = zero_Snapshot\<lparr>
     sn_Firmware := FirmwareFromRaw (rf_in d 0), sn_DeviceID := rf_in d 79,
     sn_DeviceConfig := DeviceConfigFromRegister (rf_hold d 0), sn_PolledAt := t\<rparr>"

lemma sint16_range: "\<bar>sint (w :: u16)\<bar> \<le> 65535"
  using sint_ge [of w] sint_lt [of w] by auto

lemma signedTempFromRaw_view: "signedTempFromRaw raw = sensor_view raw"
proof -
  let ?n = "sint raw" and ?c = "f_div (f64_of_int (sint raw)) 10"
  note b = sint16_range [of raw]
  have F: "f64_of_int ?n = Fin (of_int ?n)"
    unfolding f64_of_int_def by (rule round64_of_int) (use b in simp)
  have ten: "temperatureScale = 10" by (simp add: temperatureScale_def)
  obtain x where x: "?c = Fin x" using tenths_Fin [OF b] unfolding ten by blast
  have ok: "(\<exists>t. NewTemperature ?c = Inr t) \<longleftrightarrow> 50 \<le> ?n \<and> ?n \<le> 300"
    using NewTemperature_tenths [OF b] unfolding ten .
  have c: "?c = round64 (of_int ?n / 10)" by (simp add: F)
  show ?thesis
  proof (cases "NewTemperature ?c")
    case (Inl e)
    then have "\<not> (50 \<le> ?n \<and> ?n \<le> 300)" using ok by auto
    moreover have "signedTempFromRaw raw = zero_Temperature"
      using Inl x by (simp add: signedTempFromRaw_def)
    ultimately show ?thesis by (auto simp: sensor_view_def)
  next
    case (Inr t)
    then have "50 \<le> ?n \<and> ?n \<le> 300" and "t = \<lparr>celsius = ?c\<rparr>"
      using ok by (auto simp: NewTemperature_ok_iff)
    moreover have "signedTempFromRaw raw = t" using Inr x by (simp add: signedTempFromRaw_def)
    ultimately show ?thesis by (simp add: sensor_view_def c)
  qed
qed

lemma nth_regs_from [simp]: "i < unat n \<Longrightarrow> regs_from m a n ! i = m (a + of_nat i)"
  by (simp add: regs_from_def)

lemma and_bit_test: "w AND push_bit n 1 \<noteq> 0 \<longleftrightarrow> bit w n" for w :: u16
  by (simp add: bit_iff_and_push_bit_not_eq_0)

lemma and_low2_test: "0 < w AND 0x3 \<longleftrightarrow> bit w 0 \<or> bit w 1" for w :: u16
proof -
  have "w AND 3 = 0 \<longleftrightarrow> \<not> bit w 0 \<and> \<not> bit w 1"
  proof
    assume "w AND 3 = 0"
    then have "\<not> bit (w AND 3) 0" "\<not> bit (w AND 3) 1" by simp_all
    then show "\<not> bit w 0 \<and> \<not> bit w 1" by (simp add: bit_and_iff mask3_bit del: bit_numeral_word_iff)
  next
    assume "\<not> bit w 0 \<and> \<not> bit w 1"
    then show "w AND 3 = 0"
      by (intro bit_word_eqI) (auto simp: bit_and_iff bit_int_3 less_2_cases_iff intro: gr0I)
  qed
  then show ?thesis by (auto simp: word_neq_0_conv)
qed

lemma mask_tests:
  "w AND 1 \<noteq> 0 \<longleftrightarrow> bit w 0" "w AND 2 \<noteq> 0 \<longleftrightarrow> bit w 1" "w AND 0x20 \<noteq> 0 \<longleftrightarrow> bit w 5"
  "w AND 0x40 \<noteq> 0 \<longleftrightarrow> bit w 6" "w AND 0x80 \<noteq> 0 \<longleftrightarrow> bit w 7" for w :: u16
  using and_bit_test [of w 0] and_bit_test [of w 1] and_bit_test [of w 5] and_bit_test [of w 6]
    and_bit_test [of w 7] by (simp_all add: push_bit_eq_mult)

lemma hot_snapshot_view:
  "hot_snapshot (regs_from (rf_in d) 2 17) (regs_from (rf_in d) 25 6) (regs_from (rf_hold d) 31 2) t
   = hot_view d t"
  by (simp add: hot_snapshot_def hot_view_def Let_def signedTempFromRaw_view push_bit_eq_mult
      mask_tests and_low2_test zero_Snapshot_def)

lemma medium_snapshot_view:
  "medium_snapshot (regs_from (rf_in d) 57 2) (regs_from (rf_in d) 69 2) (regs_from (rf_hold d) 86 1) t
   = medium_view d t"
  by (simp add: medium_snapshot_def medium_view_def signedTempFromRaw_view zero_Snapshot_def)

lemma slow_snapshot_view:
  "slow_snapshot (regs_from (rf_in d) 0 1) (regs_from (rf_in d) 79 1) (regs_from (rf_hold d) 0 1) t
   = slow_view d t"
  by (simp add: slow_snapshot_def slow_view_def)

subsection \<open>The interface: a source of registers\<close>

lemma poll_read_cases:
  assumes "poll_read label n rd s = (r, s')"
  shows "(\<exists>e. r = Inl e) \<or> (\<exists>regs. rd s = (Inr regs, s') \<and> r = Inr regs \<and> length regs = n)"
  using assms by (auto simp: poll_read_def split: prod.splits sum.splits if_splits)

lemma poll_read_state: "poll_read label n rd s = (r, s') \<Longrightarrow> \<exists>x. rd s = (x, s')"
  by (auto simp: poll_read_def split: prod.splits sum.splits if_splits)

locale register_source =
  fixes P :: "'s PollOps" and ok :: "'s \<Rightarrow> bool" and dev :: "'s \<Rightarrow> RegFile"
  assumes read_input: "ok s \<Longrightarrow> batch n \<Longrightarrow> po_ReadInput P a n s = (r, s') \<Longrightarrow>
      ok s' \<and> dev s' = dev s \<and> (\<forall>vs. r = Inr vs \<longrightarrow> vs = regs_from (rf_in (dev s)) a n)"
    and read_holding: "ok s \<Longrightarrow> batch n \<Longrightarrow> po_ReadHolding P a n s = (r, s') \<Longrightarrow>
      ok s' \<and> dev s' = dev s \<and> (\<forall>vs. r = Inr vs \<longrightarrow> vs = regs_from (rf_hold (dev s)) a n)"
    and now: "ok s \<Longrightarrow> po_Now P s = (t, s') \<Longrightarrow> ok s' \<and> dev s' = dev s"
begin

lemma poll_input:
  assumes "ok s" and "batch n" and "poll_read l k (po_ReadInput P a n) s = (r, s')"
  shows "ok s' \<and> dev s' = dev s \<and> (\<forall>vs. r = Inr vs \<longrightarrow> vs = regs_from (rf_in (dev s)) a n)"
  using poll_read_cases [OF assms(3)] poll_read_state [OF assms(3)] read_input [OF assms(1,2)] by blast

lemma poll_holding:
  assumes "ok s" and "batch n" and "poll_read l k (po_ReadHolding P a n) s = (r, s')"
  shows "ok s' \<and> dev s' = dev s \<and> (\<forall>vs. r = Inr vs \<longrightarrow> vs = regs_from (rf_hold (dev s)) a n)"
  using poll_read_cases [OF assms(3)] poll_read_state [OF assms(3)] read_holding [OF assms(1,2)] by blast

lemma three_reads_view:
  assumes "ok s" and b: "batch n1" "batch n2" "batch n3" and "three_reads (poll_read l1 k1 (po_ReadInput P a1 n1))
      (poll_read l2 k2 (po_ReadInput P a2 n2)) (poll_read l3 k3 (po_ReadHolding P a3 n3)) s = (r, s')"
  shows "ok s' \<and> dev s' = dev s \<and> (\<forall>x y z. r = Inr (x, y, z) \<longrightarrow>
      x = regs_from (rf_in (dev s)) a1 n1 \<and> y = regs_from (rf_in (dev s)) a2 n2
      \<and> z = regs_from (rf_hold (dev s)) a3 n3)"
proof -
  obtain r1 s1 where 1: "poll_read l1 k1 (po_ReadInput P a1 n1) s = (r1, s1)" by fastforce
  obtain r2 s2 where 2: "poll_read l2 k2 (po_ReadInput P a2 n2) s1 = (r2, s2)" by fastforce
  obtain r3 s3 where 3: "poll_read l3 k3 (po_ReadHolding P a3 n3) s2 = (r3, s3)" by fastforce
  note v1 = poll_input [OF assms(1) b(1) 1]
  then have "ok s1" by simp
  note v2 = poll_input [OF this b(2) 2]
  then have "ok s2" by simp
  note v3 = poll_holding [OF this b(3) 3]
  show ?thesis
    using assms(5) v1 v2 v3 by (auto simp: three_reads_def 1 2 3 split: sum.splits)
qed

lemma stamped:
  assumes "ok s" and b: "batch n1" "batch n2" "batch n3" and "rs = three_reads (poll_read l1 k1 (po_ReadInput P a1 n1))
      (poll_read l2 k2 (po_ReadInput P a2 n2)) (poll_read l3 k3 (po_ReadHolding P a3 n3)) s"
    and "stamp_poll P mk rs = (Inr snap, s')"
  shows "ok s' \<and> dev s' = dev s \<and> (\<exists>t. snap = mk (regs_from (rf_in (dev s)) a1 n1)
      (regs_from (rf_in (dev s)) a2 n2) (regs_from (rf_hold (dev s)) a3 n3) t)"
proof -
  obtain r s1 where rs: "rs = (r, s1)" by (cases rs)
  with assms(6) obtain x y z where r: "r = Inr (x, y, z)"
    by (cases r) (auto simp: stamp_poll_def)
  obtain t s2 where n: "po_Now P s1 = (t, s2)" by (cases "po_Now P s1")
  note v = three_reads_view [OF assms(1) b assms(5) [unfolded rs r, symmetric]]
  have "ok s1" using v by simp
  from now [OF this n] v assms(6) show ?thesis
    by (auto simp: rs r stamp_poll_def n)
qed

lemma stamped_dev:
  assumes "ok s" and b: "batch n1" "batch n2" "batch n3" and "rs = three_reads (poll_read l1 k1 (po_ReadInput P a1 n1))
      (poll_read l2 k2 (po_ReadInput P a2 n2)) (poll_read l3 k3 (po_ReadHolding P a3 n3)) s"
    and "stamp_poll P mk rs = (q, s')"
  shows "ok s' \<and> dev s' = dev s"
proof -
  obtain r s1 where rs: "rs = (r, s1)" by (cases rs)
  have v: "ok s1" "dev s1 = dev s" using three_reads_view [OF assms(1) b assms(5) [unfolded rs, symmetric]] by auto
  obtain t s2 where n: "po_Now P s1 = (t, s2)" by (cases "po_Now P s1")
  from now [OF v(1) n] v assms(6) show ?thesis
    by (auto simp: rs stamp_poll_def n split: sum.splits)
qed

lemma PollHot_dev: "ok s \<Longrightarrow> PollHot P s = (q, s') \<Longrightarrow> ok s' \<and> dev s' = dev s"
  unfolding PollHot_def by (rule stamped_dev [OF _ _ _ _ refl]) (simp_all add: batch_def maxRegistersPerRead_def)

lemma PollMedium_dev: "ok s \<Longrightarrow> PollMedium P s = (q, s') \<Longrightarrow> ok s' \<and> dev s' = dev s"
  unfolding PollMedium_def by (rule stamped_dev [OF _ _ _ _ refl]) (simp_all add: batch_def maxRegistersPerRead_def)

lemma PollSlow_dev: "ok s \<Longrightarrow> PollSlow P s = (q, s') \<Longrightarrow> ok s' \<and> dev s' = dev s"
  unfolding PollSlow_def by (rule stamped_dev [OF _ _ _ _ refl]) (simp_all add: batch_def maxRegistersPerRead_def)

lemma PollHot_view:
  assumes "ok s" and "PollHot P s = (Inr snap, s')"
  shows "ok s' \<and> dev s' = dev s \<and> snap = hot_view (dev s) (sn_PolledAt snap)"
  using stamped [OF assms(1) _ _ _ refl assms(2) [unfolded PollHot_def]]
  by (auto simp: hot_snapshot_view hot_view_def batch_def maxRegistersPerRead_def)

lemma PollMedium_view:
  assumes "ok s" and "PollMedium P s = (Inr snap, s')"
  shows "ok s' \<and> dev s' = dev s \<and> snap = medium_view (dev s) (sn_PolledAt snap)"
  using stamped [OF assms(1) _ _ _ refl assms(2) [unfolded PollMedium_def]]
  by (auto simp: medium_snapshot_view medium_view_def batch_def maxRegistersPerRead_def)

lemma PollSlow_view:
  assumes "ok s" and "PollSlow P s = (Inr snap, s')"
  shows "ok s' \<and> dev s' = dev s \<and> snap = slow_view (dev s) (sn_PolledAt snap)"
  using stamped [OF assms(1) _ _ _ refl assms(2) [unfolded PollSlow_def]]
  by (auto simp: slow_snapshot_view slow_view_def batch_def maxRegistersPerRead_def)

end

text \<open>A source that answers: the polls succeed and return the view.\<close>

locale responsive_source = register_source P ok dev
  for P :: "'s PollOps" and ok :: "'s \<Rightarrow> bool" and dev :: "'s \<Rightarrow> RegFile" +
  fixes up :: "'s \<Rightarrow> bool"
  assumes up_ok: "up s \<Longrightarrow> ok s"
    and answer_input: "up s \<Longrightarrow> batch n \<Longrightarrow> \<exists>vs s'. po_ReadInput P a n s = (Inr vs, s') \<and> up s'"
    and answer_holding: "up s \<Longrightarrow> batch n \<Longrightarrow> \<exists>vs s'. po_ReadHolding P a n s = (Inr vs, s') \<and> up s'"
    and up_now: "up s \<Longrightarrow> po_Now P s = (t, s') \<Longrightarrow> up s'"
begin

lemma poll_input_up:
  assumes "up s" and "batch n" and "k = unat n"
  obtains s' where "poll_read l k (po_ReadInput P a n) s = (Inr (regs_from (rf_in (dev s)) a n), s')"
    "up s'" "dev s' = dev s"
proof -
  obtain vs s' where r: "po_ReadInput P a n s = (Inr vs, s')" "up s'"
    using answer_input [OF assms(1,2)] by blast
  with read_input [OF up_ok [OF assms(1)] assms(2) r(1)] assms(3) show ?thesis
    by (intro that [of s']) (auto simp: poll_read_def)
qed

lemma poll_holding_up:
  assumes "up s" and "batch n" and "k = unat n"
  obtains s' where "poll_read l k (po_ReadHolding P a n) s = (Inr (regs_from (rf_hold (dev s)) a n), s')"
    "up s'" "dev s' = dev s"
proof -
  obtain vs s' where r: "po_ReadHolding P a n s = (Inr vs, s')" "up s'"
    using answer_holding [OF assms(1,2)] by blast
  with read_holding [OF up_ok [OF assms(1)] assms(2) r(1)] assms(3) show ?thesis
    by (intro that [of s']) (auto simp: poll_read_def)
qed

lemma stamped_up:
  assumes "up s" and n: "batch n1" "k1 = unat n1" "batch n2" "k2 = unat n2" "batch n3" "k3 = unat n3"
  shows "\<exists>t s'. stamp_poll P mk (three_reads (poll_read l1 k1 (po_ReadInput P a1 n1))
      (poll_read l2 k2 (po_ReadInput P a2 n2)) (poll_read l3 k3 (po_ReadHolding P a3 n3)) s)
    = (Inr (mk (regs_from (rf_in (dev s)) a1 n1) (regs_from (rf_in (dev s)) a2 n2)
             (regs_from (rf_hold (dev s)) a3 n3) t), s') \<and> up s' \<and> dev s' = dev s"
proof -
  obtain s1 where 1: "poll_read l1 k1 (po_ReadInput P a1 n1) s = (Inr (regs_from (rf_in (dev s)) a1 n1), s1)"
    "up s1" "dev s1 = dev s" by (rule poll_input_up [OF assms(1) n(1,2)])
  obtain s2 where 2: "poll_read l2 k2 (po_ReadInput P a2 n2) s1 = (Inr (regs_from (rf_in (dev s1)) a2 n2), s2)"
    "up s2" "dev s2 = dev s1" by (rule poll_input_up [OF 1(2) n(3,4)])
  obtain s3 where 3: "poll_read l3 k3 (po_ReadHolding P a3 n3) s2 = (Inr (regs_from (rf_hold (dev s2)) a3 n3), s3)"
    "up s3" "dev s3 = dev s2" by (rule poll_holding_up [OF 2(2) n(5,6)])
  obtain t s4 where 4: "po_Now P s3 = (t, s4)" by (cases "po_Now P s3")
  then have "up s4" "dev s4 = dev s3" using up_now 3(2) now [OF up_ok [OF 3(2)]] by auto
  then show ?thesis
    using 1 2 3 4 by (intro exI [of _ t] exI [of _ s4]) (simp add: three_reads_def stamp_poll_def)
qed

lemma PollHot_up: "up s \<Longrightarrow>
    \<exists>t s'. PollHot P s = (Inr (hot_view (dev s) t), s') \<and> up s' \<and> dev s' = dev s"
  unfolding PollHot_def hot_snapshot_view [symmetric]
  by (rule stamped_up) (simp_all add: batch_def maxRegistersPerRead_def)

lemma PollMedium_up: "up s \<Longrightarrow>
    \<exists>t s'. PollMedium P s = (Inr (medium_view (dev s) t), s') \<and> up s' \<and> dev s' = dev s"
  unfolding PollMedium_def medium_snapshot_view [symmetric]
  by (rule stamped_up) (simp_all add: batch_def maxRegistersPerRead_def)

lemma PollSlow_up: "up s \<Longrightarrow>
    \<exists>t s'. PollSlow P s = (Inr (slow_view (dev s) t), s') \<and> up s' \<and> dev s' = dev s"
  unfolding PollSlow_def slow_snapshot_view [symmetric]
  by (rule stamped_up) (simp_all add: batch_def maxRegistersPerRead_def)

end

subsection \<open>The dispatcher as a source of registers\<close>

definition poll_ops :: "'w ModbusEnv \<Rightarrow> 'w Client Dispatcher PollOps" where
  "poll_ops E = \<lparr>po_ReadInput = ds_ReadInput (client_port E),
     po_ReadHolding = ds_ReadHolding (client_port E),
     po_Now = (\<lambda>d. let (t, w) = me_now E (cl_world (ds_client d))
                   in (t, d\<lparr>ds_client := (ds_client d)\<lparr>cl_world := w\<rparr>\<rparr>))\<rparr>"

definition disp_dev :: "('w \<Rightarrow> RegFile) \<Rightarrow> 'w Client Dispatcher \<Rightarrow> RegFile" where
  "disp_dev dev d = client_dev dev (ds_client d)"

interpretation disp_source: register_source "poll_ops E" "\<lambda>_. device_laws E dev" "disp_dev dev"
  for E dev
proof
  fix s s' :: "'a Client Dispatcher" and a n r
  assume L: "device_laws E dev"
  show "device_laws E dev \<and> disp_dev dev s' = disp_dev dev s
      \<and> (\<forall>vs. r = Inr vs \<longrightarrow> vs = regs_from (rf_in (disp_dev dev s)) a n)"
    if "po_ReadInput (poll_ops E) a n s = (r, s')"
    using that L ReadInput_dev [OF L, of a n "ds_client s"]
    by (auto simp: poll_ops_def ds_ops client_port_def disp_dev_def Let_def split: prod.splits)
  show "device_laws E dev \<and> disp_dev dev s' = disp_dev dev s
      \<and> (\<forall>vs. r = Inr vs \<longrightarrow> vs = regs_from (rf_hold (disp_dev dev s)) a n)"
    if "po_ReadHolding (poll_ops E) a n s = (r, s')"
    using that L ReadHolding_dev [OF L, of a n "ds_client s"]
    by (auto simp: poll_ops_def ds_ops client_port_def disp_dev_def Let_def split: prod.splits)
next
  fix s s' :: "'a Client Dispatcher" and t
  assume L: "device_laws E dev" and n: "po_Now (poll_ops E) s = (t, s')"
  then show "device_laws E dev \<and> disp_dev dev s' = disp_dev dev s"
    using device_lawsD(1) [OF L, of "cl_world (ds_client s)"]
    by (auto simp: poll_ops_def disp_dev_def Let_def case_prod_unfold)
qed

definition disp_up :: "'w ModbusEnv \<Rightarrow> ('w \<Rightarrow> RegFile) \<Rightarrow> ('w \<Rightarrow> bool) \<Rightarrow> 'w Client Dispatcher \<Rightarrow> bool" where
  "disp_up E dev up d \<longleftrightarrow> device_laws E dev \<and> responsive E up \<and> usable up (ds_client d)"

interpretation disp_live: responsive_source "poll_ops E" "\<lambda>_. device_laws E dev" "disp_dev dev"
  "disp_up E dev up" for E dev up
proof
  fix s :: "'a Client Dispatcher" and n :: u16 and a
  assume "disp_up E dev up s" and b: "batch n"
  then have L: "device_laws E dev" "responsive E up" "usable up (ds_client s)"
    by (simp_all add: disp_up_def)
  have n: "n \<noteq> 0" "n \<le> maxRegistersPerRead" using b by (simp_all add: batch_def)
  obtain c where "ReadInput E a n (ds_client s) = (Inr (regs_from (rf_in (disp_dev dev s)) a n), c)"
      "usable up c"
    unfolding disp_dev_def by (rule ReadInput_usable [OF L n])
  with L show "\<exists>vs s'. po_ReadInput (poll_ops E) a n s = (Inr vs, s') \<and> disp_up E dev up s'"
    by (simp add: poll_ops_def ds_ops client_port_def disp_up_def)
  obtain c where "ReadHolding E a n (ds_client s) = (Inr (regs_from (rf_hold (disp_dev dev s)) a n), c)"
      "usable up c"
    unfolding disp_dev_def by (rule ReadHolding_usable [OF L n])
  with L show "\<exists>vs s'. po_ReadHolding (poll_ops E) a n s = (Inr vs, s') \<and> disp_up E dev up s'"
    by (simp add: poll_ops_def ds_ops client_port_def disp_up_def)
qed (auto simp: disp_up_def poll_ops_def responsive_def usable_def Let_def case_prod_unfold)

subsection \<open>What a poll asks for\<close>

text \<open>The batches of a tier, and a source that notes what is asked of it.\<close>

definition tier_batches :: "PollGroup \<Rightarrow> (RegisterKind \<times> u16 \<times> u16) list" where
  "tier_batches g =
     (case g of
        PollGroupHot \<Rightarrow> [(RegisterKindInput, 2, 17), (RegisterKindInput, 25, 6), (RegisterKindHolding, 31, 2)]
      | PollGroupMedium \<Rightarrow> [(RegisterKindInput, 57, 2), (RegisterKindInput, 69, 2), (RegisterKindHolding, 86, 1)]
      | PollGroupSlow \<Rightarrow> [(RegisterKindInput, 0, 1), (RegisterKindInput, 79, 1), (RegisterKindHolding, 0, 1)]
      | _ \<Rightarrow> [])"

definition in_batch :: "RegisterKind \<times> u16 \<times> u16 \<Rightarrow> RegisterDef \<Rightarrow> bool" where
  "in_batch b r = (case b of (k, a, n) \<Rightarrow>
     rd_Kind r = k \<and> a \<le> RegisterAddr_Uint16 (rd_Addr r) \<and> RegisterAddr_Uint16 (rd_Addr r) < a + n)"

definition noting :: "'s PollOps \<Rightarrow> ('s \<times> (RegisterKind \<times> u16 \<times> u16) list) PollOps" where
  "noting P =
     \<lparr>po_ReadInput = (\<lambda>a n (s, l). case po_ReadInput P a n s of (r, s') \<Rightarrow> (r, s', l @ [(RegisterKindInput, a, n)])),
      po_ReadHolding = (\<lambda>a n (s, l). case po_ReadHolding P a n s of (r, s') \<Rightarrow> (r, s', l @ [(RegisterKindHolding, a, n)])),
      po_Now = (\<lambda>(s, l). case po_Now P s of (t, s') \<Rightarrow> (t, s', l))\<rparr>"

lemma noted_reads:
  assumes "three_reads (poll_read l1 k1 (po_ReadInput (noting P) a1 n1))
      (poll_read l2 k2 (po_ReadInput (noting P) a2 n2)) (poll_read l3 k3 (po_ReadHolding (noting P) a3 n3)) (s, [])
    = (r, s', l)"
  defines "b \<equiv> [(RegisterKindInput, a1, n1), (RegisterKindInput, a2, n2), (RegisterKindHolding, a3, n3)]"
  shows "prefix l b \<and> (\<forall>v. r = Inr v \<longrightarrow> l = b)
    \<and> three_reads (poll_read l1 k1 (po_ReadInput P a1 n1)) (poll_read l2 k2 (po_ReadInput P a2 n2))
        (poll_read l3 k3 (po_ReadHolding P a3 n3)) s = (r, s')"
  using assms(1) unfolding b_def
  by (auto simp: three_reads_def poll_read_def noting_def split: prod.splits sum.splits if_splits)

lemma noted_poll:
  assumes "stamp_poll (noting P) mk (three_reads (poll_read l1 k1 (po_ReadInput (noting P) a1 n1))
      (poll_read l2 k2 (po_ReadInput (noting P) a2 n2)) (poll_read l3 k3 (po_ReadHolding (noting P) a3 n3)) (s, []))
    = (r, s', l)"
  defines "b \<equiv> [(RegisterKindInput, a1, n1), (RegisterKindInput, a2, n2), (RegisterKindHolding, a3, n3)]"
  shows "prefix l b \<and> (l = b \<or> isl r)
    \<and> stamp_poll P mk (three_reads (poll_read l1 k1 (po_ReadInput P a1 n1))
        (poll_read l2 k2 (po_ReadInput P a2 n2)) (poll_read l3 k3 (po_ReadHolding P a3 n3)) s) = (r, s')"
proof -
  obtain q t l' where q: "three_reads (poll_read l1 k1 (po_ReadInput (noting P) a1 n1))
      (poll_read l2 k2 (po_ReadInput (noting P) a2 n2)) (poll_read l3 k3 (po_ReadHolding (noting P) a3 n3)) (s, [])
    = (q, t, l')" by (rule prod_cases3)
  note n = noted_reads [OF q, folded b_def]
  show ?thesis
    using assms(1) n unfolding q
    by (cases q) (auto simp: stamp_poll_def noting_def split: sum.splits prod.splits)
qed

lemma stamp_poll_error:
  assumes "stamp_poll P mk (three_reads (poll_read l1 k1 f1) (poll_read l2 k2 f2) (poll_read l3 k3 f3) s) = (Inl e, s')"
  shows "err_is e ErrUnexpectedReadLength
    \<or> (\<exists>f \<in> {f1, f2, f3}. \<exists>u e0. fst (f u) = Inl e0 \<and> (\<forall>x. err_is e0 x \<longrightarrow> err_is e x))"
  using assms
  by (auto simp: stamp_poll_def three_reads_def poll_read_def split: prod.splits sum.splits if_splits)
    (metis fst_conv)+

text \<open>A connected dispatcher on the simulated controller.\<close>

definition sim_disp :: "RegFile \<Rightarrow> go_error option list \<Rightarrow> World Client Dispatcher" where
  "sim_disp regs script =
     \<lparr>ds_client = sim_client regs script,
      ds_threshold = 3, ds_consecutiveErrs = 0, ds_pending = False\<rparr>"

lemma sim_disp_up: "disp_up sim_env wd_dev (\<lambda>w. wd_script w = []) (sim_disp regs [])"
proof -
  have "usable (\<lambda>w. wd_script w = []) (ds_client (sim_disp regs []))"
    by (simp add: usable_def sim_disp_def sim_client_def Connect_def NewClient_def sim_defs sim_world_def)
  then show ?thesis by (simp add: disp_up_def sim_device_laws sim_responsive)
qed

definition sample_regs :: RegFile where
  "sample_regs = \<lparr>rf_in = (\<lambda>a. if a = 2 then 0xC1 else if a = 9 then 215 else a),
     rf_hold = (\<lambda>a. if a = 31 then 220 else if a = 86 then 0xFF01 else a)\<rparr>"

lemma sample_dev [simp]: "disp_dev wd_dev (sim_disp regs script) = regs"
  by (simp add: disp_dev_def sim_disp_def sim_client_def Connect_def NewClient_def sim_defs sim_world_def)

subsection \<open>Properties\<close>

text \<open>
  Every register the catalog assigns to a poll group lies in one of the batches that the
  poll of the group reads, and in none of the batches of another group.
\<close>

lemma catalog_covered:
  "list_all (\<lambda>g. list_all (\<lambda>r. list_ex (\<lambda>b. in_batch b r) (tier_batches g)) (RegistersByGroup g)
       \<and> list_all (\<lambda>r. rd_Group r = g \<or> list_all (\<lambda>b. \<not> in_batch b r) (tier_batches g)) Registers)
     [PollGroupHot, PollGroupMedium, PollGroupSlow]"
  by code_simp

text \<open>
  A poll asks the dispatcher for exactly the batches of its tier, in order; it stops at the
  first one that fails, and it succeeds only when all three were read. Watching the reads does
  not change the poll.
\<close>

lemma polls_read_batches:
  "(case PollHot (noting P) (s, []) of (r, s', l) \<Rightarrow>
      prefix l (tier_batches PollGroupHot) \<and> (l = tier_batches PollGroupHot \<or> isl r) \<and> PollHot P s = (r, s'))
   \<and> (case PollMedium (noting P) (s, []) of (r, s', l) \<Rightarrow>
      prefix l (tier_batches PollGroupMedium) \<and> (l = tier_batches PollGroupMedium \<or> isl r) \<and> PollMedium P s = (r, s'))
   \<and> (case PollSlow (noting P) (s, []) of (r, s', l) \<Rightarrow>
      prefix l (tier_batches PollGroupSlow) \<and> (l = tier_batches PollGroupSlow \<or> isl r) \<and> PollSlow P s = (r, s'))"
  unfolding polls tier_batches_def
  by (intro conjI; clarsimp dest!: noted_poll split: prod.split)

text \<open>
  A poll that succeeds against a controller whose registers stand still returns the view of
  those registers: each field of the tier is decoded from the address of the register that
  holds it, every other field is zero, and polling changes no register.
\<close>

lemma polls_return_views:
  assumes "device_laws E dev"
  shows "(\<forall>snap d'. PollHot (poll_ops E) d = (Inr snap, d') \<longrightarrow>
      snap = hot_view (disp_dev dev d) (sn_PolledAt snap) \<and> disp_dev dev d' = disp_dev dev d)
    \<and> (\<forall>snap d'. PollMedium (poll_ops E) d = (Inr snap, d') \<longrightarrow>
      snap = medium_view (disp_dev dev d) (sn_PolledAt snap) \<and> disp_dev dev d' = disp_dev dev d)
    \<and> (\<forall>snap d'. PollSlow (poll_ops E) d = (Inr snap, d') \<longrightarrow>
      snap = slow_view (disp_dev dev d) (sn_PolledAt snap) \<and> disp_dev dev d' = disp_dev dev d)"
  using disp_source.PollHot_view [OF assms] disp_source.PollMedium_view [OF assms]
    disp_source.PollSlow_view [OF assms] by blast

lemma polls_return_views_example:
  "\<exists>snap d'. PollHot (poll_ops sim_env) (sim_disp sample_regs []) = (Inr snap, d')
     \<and> sn_PowerOn snap \<and> \<not> sn_Switching snap \<and> sn_HeatCapable snap \<and> sn_FanTarget1 snap = 32
     \<and> sn_RawErrors snap = \<lparr>re0 = 4, re1 = 5, re2 = 0, re3 = 0\<rparr>"
proof -
  obtain t d' where p: "PollHot (poll_ops sim_env) (sim_disp sample_regs []) = (Inr (hot_view sample_regs t), d')"
    using disp_live.PollHot_up [OF sim_disp_up [of sample_regs]] by auto
  moreover have "hot_view sample_regs t = hot_view sample_regs (sn_PolledAt (hot_view sample_regs t))"
    using polls_return_views [OF sim_device_laws, of "sim_disp sample_regs []"] p by simp
  ultimately show ?thesis
    by (intro exI [of _ "hot_view sample_regs t"] exI [of _ d'])
      (simp add: hot_view_def sample_regs_def)
qed

text \<open>
  While the controller answers, every poll succeeds: it returns the view of the registers
  with the time of the clock, and leaves the connection usable and the registers untouched.
\<close>

lemma polls_answered:
  assumes "disp_up E dev up d"
  shows "(\<exists>t d'. PollHot (poll_ops E) d = (Inr (hot_view (disp_dev dev d) t), d') \<and> disp_up E dev up d')
    \<and> (\<exists>t d'. PollMedium (poll_ops E) d = (Inr (medium_view (disp_dev dev d) t), d') \<and> disp_up E dev up d')
    \<and> (\<exists>t d'. PollSlow (poll_ops E) d = (Inr (slow_view (disp_dev dev d) t), d') \<and> disp_up E dev up d')"
  using disp_live.PollHot_up [OF assms] disp_live.PollMedium_up [OF assms]
    disp_live.PollSlow_up [OF assms] by blast

lemma polls_answered_example:
  "\<exists>t d'. PollMedium (poll_ops sim_env) (sim_disp sample_regs []) = (Inr (medium_view sample_regs t), d')
     \<and> sn_CurrentMode (medium_view sample_regs t) = ModeHeat"
  using polls_answered [OF sim_disp_up [of sample_regs]]
  by (auto simp: medium_view_def sample_regs_def ModeFromRegister_def ModeHeat_def)

end
