(* ===== verification/GoStr.thy ===== *)
theory GoStr
  imports GoFloat GoError
begin

text \<open>
  The string functions of the Go library that the program uses. A string is the list of its
  bytes. Formatting: \<^verbatim>\<open>%t\<close> and \<^verbatim>\<open>%.1f\<close>. Parsing: \<^verbatim>\<open>strconv.ParseUint\<close>, \<^verbatim>\<open>strconv.Atoi\<close> and
  \<^verbatim>\<open>strconv.ParseFloat\<close> with its full grammar (signs, infinities, not-a-number, hexadecimal mantissas,
  exponents, underscores). Case folding and trimming: as far as a comparison of
  the result with an ASCII literal can tell.
\<close>

definition fmt_bool :: "bool \<Rightarrow> string" where
  "fmt_bool b = (if b then ''true'' else ''false'')"

text \<open>\<^verbatim>\<open>%.1f\<close>: the exact value rounded to tenths, ties to even.\<close>

definition fmt_1f :: "f64 \<Rightarrow> string" where
  "fmt_1f f =
     (case f of
        NaN \<Rightarrow> ''NaN''
      | Inf s \<Rightarrow> (if s then ''-Inf'' else ''+Inf'')
      | Fin x \<Rightarrow>
          (let n = nat (rnd_even (\<bar>x\<bar> * 10)) in
           (if x < 0 then ''-'' else '''') @ dec_nat (n div 10) @ ''.'' @ dec_nat (n mod 10)))"

lemma fmt_1f_tenths:
  assumes "0 \<le> n" and "n \<le> 65535" and "\<bar>c - of_int n / 10\<bar> \<le> \<bar>of_int n / 10\<bar> / 2 ^ 53"
  shows "fmt_1f (Fin c) = dec_nat (nat n div 10) @ ''.'' @ dec_nat (nat n mod 10)"
proof -
  have b: "\<bar>of_int n / 10\<bar> / 2 ^ 53 \<le> (of_int n / 10 :: rat) / 2 ^ 53" using assms(1) by simp
  have "(of_int n :: rat) \<le> 65535" using assms(2) by simp
  then have "(of_int n / 10 :: rat) / 2 ^ 53 < 1 / 40" by (simp add: field_simps)
  with assms(3) b have e: "\<bar>c - of_int n / 10\<bar> < 1 / 40" by linarith
  have "0 \<le> c"
  proof -
    have "of_int n / 10 - (of_int n / 10 :: rat) / 2 ^ 53 \<le> c" using assms(3) b by linarith
    moreover have "0 \<le> of_int n / 10 - (of_int n / 10 :: rat) / 2 ^ 53" using assms(1) by (simp add: field_simps)
    ultimately show ?thesis by linarith
  qed
  moreover have "\<bar>\<bar>c\<bar> * 10 - of_int n\<bar> < 1 / 4" using e \<open>0 \<le> c\<close> by linarith
  then have "rnd_even (\<bar>c\<bar> * 10) = n" by (rule rnd_even_near)
  ultimately show ?thesis by (simp add: fmt_1f_def Let_def)
qed

subsection \<open>Case and white space\<close>

definition byte_of :: "char \<Rightarrow> nat" where "byte_of c = of_char c"

definition lower :: "char \<Rightarrow> char" where
  "lower c = (if 65 \<le> byte_of c \<and> byte_of c \<le> 90 then char_of (byte_of c + 32) else c)"

text \<open>
  \<^verbatim>\<open>strings.ToLower\<close>: besides the ASCII capitals, the dotted capital I (bytes C4 B0) and the Kelvin
  sign (bytes E2 84 AA) have ASCII lower-case letters; every other rune maps to non-ASCII bytes,
  which equal no byte of an ASCII literal, and is left as it is here.
\<close>

fun ToLower :: "string \<Rightarrow> string" where
  "ToLower [] = []"
| "ToLower [c] = [lower c]"
| "ToLower (c # d # cs) =
     (if byte_of c = 0xC4 \<and> byte_of d = 0xB0 then CHR ''i'' # ToLower cs
      else case cs of
        e # es \<Rightarrow> if byte_of c = 0xE2 \<and> byte_of d = 0x84 \<and> byte_of e = 0xAA then CHR ''k'' # ToLower es
                  else lower c # ToLower (d # cs)
      | [] \<Rightarrow> lower c # ToLower (d # cs))"

text \<open>\<^verbatim>\<open>strings.EqualFold\<close> with a literal that has neither a K nor an S (which have non-ASCII folds).\<close>

definition EqualFold :: "string \<Rightarrow> string \<Rightarrow> bool" where
  "EqualFold s t \<longleftrightarrow> map lower s = map lower t"

text \<open>The white space of \<^verbatim>\<open>strings.TrimSpace\<close>, in UTF-8.\<close>

definition space_seqs :: "string list" where
  "space_seqs =
     map (map char_of) ([[0x09], [0x0A], [0x0B], [0x0C], [0x0D], [0x20], [0xC2, 0x85], [0xC2, 0xA0],
       [0xE1, 0x9A, 0x80], [0xE2, 0x80, 0xA8], [0xE2, 0x80, 0xA9], [0xE2, 0x80, 0xAF], [0xE2, 0x81, 0x9F],
       [0xE3, 0x80, 0x80]] @ map (\<lambda>i. [0xE2, 0x80, 0x80 + i]) [0..<11] :: nat list list)"

text \<open>Dropping one leading space; at most one per byte of the string, which bounds the loop.\<close>

definition drop_space :: "string list \<Rightarrow> string \<Rightarrow> string" where
  "drop_space seqs s =
     (case filter (\<lambda>w. take (length w) s = w) seqs of [] \<Rightarrow> s | w # _ \<Rightarrow> drop (length w) s)"

definition trim_with :: "string list \<Rightarrow> string \<Rightarrow> string" where
  "trim_with seqs s = (drop_space seqs ^^ length s) s"

definition TrimSpace :: "string \<Rightarrow> string" where
  "TrimSpace s = rev (trim_with (map rev space_seqs) (rev (trim_with space_seqs s)))"

text \<open>A string that begins and ends with a visible ASCII character is not trimmed.\<close>

definition visible :: "char \<Rightarrow> bool" where
  "visible c \<longleftrightarrow> 32 < (of_char c :: nat) \<and> (of_char c :: nat) < 128"

lemma space_seqs_invisible: "w \<in> set space_seqs \<Longrightarrow> w \<noteq> [] \<and> \<not> visible (hd w) \<and> \<not> visible (last w)"
  by (auto simp: space_seqs_def visible_def upt_rec)

lemma drop_space_visible:
  assumes "\<forall>w \<in> set seqs. w \<noteq> [] \<and> \<not> visible (hd w)" and "s \<noteq> []" and "visible (hd s)"
  shows "drop_space seqs s = s"
proof -
  have "take (length w) s \<noteq> w" if "w \<in> set seqs" for w
  proof
    assume t: "take (length w) s = w"
    have "w \<noteq> []" "\<not> visible (hd w)" using assms(1) that by auto
    moreover have "hd w = hd s" using t \<open>w \<noteq> []\<close> by (metis hd_take length_greater_0_conv)
    ultimately show False using assms(3) by simp
  qed
  then have "filter (\<lambda>w. take (length w) s = w) seqs = []" by (simp add: filter_empty_conv)
  then show ?thesis by (simp add: drop_space_def)
qed

lemma trim_with_visible:
  assumes "\<forall>w \<in> set seqs. w \<noteq> [] \<and> \<not> visible (hd w)" and "s \<noteq> []" and "visible (hd s)"
  shows "trim_with seqs s = s"
proof -
  have "(drop_space seqs ^^ n) s = s" for n by (induction n) (simp_all add: drop_space_visible [OF assms])
  then show ?thesis by (simp add: trim_with_def)
qed

lemma TrimSpace_visible:
  assumes "s \<noteq> []" and "visible (hd s)" and "visible (last s)"
  shows "TrimSpace s = s"
proof -
  have 1: "trim_with space_seqs s = s"
    by (rule trim_with_visible) (use assms space_seqs_invisible in auto)
  have "trim_with (map rev space_seqs) (rev s) = rev s"
    by (rule trim_with_visible) (use assms space_seqs_invisible in \<open>auto simp: hd_rev\<close>)
  with 1 show ?thesis by (simp add: TrimSpace_def)
qed

subsection \<open>Integers\<close>

definition ParseUint16 :: "string \<Rightarrow> go_error + u16" where
  "ParseUint16 s =
     (if s = [] then Inl (ErrText ''strconv.ParseUint: invalid syntax'')
      else case read_digits 0 s of
        None \<Rightarrow> Inl (ErrText ''strconv.ParseUint: invalid syntax'')
      | Some n \<Rightarrow> if 65535 < n then Inl (ErrText ''strconv.ParseUint: value out of range'')
                  else Inr (of_nat n))"

definition strip_sign :: "string \<Rightarrow> bool \<times> string" where
  "strip_sign s =
     (case s of c # cs \<Rightarrow> if c = CHR ''-'' then (True, cs) else if c = CHR ''+'' then (False, cs) else (False, s)
      | [] \<Rightarrow> (False, []))"

text \<open>\<^verbatim>\<open>strconv.Atoi\<close> for a 64-bit \<^verbatim>\<open>int\<close>.\<close>

definition Atoi :: "string \<Rightarrow> go_error + int" where
  "Atoi s =
     (let (neg, ds) = strip_sign s in
      if ds = [] then Inl (ErrText ''strconv.Atoi: invalid syntax'')
      else case read_digits 0 ds of
        None \<Rightarrow> Inl (ErrText ''strconv.Atoi: invalid syntax'')
      | Some n \<Rightarrow>
          let i = (if neg then - int n else int n) in
          if i < int64_min \<or> int64_max < i then Inl (ErrText ''strconv.Atoi: value out of range'')
          else Inr i)"

subsection \<open>Floats\<close>

definition hex_val :: "char \<Rightarrow> nat option" where
  "hex_val c =
     (case digit_val c of
        Some d \<Rightarrow> Some d
      | None \<Rightarrow> let n = byte_of (lower c) in if 97 \<le> n \<and> n \<le> 102 then Some (n - 87) else None)"

definition float_digit :: "bool \<Rightarrow> char \<Rightarrow> nat option" where
  "float_digit hx c = (if hx then hex_val c else digit_val c)"

text \<open>
  The mantissa: digits, one dot, underscores. The results: whether a digit was seen, the digits as a number,
  how many came after the dot, and the rest.
\<close>

fun scan_mant :: "bool \<Rightarrow> bool \<Rightarrow> bool \<Rightarrow> nat \<Rightarrow> nat \<Rightarrow> string \<Rightarrow> bool \<times> nat \<times> nat \<times> string" where
  "scan_mant hx dot seen m k [] = (seen, m, k, [])"
| "scan_mant hx dot seen m k (c # cs) =
     (if c = CHR ''_'' then scan_mant hx dot seen m k cs
      else if c = CHR ''.'' then (if dot then (seen, m, k, c # cs) else scan_mant hx True seen m k cs)
      else case float_digit hx c of
        Some d \<Rightarrow> scan_mant hx dot True (m * (if hx then 16 else 10) + d) (if dot then k + 1 else k) cs
      | None \<Rightarrow> (seen, m, k, c # cs))"

text \<open>The digits of an exponent; it stops growing at five digits, as in the library.\<close>

fun scan_exp :: "nat \<Rightarrow> string \<Rightarrow> nat \<times> string" where
  "scan_exp e [] = (e, [])"
| "scan_exp e (c # cs) =
     (if c = CHR ''_'' then scan_exp e cs
      else case digit_val c of
        Some d \<Rightarrow> scan_exp (if e < 10000 then e * 10 + d else e) cs
      | None \<Rightarrow> (e, c # cs))"

text \<open>An underscore must separate digits (the prefix of a hexadecimal literal counts as one).\<close>

fun underscores_ok :: "bool \<Rightarrow> char \<Rightarrow> string \<Rightarrow> bool" where
  "underscores_ok hx saw [] = (saw \<noteq> CHR ''_'')"
| "underscores_ok hx saw (c # cs) =
     (if float_digit hx c \<noteq> None then underscores_ok hx (CHR ''0'') cs
      else if c = CHR ''_'' then saw = CHR ''0'' \<and> underscores_ok hx (CHR ''_'') cs
      else saw \<noteq> CHR ''_'' \<and> underscores_ok hx (CHR ''!'') cs)"

text \<open>The optional exponent: \<open>None\<close> is a syntax error.\<close>

definition read_exponent :: "bool \<Rightarrow> string \<Rightarrow> (int \<times> string) option" where
  "read_exponent hx s =
     (case s of
        [] \<Rightarrow> if hx then None else Some (0, [])
      | c # cs \<Rightarrow>
          if lower c = (if hx then CHR ''p'' else CHR ''e'') then
            (let (neg, ds) = strip_sign cs in
             case ds of
               [] \<Rightarrow> None
             | d # _ \<Rightarrow>
                 if digit_val d = None then None
                 else let (e, rest) = scan_exp 0 ds in Some (if neg then - int e else int e, rest))
          else if hx then None else Some (0, s))"

definition signed_f64 :: "bool \<Rightarrow> rat \<Rightarrow> f64" where
  "signed_f64 neg x = round64 (if neg then - x else x)"

definition syntax_error :: go_error where
  "syntax_error = ErrText ''strconv.ParseFloat: invalid syntax''"

text \<open>A number without its sign: decimal, or hexadecimal after a prefix followed by something.\<close>

definition read_number :: "bool \<Rightarrow> string \<Rightarrow> go_error + f64" where
  "read_number neg s =
     (let hx = (case s of z # x # _ # _ \<Rightarrow> z = CHR ''0'' \<and> lower x = CHR ''x'' | _ \<Rightarrow> False);
          body = (if hx then drop 2 s else s);
          (seen, m, k, rest) = scan_mant hx False False 0 0 body
      in if \<not> seen then Inl syntax_error
         else case read_exponent hx rest of
           None \<Rightarrow> Inl syntax_error
         | Some (e, rest2) \<Rightarrow>
             if rest2 \<noteq> [] \<or> \<not> underscores_ok hx (if hx then CHR ''0'' else CHR ''^'') body then Inl syntax_error
             else let x = of_nat m * (if hx then 2 powi (e - 4 * int k) else 10 powi (e - int k)) in
                  (case signed_f64 neg x of
                     Fin r \<Rightarrow> Inr (Fin r)
                   | _ \<Rightarrow> Inl (ErrText ''strconv.ParseFloat: value out of range'')))"

definition ParseFloat64 :: "string \<Rightarrow> go_error + f64" where
  "ParseFloat64 s =
     (let (neg, body) = strip_sign s; w = map lower body in
      if w = ''inf'' \<or> w = ''infinity'' then Inr (Inf neg)
      else if body = s \<and> w = ''nan'' then Inr NaN
      else read_number neg body)"

lemma dec_nat_scan:
  "scan_mant False dot seen m k (dec_nat n @ cs) =
     scan_mant False dot True (m * 10 ^ length (dec_nat n) + n) (if dot then k + length (dec_nat n) else k) cs"
proof (induction n arbitrary: seen m k cs rule: dec_nat.induct)
  case (1 n)
  have d: "c \<noteq> CHR ''_'' \<and> c \<noteq> CHR ''.''" if "digit_val c = Some x" for c x
    using that by (auto simp: digit_val_def)
  show ?case
  proof (cases "n < 10")
    case True
    then show ?thesis using d [of "digit_char n" n] by (simp add: dec_nat.simps [of n] float_digit_def)
  next
    case False
    have dd: "digit_val (digit_char (n mod 10)) = Some (n mod 10)" by simp
    show ?thesis
      using "1.IH" [OF False, of seen m k "digit_char (n mod 10) # cs"] d [OF dd] False dd
      by (subst dec_nat.simps, subst (2) dec_nat.simps, subst (3) dec_nat.simps)
        (simp add: float_digit_def algebra_simps)
  qed
qed

lemma underscores_ok_none: "CHR ''_'' \<notin> set s \<Longrightarrow> saw \<noteq> CHR ''_'' \<Longrightarrow> underscores_ok hx saw s"
  by (induction s arbitrary: saw) auto

lemma digit_char_not: "d < 10 \<Longrightarrow> digit_char d \<notin> {CHR ''_'', CHR ''.'', CHR ''-'', CHR ''+''}"
  by (auto dest: arg_cong [where f = digit_val] simp: digit_val_def digit_val_digit_char [unfolded digit_val_def])

lemma lower_digit: "d < 10 \<Longrightarrow> lower (digit_char d) = digit_char d"
  by (simp add: lower_def byte_of_def digit_char_def)

lemma dec_nat_first: obtains d cs where "dec_nat n = digit_char d # cs" "d < 10"
proof (cases "dec_nat n")
  case (Cons c cs)
  then obtain d where "d < 10" "c = digit_char d" using dec_nat_digits [of c n] by auto
  with Cons show ?thesis by (intro that) auto
qed simp

lemma digit_char_neq_letter: "d < 10 \<Longrightarrow> byte_of (digit_char d) < 58"
  by (simp add: byte_of_def digit_char_def)

lemma ParseFloat64_tenths:
  "ParseFloat64 (dec_nat (n div 10) @ ''.'' @ dec_nat (n mod 10)) =
     (case round64 (of_nat n / 10) of Fin r \<Rightarrow> Inr (Fin r)
      | _ \<Rightarrow> Inl (ErrText ''strconv.ParseFloat: value out of range''))"
proof -
  let ?s = "dec_nat (n div 10) @ ''.'' @ dec_nat (n mod 10)"
  obtain d cs where f: "dec_nat (n div 10) = digit_char d # cs" "d < 10" by (rule dec_nat_first)
  have s: "?s = digit_char d # cs @ ''.'' @ dec_nat (n mod 10)" by (simp add: f)
  have sign: "strip_sign ?s = (False, ?s)"
    unfolding s strip_sign_def using digit_char_not [OF f(2)] by simp
  have low: "map lower ?s \<noteq> ''inf''" "map lower ?s \<noteq> ''infinity''" "map lower ?s \<noteq> ''nan''"
    unfolding s using digit_char_neq_letter [OF f(2)] by (auto simp: lower_digit [OF f(2)] byte_of_def)
  have nohex: "(case ?s of z # x # _ # _ \<Rightarrow> z = CHR ''0'' \<and> lower x = CHR ''x'' | _ \<Rightarrow> False) = False"
  proof -
    obtain x ys where x: "cs @ ''.'' @ dec_nat (n mod 10) = x # ys" by (cases cs) auto
    have "x = CHR ''.'' \<or> x \<in> set (dec_nat (n div 10))" using x f(1) by (cases cs) auto
    then have "x = CHR ''.'' \<or> (\<exists>e<10. x = digit_char e)" using dec_nat_digits by blast
    then have "byte_of (lower x) < 58"
      using digit_char_neq_letter by (auto simp: lower_digit) (simp add: lower_def byte_of_def)
    then have "lower x \<noteq> CHR ''x''" by (auto simp: byte_of_def)
    then show ?thesis unfolding s x by (auto split: list.split)
  qed
  have one: "dec_nat (n mod 10) = [digit_char (n mod 10)]" by (subst dec_nat.simps) simp
  have scan: "scan_mant False False False 0 0 ?s = (True, n, 1, [])"
    by (simp add: dec_nat_scan one float_digit_def digit_char_not [of "n mod 10", simplified]
        digit_char_not)
  have "CHR ''_'' \<notin> set ?s"
    using dec_nat_digits digit_char_not by fastforce
  then have und: "underscores_ok False (CHR ''^'') ?s" by (rule underscores_ok_none) simp
  have val: "of_nat n * 10 powi (0 - int 1) = (of_nat n / 10 :: rat)" by (simp add: power_int_minus field_simps)
  obtain t where t: "t = ?s" by simp
  note facts = sign [folded t] low [folded t] nohex [folded t] scan [folded t] und [folded t]
  have "ParseFloat64 t = (case round64 (of_nat n / 10) of Fin r \<Rightarrow> Inr (Fin r)
      | _ \<Rightarrow> Inl (ErrText ''strconv.ParseFloat: value out of range''))"
    using facts val [simplified]
    by (simp add: ParseFloat64_def read_number_def read_exponent_def signed_f64_def)
  then show ?thesis by (simp only: t)
qed

lemma ParseUint16_dec: "n \<le> 65535 \<Longrightarrow> ParseUint16 (dec_nat n) = Inr (of_nat n)"
  by (simp add: ParseUint16_def read_digits_dec_nat)

end
