(* ===== verification/ApplyCommand.thy ===== *)
theory ApplyCommand
  imports PollController GoStr
begin

text \<open>
  \<^verbatim>\<open>application/dto/command.go\<close> and \<^verbatim>\<open>application/usecase/apply_command.go\<close>: the commands and the
  write sequences they turn into. The dispatcher, the dwell timer and the snapshot provider
  are the record \<open>CommandOps\<close>; the locale \<open>command_port\<close> is the contract of the registers behind
  them, \<open>live_command_port\<close> adds that they answer, and both are interpreted on the dispatcher.
\<close>

subsection \<open>Commands (command.go)\<close>

datatype Command =
    SetPowerCommand bool
  | SetModeCommand Mode
  | SetTemperatureCommand Temperature
  | SetFanCommand FanSpeed

text \<open>The two bytes C2 B0 are the degree sign.\<close>

fun Command_String :: "Command \<Rightarrow> string" where
  "Command_String (SetPowerCommand on) = ''SetPower(on='' @ fmt_bool on @ '')''"
| "Command_String (SetModeCommand m) = ''SetMode('' @ Mode_String m @ '')''"
| "Command_String (SetTemperatureCommand t) =
     ''SetTemperature('' @ fmt_1f (Temperature_Celsius t) @ [CHR 0xC2, CHR 0xB0] @ ''C)''"
| "Command_String (SetFanCommand f) = ''SetFan(speed='' @ dec_nat (unat (FanSpeed_Value f)) @ '')''"

subsection \<open>The use case\<close>

definition AddrPowerDev :: u16 where "AddrPowerDev = 2"
definition AddrTempTarget :: u16 where "AddrTempTarget = 31"
definition AddrFanTarget1 :: u16 where "AddrFanTarget1 = 32"
definition AddrDevKeys2 :: u16 where "AddrDevKeys2 = 86"
definition DefaultPowerOffPause :: duration where "DefaultPowerOffPause = 150 * Millisecond"

lemmas addrs [enum_defs] = AddrPowerDev_def AddrTempTarget_def AddrFanTarget1_def AddrDevKeys2_def

record 's CommandOps =
  co_WriteHolding :: "u16 \<Rightarrow> u16 \<Rightarrow> 's \<Rightarrow> go_error option \<times> 's"
  co_ModifyHolding :: "u16 \<Rightarrow> (u16 \<Rightarrow> u16 option) \<Rightarrow> 's \<Rightarrow> go_error option \<times> 's"
  co_Wait :: "duration \<Rightarrow> 's \<Rightarrow> go_error option \<times> 's"
    \<comment> \<open>the select on the dwell timer and \<^verbatim>\<open>ctx.Done()\<close>\<close>
  co_Snapshot :: "'s \<Rightarrow> Snapshot"

definition transitionGuard :: "'s CommandOps \<Rightarrow> 's \<Rightarrow> go_error option" where
  "transitionGuard A s =
     (let snap = co_Snapshot A s in
      if IsTransitional (sn_Operation snap)
      then Some (Wrapf (''operation '' @ OperatingState_String (sn_Operation snap) @ '' in progress'')
             [DtoErr ErrTransitionInProgress])
      else None)"

definition hlabel :: "string \<Rightarrow> u16 \<Rightarrow> string" where
  "hlabel s a = s @ '' h'' @ dec_nat (unat a)"

text \<open>A write whose error is wrapped with the label of the call.\<close>

definition labelled :: "string \<Rightarrow> go_error option \<times> 's \<Rightarrow> go_error option \<times> 's" where
  "labelled l r = (case r of (None, s) \<Rightarrow> (None, s) | (Some e, s) \<Rightarrow> (Some (Wrapf l [e]), s))"

definition setPower :: "'s CommandOps \<Rightarrow> duration \<Rightarrow> bool \<Rightarrow> 's \<Rightarrow> go_error option \<times> 's" where
  "setPower A pause on s =
     (case transitionGuard A s of
        Some e \<Rightarrow> (Some e, s)
      | None \<Rightarrow>
          if on then labelled (hlabel ''power on write'' AddrPowerDev) (co_WriteHolding A AddrPowerDev 1 s)
          else (case labelled (hlabel ''power off rising-edge write'' AddrPowerDev)
                       (co_WriteHolding A AddrPowerDev 1 s) of
                  (Some e, s1) \<Rightarrow> (Some e, s1)
                | (None, s1) \<Rightarrow>
                    (case co_Wait A pause s1 of
                       (Some e, s2) \<Rightarrow> (Some e, s2)
                     | (None, s2) \<Rightarrow> labelled (hlabel ''power off falling-edge write'' AddrPowerDev)
                         (co_WriteHolding A AddrPowerDev 0 s2))))"

definition setMode :: "'s CommandOps \<Rightarrow> Mode \<Rightarrow> 's \<Rightarrow> go_error option \<times> 's" where
  "setMode A mode s =
     (case transitionGuard A s of
        Some e \<Rightarrow> (Some e, s)
      | None \<Rightarrow> labelled (hlabel ''set mode modify'' AddrDevKeys2)
          (co_ModifyHolding A AddrDevKeys2 (\<lambda>cur. Some (ApplyToRegister cur mode)) s))"

definition setTemperature :: "'s CommandOps \<Rightarrow> Temperature \<Rightarrow> 's \<Rightarrow> go_error option \<times> 's" where
  "setTemperature A t s =
     (case transitionGuard A s of
        Some e \<Rightarrow> (Some e, s)
      | None \<Rightarrow> labelled (hlabel ''set temperature write'' AddrTempTarget)
          (co_WriteHolding A AddrTempTarget (Temperature_Raw t) s))"

definition setFan :: "'s CommandOps \<Rightarrow> FanSpeed \<Rightarrow> 's \<Rightarrow> go_error option \<times> 's" where
  "setFan A f s =
     (case transitionGuard A s of
        Some e \<Rightarrow> (Some e, s)
      | None \<Rightarrow> labelled (hlabel ''set fan write'' AddrFanTarget1)
          (co_WriteHolding A AddrFanTarget1 (FanSpeed_Value f) s))"

text \<open>The interface \<^verbatim>\<open>Command\<close> is closed, so the default case of the type switch is never taken.\<close>

definition Apply :: "'s CommandOps \<Rightarrow> duration \<Rightarrow> Command option \<Rightarrow> 's \<Rightarrow> go_error option \<times> 's" where
  "Apply A pause cmd s =
     (case cmd of
        None \<Rightarrow> (Some (Wrapf ''nil command'' [DtoErr ErrInvalidPayload]), s)
      | Some (SetPowerCommand on) \<Rightarrow> setPower A pause on s
      | Some (SetModeCommand m) \<Rightarrow> setMode A m s
      | Some (SetTemperatureCommand t) \<Rightarrow> setTemperature A t s
      | Some (SetFanCommand f) \<Rightarrow> setFan A f s)"

lemmas apply_ops [op_defs] = setPower_def setMode_def setTemperature_def setFan_def

subsection \<open>What a command asks for\<close>

datatype CommandEvent = EvWrite u16 u16 | EvModify u16 | EvWait duration

text \<open>The bus traffic of each command, once the guard lets it pass.\<close>

fun command_script :: "duration \<Rightarrow> Command \<Rightarrow> CommandEvent list" where
  "command_script pause (SetPowerCommand True) = [EvWrite 2 1]"
| "command_script pause (SetPowerCommand False) = [EvWrite 2 1, EvWait pause, EvWrite 2 0]"
| "command_script pause (SetModeCommand m) = [EvModify 86]"
| "command_script pause (SetTemperatureCommand t) = [EvWrite 31 (Temperature_Raw t)]"
| "command_script pause (SetFanCommand f) = [EvWrite 32 (FanSpeed_Value f)]"

definition noting_cmd :: "'s CommandOps \<Rightarrow> ('s \<times> CommandEvent list) CommandOps" where
  "noting_cmd A =
     \<lparr>co_WriteHolding = (\<lambda>a v (s, l). case co_WriteHolding A a v s of (r, s') \<Rightarrow> (r, s', l @ [EvWrite a v])),
      co_ModifyHolding = (\<lambda>a f (s, l). case co_ModifyHolding A a f s of (r, s') \<Rightarrow> (r, s', l @ [EvModify a])),
      co_Wait = (\<lambda>d (s, l). case co_Wait A d s of (r, s') \<Rightarrow> (r, s', l @ [EvWait d])),
      co_Snapshot = (\<lambda>(s, l). co_Snapshot A s)\<rparr>"

lemma guard_noting [simp]: "transitionGuard (noting_cmd A) (s, l) = transitionGuard A s"
  by (simp add: transitionGuard_def noting_cmd_def)

lemma noting_cmd_sel [simp]:
  "co_WriteHolding (noting_cmd A) a v (s, l) =
     (case co_WriteHolding A a v s of (r, s') \<Rightarrow> (r, s', l @ [EvWrite a v]))"
  "co_ModifyHolding (noting_cmd A) a f (s, l) =
     (case co_ModifyHolding A a f s of (r, s') \<Rightarrow> (r, s', l @ [EvModify a]))"
  "co_Wait (noting_cmd A) d (s, l) = (case co_Wait A d s of (r, s') \<Rightarrow> (r, s', l @ [EvWait d]))"
  by (simp_all add: noting_cmd_def)

lemma guard_cases:
  obtains e where "transitionGuard A s = Some e" "IsTransitional (sn_Operation (co_Snapshot A s))"
    "err_is e (DtoErr ErrTransitionInProgress)"
  | "transitionGuard A s = None" "\<not> IsTransitional (sn_Operation (co_Snapshot A s))"
  by (cases "IsTransitional (sn_Operation (co_Snapshot A s))") (auto simp: transitionGuard_def Let_def)

lemma Apply_guarded:
  "transitionGuard A s = Some e \<Longrightarrow> Apply A pause (Some cmd) s = (Some e, s)"
  by (cases cmd) (simp_all add: Apply_def apply_ops)

lemma Apply_noted:
  assumes "transitionGuard A s = None" and "Apply (noting_cmd A) pause (Some cmd) (s, []) = (r, s', l)"
  shows "prefix l (command_script pause cmd) \<and> l \<noteq> [] \<and> (l = command_script pause cmd \<or> r \<noteq> None)
    \<and> Apply A pause (Some cmd) s = (r, s')"
proof (cases cmd)
  case (SetPowerCommand on)
  then show ?thesis
    using assms by (cases on)
      (auto simp: Apply_def apply_ops labelled_def AddrPowerDev_def split: prod.splits option.splits)
qed (use assms in \<open>auto simp: Apply_def apply_ops labelled_def enum_defs split: prod.splits option.splits\<close>)

subsection \<open>The contract of the registers behind the port\<close>

text \<open>What the registers hold when a command has been carried out.\<close>

fun command_effect :: "Command \<Rightarrow> RegFile \<Rightarrow> RegFile" where
  "command_effect (SetPowerCommand on) d = set_hold 2 (if on then 1 else 0) d"
| "command_effect (SetModeCommand m) d = set_hold 86 (ApplyToRegister (rf_hold d 86) m) d"
| "command_effect (SetTemperatureCommand t) d = set_hold 31 (Temperature_Raw t) d"
| "command_effect (SetFanCommand f) d = set_hold 32 (FanSpeed_Value f) d"

locale command_port =
  fixes A :: "'s CommandOps" and ok :: "'s \<Rightarrow> bool" and dev :: "'s \<Rightarrow> RegFile"
  assumes write_law: "ok s \<Longrightarrow> co_WriteHolding A a v s = (e, s') \<Longrightarrow>
      ok s' \<and> wrote a v (e = None) (dev s) (dev s')"
    and modify_law: "ok s \<Longrightarrow> co_ModifyHolding A a f s = (e, s') \<Longrightarrow>
      ok s' \<and> ((e \<noteq> None \<and> dev s' = dev s)
        \<or> (\<exists>v. f (rf_hold (dev s) a) = Some v \<and> wrote a v (e = None) (dev s) (dev s')))"
    and wait_law: "ok s \<Longrightarrow> co_Wait A d s = (e, s') \<Longrightarrow> ok s' \<and> dev s' = dev s"
begin

lemma labelled_write:
  assumes "ok s" and "labelled l (co_WriteHolding A a v s) = (e, s')"
  shows "ok s' \<and> wrote a v (e = None) (dev s) (dev s')"
  using assms(2) write_law [OF assms(1), of a v]
  by (cases "co_WriteHolding A a v s") (auto simp: labelled_def split: option.splits)

lemma labelled_modify:
  assumes "ok s" and "labelled l (co_ModifyHolding A a f s) = (e, s')"
  shows "ok s' \<and> ((e \<noteq> None \<and> dev s' = dev s)
    \<or> (\<exists>v. f (rf_hold (dev s) a) = Some v \<and> wrote a v (e = None) (dev s) (dev s')))"
  using assms(2) modify_law [OF assms(1), of a f]
  by (cases "co_ModifyHolding A a f s") (auto simp: labelled_def split: option.splits)

lemma Apply_effect:
  assumes "ok s" and "Apply A pause (Some cmd) s = (e, s')"
  shows "ok s' \<and> (e = None \<longrightarrow> dev s' = command_effect cmd (dev s))
    \<and> (e \<noteq> None \<longrightarrow> dev s' = dev s \<or> dev s' = command_effect cmd (dev s)
          \<or> (cmd = SetPowerCommand False \<and> dev s' = set_hold 2 1 (dev s)))"
proof (cases "transitionGuard A s")
  case (Some g)
  then have "e = Some g" "s' = s" using Apply_guarded [OF Some, of pause cmd] assms(2) by simp_all
  then show ?thesis using assms(1) by simp
next
  case None
  show ?thesis
  proof (cases cmd)
    case (SetPowerCommand on)
    show ?thesis
    proof (cases on)
      case True
      then show ?thesis
        using labelled_write [OF assms(1)] assms(2) None SetPowerCommand
        by (fastforce simp: Apply_def apply_ops wrote_def AddrPowerDev_def)
    next
      case False
      obtain e1 s1 where 1: "labelled (hlabel ''power off rising-edge write'' AddrPowerDev)
          (co_WriteHolding A AddrPowerDev 1 s) = (e1, s1)" by fastforce
      obtain e2 s2 where 2: "co_Wait A pause s1 = (e2, s2)" by fastforce
      obtain e3 s3 where 3: "labelled (hlabel ''power off falling-edge write'' AddrPowerDev)
          (co_WriteHolding A AddrPowerDev 0 s2) = (e3, s3)" by fastforce
      note l1 = labelled_write [OF assms(1) 1]
      then have "ok s1" by simp
      note l2 = wait_law [OF this 2]
      then have "ok s2" by simp
      note l3 = labelled_write [OF this 3]
      have s: "(e, s') = (case e1 of Some x \<Rightarrow> (Some x, s1) | None \<Rightarrow>
          (case e2 of Some x \<Rightarrow> (Some x, s2) | None \<Rightarrow> (e3, s3)))"
        using assms(2) None SetPowerCommand False 1 2 3
        by (cases e1; cases e2) (auto simp: Apply_def apply_ops)
      then show ?thesis
        using l1 l2 l3 SetPowerCommand False
        by (auto simp: wrote_def AddrPowerDev_def split: option.splits)
    qed
  next
    case (SetModeCommand m)
    then show ?thesis
      using labelled_modify [OF assms(1)] assms(2) None
      by (fastforce simp: Apply_def apply_ops wrote_def AddrDevKeys2_def)
  next
    case (SetTemperatureCommand t)
    then show ?thesis
      using labelled_write [OF assms(1)] assms(2) None
      by (fastforce simp: Apply_def apply_ops wrote_def AddrTempTarget_def)
  next
    case (SetFanCommand f)
    then show ?thesis
      using labelled_write [OF assms(1)] assms(2) None
      by (fastforce simp: Apply_def apply_ops wrote_def AddrFanTarget1_def)
  qed
qed

end

text \<open>Registers that answer: a command the guard lets pass is carried out.\<close>

locale live_command_port = command_port A ok dev
  for A :: "'s CommandOps" and ok :: "'s \<Rightarrow> bool" and dev :: "'s \<Rightarrow> RegFile" +
  fixes up :: "'s \<Rightarrow> bool"
  assumes up_ok: "up s \<Longrightarrow> ok s"
    and write_up: "up s \<Longrightarrow> \<exists>s'. co_WriteHolding A a v s = (None, s') \<and> up s'"
    and modify_up: "up s \<Longrightarrow> f (rf_hold (dev s) a) = Some v \<Longrightarrow> \<exists>s'. co_ModifyHolding A a f s = (None, s') \<and> up s'"
    and wait_up: "up s \<Longrightarrow> \<exists>s'. co_Wait A d s = (None, s') \<and> up s'"
begin

lemma Apply_succeeds:
  assumes "up s" and "transitionGuard A s = None"
  shows "\<exists>s'. Apply A pause (Some cmd) s = (None, s') \<and> up s' \<and> dev s' = command_effect cmd (dev s)"
proof -
  have "\<exists>s'. Apply A pause (Some cmd) s = (None, s') \<and> up s'"
  proof (cases cmd)
    case (SetPowerCommand on)
    obtain s1 where 1: "co_WriteHolding A AddrPowerDev 1 s = (None, s1)" "up s1"
      using write_up [OF assms(1)] by blast
    obtain s2 where 2: "co_Wait A pause s1 = (None, s2)" "up s2" using wait_up [OF 1(2)] by blast
    obtain s3 where 3: "co_WriteHolding A AddrPowerDev 0 s2 = (None, s3)" "up s3"
      using write_up [OF 2(2)] by blast
    show ?thesis using SetPowerCommand 1 2 3 assms(2)
      by (cases on) (simp_all add: Apply_def apply_ops labelled_def)
  next
    case (SetModeCommand m)
    obtain s1 where "co_ModifyHolding A AddrDevKeys2 (\<lambda>cur. Some (ApplyToRegister cur m)) s = (None, s1)" "up s1"
      using modify_up [OF assms(1), of "\<lambda>cur. Some (ApplyToRegister cur m)" AddrDevKeys2] by auto
    then show ?thesis using SetModeCommand assms(2) by (simp add: Apply_def apply_ops labelled_def)
  next
    case (SetTemperatureCommand t)
    obtain s1 where "co_WriteHolding A AddrTempTarget (Temperature_Raw t) s = (None, s1)" "up s1"
      using write_up [OF assms(1)] by blast
    then show ?thesis using SetTemperatureCommand assms(2) by (simp add: Apply_def apply_ops labelled_def)
  next
    case (SetFanCommand f)
    obtain s1 where "co_WriteHolding A AddrFanTarget1 (FanSpeed_Value f) s = (None, s1)" "up s1"
      using write_up [OF assms(1)] by blast
    then show ?thesis using SetFanCommand assms(2) by (simp add: Apply_def apply_ops labelled_def)
  qed
  then show ?thesis using Apply_effect [OF up_ok [OF assms(1)], of pause cmd] by blast
qed

end

subsection \<open>The dispatcher as the command port\<close>

text \<open>The state is the dispatcher with the latest snapshot of the poller.\<close>

definition command_ops :: "'w ModbusEnv \<Rightarrow> ('w Client Dispatcher \<times> Snapshot) CommandOps" where
  "command_ops E =
     \<lparr>co_WriteHolding = (\<lambda>a v (d, sn). case ds_WriteHolding (client_port E) a v d of (r, d') \<Rightarrow> (r, d', sn)),
      co_ModifyHolding = (\<lambda>a f (d, sn). case ds_ModifyHolding (client_port E) a f d of (r, d') \<Rightarrow> (r, d', sn)),
      co_Wait = (\<lambda>t (d, sn). case me_wait E t (cl_world (ds_client d)) of
                   (r, w) \<Rightarrow> (r, d\<lparr>ds_client := (ds_client d)\<lparr>cl_world := w\<rparr>\<rparr>, sn)),
      co_Snapshot = snd\<rparr>"

interpretation disp_commands: command_port "command_ops E" "\<lambda>_. device_laws E dev" "\<lambda>(d, sn). disp_dev dev d"
  for E dev
proof
  fix s s' :: "'a Client Dispatcher \<times> Snapshot" and a v e f t
  assume L: "device_laws E dev"
  obtain d sn where s: "s = (d, sn)" by (cases s)
  show "device_laws E dev \<and> wrote a v (e = None) (case s of (d, sn) \<Rightarrow> disp_dev dev d) (case s' of (d, sn) \<Rightarrow> disp_dev dev d)"
    if "co_WriteHolding (command_ops E) a v s = (e, s')"
    using that L WriteHolding_dev [OF L, of a v "ds_client d"]
    by (auto simp: s command_ops_def ds_ops client_port_def disp_dev_def Let_def split: prod.splits)
  show "device_laws E dev \<and> ((e \<noteq> None \<and> (case s' of (d, sn) \<Rightarrow> disp_dev dev d) = (case s of (d, sn) \<Rightarrow> disp_dev dev d))
      \<or> (\<exists>v. f (rf_hold (case s of (d, sn) \<Rightarrow> disp_dev dev d) a) = Some v
          \<and> wrote a v (e = None) (case s of (d, sn) \<Rightarrow> disp_dev dev d) (case s' of (d, sn) \<Rightarrow> disp_dev dev d)))"
    if "co_ModifyHolding (command_ops E) a f s = (e, s')"
    using that L ModifyHolding_dev [OF L, of a f "ds_client d"]
    by (auto simp: s command_ops_def ds_ops client_port_def disp_dev_def Let_def split: prod.splits)
  show "device_laws E dev \<and> (case s' of (d, sn) \<Rightarrow> disp_dev dev d) = (case s of (d, sn) \<Rightarrow> disp_dev dev d)"
    if "co_Wait (command_ops E) t s = (e, s')"
    using that L device_lawsD(2) [OF L, of t "cl_world (ds_client d)"]
    by (auto simp: s command_ops_def disp_dev_def split: prod.splits)
qed

interpretation live_commands: live_command_port "command_ops E" "\<lambda>_. device_laws E dev"
  "\<lambda>(d, sn). disp_dev dev d" "\<lambda>(d, sn). disp_up E dev up d" for E dev up
proof
  fix s :: "'a Client Dispatcher \<times> Snapshot" and a v f t
  assume u: "case s of (d, sn) \<Rightarrow> disp_up E dev up d"
  obtain d sn where s: "s = (d, sn)" by (cases s)
  have L: "device_laws E dev" "responsive E up" "usable up (ds_client d)"
    using u by (simp_all add: s disp_up_def)
  obtain c where "WriteHolding E a v (ds_client d) = (None, c)" "usable up c"
    by (rule WriteHolding_usable [OF L(2,3)])
  with L show "\<exists>s'. co_WriteHolding (command_ops E) a v s = (None, s') \<and> (case s' of (d, sn) \<Rightarrow> disp_up E dev up d)"
    by (simp add: s command_ops_def ds_ops client_port_def disp_up_def)
  show "\<exists>s'. co_ModifyHolding (command_ops E) a f s = (None, s') \<and> (case s' of (d, sn) \<Rightarrow> disp_up E dev up d)"
    if f: "f (rf_hold (case s of (d, sn) \<Rightarrow> disp_dev dev d) a) = Some v"
  proof -
    have "f (rf_hold (client_dev dev (ds_client d)) a) = Some v" using f by (simp add: s disp_dev_def)
    then obtain c where "ModifyHolding E a f (ds_client d) = (None, c)" "usable up c"
      by (rule ModifyHolding_usable [OF L])
    with L show ?thesis by (simp add: s command_ops_def ds_ops client_port_def disp_up_def)
  qed
  show "\<exists>s'. co_Wait (command_ops E) t s = (None, s') \<and> (case s' of (d, sn) \<Rightarrow> disp_up E dev up d)"
  proof -
    have "fst (me_wait E t (cl_world (ds_client d))) = None" "up (snd (me_wait E t (cl_world (ds_client d))))"
      using L(2,3) by (simp_all add: responsive_def usable_def)
    then show ?thesis
      using L by (simp add: s command_ops_def disp_up_def usable_def case_prod_unfold)
  qed
qed (auto simp: disp_up_def)

subsection \<open>Properties\<close>

text \<open>
  C19. A command is refused, without touching the controller, exactly when the latest snapshot
  reports a transition in progress; this guard holds for switching the power on too. A missing
  command is refused as an invalid payload.
\<close>

theorem commands_guarded:
  "(case Apply (noting_cmd A) pause (Some cmd) (s, []) of (r, s', l) \<Rightarrow>
      if IsTransitional (sn_Operation (co_Snapshot A s))
      then s' = s \<and> l = [] \<and> (\<exists>e. r = Some e \<and> err_is e (DtoErr ErrTransitionInProgress))
      else l \<noteq> [])
   \<and> (\<exists>e. Apply A pause None s = (Some e, s) \<and> err_is e (DtoErr ErrInvalidPayload))"
proof -
  obtain r s' l where a: "Apply (noting_cmd A) pause (Some cmd) (s, []) = (r, s', l)" by (rule prod_cases3)
  show ?thesis
  proof (rule guard_cases [of A s])
    fix e
    assume g: "transitionGuard A s = Some e" "IsTransitional (sn_Operation (co_Snapshot A s))"
      "err_is e (DtoErr ErrTransitionInProgress)"
    then have "transitionGuard (noting_cmd A) (s, []) = Some e" by simp
    from Apply_guarded [OF this, of pause cmd] a have "r = Some e" "s' = s" "l = []" by simp_all
    then show ?thesis using a g by (simp add: Apply_def)
  next
    assume g: "transitionGuard A s = None" "\<not> IsTransitional (sn_Operation (co_Snapshot A s))"
    then show ?thesis using a Apply_noted [OF g(1) a] by (simp add: Apply_def)
  qed
qed




subsection \<open>Witnesses\<close>




end
