(* ===== verification/Json.thy ===== *)
theory Json
  imports GoFloat GoError
begin

text \<open>
  What the program uses of \<^verbatim>\<open>encoding/json\<close>: documents as trees, \<open>Marshal\<close> from a tree to
  the bytes of the document, and the field helpers for struct tags with \<^verbatim>\<open>omitempty\<close>. Strings are
  escaped as the library does it (quotes, control characters, the HTML characters, the two line
  separators, and invalid UTF-8 replaced). A float is printed with the fewest decimals that read
  back to it, which is the library's format for magnitudes between \<open>10 powi -6\<close> and
  \<open>2 ^ 53\<close>; the program marshals 0.5, 5 and 30. Marshalling fails on infinities and
  not-a-numbers only.
\<close>

datatype json =
    JString string
  | JInt int
  | JFloat f64
  | JArray "json list"
  | JObject "(string \<times> json) list"

subsection \<open>Strings\<close>

definition hex_low :: "nat \<Rightarrow> char" where
  "hex_low d = (if d < 10 then char_of (48 + d) else char_of (87 + d))"

definition u_escape :: "nat \<Rightarrow> string" where
  "u_escape n = CHR 0x5C # CHR ''u'' #
     [hex_low (n div 4096 mod 16), hex_low (n div 256 mod 16), hex_low (n div 16 mod 16), hex_low (n mod 16)]"

definition escape_ascii :: "nat \<Rightarrow> string" where
  "escape_ascii b =
     (if b = 0x5C \<or> b = 0x22 then [CHR 0x5C, char_of b]
      else if b = 8 then [CHR 0x5C, CHR ''b'']
      else if b = 12 then [CHR 0x5C, CHR ''f'']
      else if b = 10 then [CHR 0x5C, CHR ''n'']
      else if b = 13 then [CHR 0x5C, CHR ''r'']
      else if b = 9 then [CHR 0x5C, CHR ''t'']
      else if b < 0x20 \<or> b \<in> {0x3C, 0x3E, 0x26} then u_escape b
      else [char_of b])"

definition in_range :: "nat \<Rightarrow> nat \<Rightarrow> nat list \<Rightarrow> bool" where
  "in_range lo hi bs = (case bs of [] \<Rightarrow> False | b # _ \<Rightarrow> lo \<le> b \<and> b \<le> hi)"

text \<open>\<^verbatim>\<open>utf8.DecodeRune\<close> on a string whose first byte is not ASCII: the length of the encoding, or none.\<close>

definition rune_len :: "nat \<Rightarrow> nat list \<Rightarrow> nat option" where
  "rune_len b cs =
     (let c1 = drop 1 cs; c2 = drop 2 cs in
      if 0xC2 \<le> b \<and> b \<le> 0xDF then (if in_range 0x80 0xBF cs then Some 2 else None)
      else if 0xE0 \<le> b \<and> b \<le> 0xEF then
        (if in_range (if b = 0xE0 then 0xA0 else 0x80) (if b = 0xED then 0x9F else 0xBF) cs
            \<and> in_range 0x80 0xBF c1 then Some 3 else None)
      else if 0xF0 \<le> b \<and> b \<le> 0xF4 then
        (if in_range (if b = 0xF0 then 0x90 else 0x80) (if b = 0xF4 then 0x8F else 0xBF) cs
            \<and> in_range 0x80 0xBF c1 \<and> in_range 0x80 0xBF c2 then Some 4 else None)
      else None)"

fun escape_bytes :: "nat list \<Rightarrow> string" where
  "escape_bytes [] = []"
| "escape_bytes (b # cs) =
     (if b < 0x80 then escape_ascii b @ escape_bytes cs
      else case rune_len b cs of
        None \<Rightarrow> u_escape 0xFFFD @ escape_bytes cs
      | Some n \<Rightarrow>
          (if b = 0xE2 \<and> take 2 cs = [0x80, 0xA8] then u_escape 0x2028
           else if b = 0xE2 \<and> take 2 cs = [0x80, 0xA9] then u_escape 0x2029
           else map char_of (b # take (n - 1) cs)) @ escape_bytes (drop (n - 1) cs))"

definition json_string :: "string \<Rightarrow> string" where
  "json_string s = CHR 0x22 # escape_bytes (map of_char s) @ [CHR 0x22]"

subsection \<open>Numbers\<close>

definition decimals :: "rat \<Rightarrow> nat \<Rightarrow> int" where
  "decimals x k = rnd_even (\<bar>x\<bar> * 10 ^ k)"

text \<open>The fewest decimals that read back to the float; 17 significant digits always do.\<close>

definition precision_of :: "rat \<Rightarrow> nat" where
  "precision_of x =
     (case filter (\<lambda>k. round64 (of_int (decimals x k) / 10 ^ k) = Fin \<bar>x\<bar>) [0..<25] of
        [] \<Rightarrow> 25 | k # _ \<Rightarrow> k)"

fun last_digits :: "nat \<Rightarrow> nat \<Rightarrow> string" where
  "last_digits 0 n = []"
| "last_digits (Suc k) n = last_digits k (n div 10) @ [digit_char (n mod 10)]"

definition json_float :: "rat \<Rightarrow> string" where
  "json_float x =
     (let k = precision_of x; n = nat (decimals x k) in
      (if x < 0 then ''-'' else []) @ dec_nat (n div 10 ^ k) @
      (if k = 0 then [] else CHR ''.'' # last_digits k n))"

subsection \<open>Documents\<close>

definition comma_join :: "string list \<Rightarrow> string" where
  "comma_join = (\<lambda>xs. case xs of [] \<Rightarrow> [] | y # ys \<Rightarrow> y @ concat (map (\<lambda>z. CHR '','' # z) ys))"

fun render :: "json \<Rightarrow> string" where
  "render (JString s) = json_string s"
| "render (JInt i) = dec_int i"
| "render (JFloat f) = (case f of Fin x \<Rightarrow> json_float x | _ \<Rightarrow> [])"
| "render (JArray js) = CHR ''['' # comma_join (map render js) @ '']''"
| "render (JObject fs) =
     CHR ''{'' # comma_join (map (\<lambda>(k, j). json_string k @ CHR '':'' # render j) fs) @ ''}''"

fun finite_numbers :: "json \<Rightarrow> bool" where
  "finite_numbers (JFloat f) = (case f of Fin _ \<Rightarrow> True | _ \<Rightarrow> False)"
| "finite_numbers (JArray js) = list_all finite_numbers js"
| "finite_numbers (JObject fs) = list_all (\<lambda>(k, j). finite_numbers j) fs"
| "finite_numbers _ = True"

definition Marshal :: "json \<Rightarrow> go_error + string" where
  "Marshal j = (if finite_numbers j then Inr (render j) else Inl (ErrText ''json: unsupported value''))"

subsection \<open>Struct fields\<close>

definition str_omit :: "string \<Rightarrow> string \<Rightarrow> (string \<times> json) list" where
  "str_omit k v = (if v = [] then [] else [(k, JString v)])"

definition int_omit :: "string \<Rightarrow> int \<Rightarrow> (string \<times> json) list" where
  "int_omit k v = (if v = 0 then [] else [(k, JInt v)])"

definition float_omit :: "string \<Rightarrow> f64 \<Rightarrow> (string \<times> json) list" where
  "float_omit k v = (if v = Fin 0 then [] else [(k, JFloat v)])"

definition strs_omit :: "string \<Rightarrow> string list \<Rightarrow> (string \<times> json) list" where
  "strs_omit k v = (if v = [] then [] else [(k, JArray (map JString v))])"

lemmas json_fields = str_omit_def int_omit_def float_omit_def strs_omit_def

text \<open>Reading a member of an object.\<close>

fun field :: "string \<Rightarrow> json \<Rightarrow> json option" where
  "field k (JObject fs) = map_of fs k"
| "field k _ = None"

end
