(* ===== verification/MqttClient.thy ===== *)
theory MqttClient
  imports Config Metrics GoError "HOL-Library.Sublist"
begin

text \<open>
  \<^verbatim>\<open>infrastructure/mqtt/topic.go\<close> and \<^verbatim>\<open>infrastructure/mqtt/client.go\<close>: the topics of the bridge,
  and the client over the broker library. The library is the record \<open>MqttEnv\<close> over an abstract
  world; \<open>onConnect\<close> and \<open>onConnectionLost\<close> are the callbacks the library runs. The locale
  \<open>publisher\<close> is the interface the publishing use cases rely on, interpreted on this client.
\<close>

subsection \<open>Topics (topic.go)\<close>

record TopicBuilder =
  tb_discoveryPrefix :: string
  tb_devicePrefix :: string

definition NewTopicBuilder :: "HAConfig \<Rightarrow> TopicBuilder option" where
  "NewTopicBuilder cfg =
     (if ha_DiscoveryPrefix cfg = '''' then None
      else if ha_DevicePrefix cfg = '''' then None
      else Some \<lparr>tb_discoveryPrefix = ha_DiscoveryPrefix cfg, tb_devicePrefix = ha_DevicePrefix cfg\<rparr>)"

definition Topic_Discovery :: "TopicBuilder \<Rightarrow> string \<Rightarrow> string \<Rightarrow> string" where
  "Topic_Discovery b component objectID =
     tb_discoveryPrefix b @ ''/'' @ component @ ''/'' @ tb_devicePrefix b @ ''/'' @ objectID @ ''/config''"

definition Topic_State :: "TopicBuilder \<Rightarrow> string \<Rightarrow> string" where
  "Topic_State b objectID = tb_devicePrefix b @ ''/state/'' @ objectID"

definition Topic_Command :: "TopicBuilder \<Rightarrow> string \<Rightarrow> string" where
  "Topic_Command b objectID = tb_devicePrefix b @ ''/cmd/'' @ objectID"

definition Topic_CommandWildcard :: "TopicBuilder \<Rightarrow> string" where
  "Topic_CommandWildcard b = tb_devicePrefix b @ ''/cmd/+''"

definition Topic_Availability :: "TopicBuilder \<Rightarrow> string" where
  "Topic_Availability b = tb_devicePrefix b @ ''/availability''"

lemmas topic_defs = Topic_Discovery_def Topic_State_def Topic_Command_def Topic_CommandWildcard_def
  Topic_Availability_def

lemma topics_inject [simp]:
  "Topic_State b x = Topic_State b y \<longleftrightarrow> x = y"
  "Topic_Command b x = Topic_Command b y \<longleftrightarrow> x = y"
  by (simp_all add: topic_defs)

lemma topics_apart [simp]:
  "Topic_State b x \<noteq> Topic_Command b y" "Topic_Command b y \<noteq> Topic_State b x"
  "Topic_State b x \<noteq> Topic_Availability b" "Topic_Availability b \<noteq> Topic_State b x"
  "Topic_Command b y \<noteq> Topic_Availability b" "Topic_Availability b \<noteq> Topic_Command b y"
  by (simp_all add: topic_defs)

subsection \<open>The library and the client (client.go)\<close>

definition AvailabilityOnline :: string where "AvailabilityOnline = ''online''"
definition AvailabilityOffline :: string where "AvailabilityOffline = ''offline''"

record MqttOptions =
  mo_Broker :: string
  mo_ClientID :: string
  mo_CleanSession :: bool
  mo_Keepalive :: duration
  mo_AutoReconnect :: bool
  mo_MaxReconnectInterval :: duration
  mo_ConnectRetry :: bool
  mo_ConnectRetryInterval :: duration
  mo_Will :: "string \<times> string \<times> u8 \<times> bool"
  mo_Credentials :: "(string \<times> string) option"

text \<open>
  How waiting for a token ends: it completed, with or without an error, or the wait was abandoned
  first, by the context (with its error) or by the timeout of \<^verbatim>\<open>WaitTimeout\<close>.
\<close>

datatype token = Completed "go_error option" | Abandoned go_error

record ('h, 'w) MqttEnv =
  qe_connect :: "MqttOptions \<Rightarrow> 'w \<Rightarrow> token \<times> 'w"
  qe_publish :: "string \<Rightarrow> u8 \<Rightarrow> bool \<Rightarrow> string \<Rightarrow> 'w \<Rightarrow> token \<times> 'w"
  qe_subscribe :: "string \<Rightarrow> u8 \<Rightarrow> 'h \<Rightarrow> 'w \<Rightarrow> token \<times> 'w"
  qe_disconnect :: "int \<Rightarrow> 'w \<Rightarrow> 'w"

record ('h, 'w) MqttClient =
  mqc_cfg :: MQTTConfig
  mqc_topics :: TopicBuilder
  mqc_client :: bool   \<comment> \<open>whether the library client has been created\<close>
  mqc_subs :: "string \<rightharpoonup> 'h"
  mqc_connected :: bool
  mqc_metrics :: Metrics
  mqc_world :: 'w

definition NewMqttClient :: "MQTTConfig \<Rightarrow> TopicBuilder \<Rightarrow> Metrics \<Rightarrow> 'w \<Rightarrow> ('h, 'w) MqttClient" where
  "NewMqttClient cfg topics m w =
     \<lparr>mqc_cfg = cfg, mqc_topics = topics, mqc_client = False, mqc_subs = Map.empty,
      mqc_connected = False, mqc_metrics = m, mqc_world = w\<rparr>"

definition mqtt_options :: "('h, 'w) MqttClient \<Rightarrow> MqttOptions" where
  "mqtt_options c =
     (let cfg = mqc_cfg c in
      \<lparr>mo_Broker = ''tcp://'' @ mq_Broker cfg, mo_ClientID = mq_ClientID cfg, mo_CleanSession = True,
       mo_Keepalive = mq_Keepalive cfg, mo_AutoReconnect = True, mo_MaxReconnectInterval = 60 * Second,
       mo_ConnectRetry = True, mo_ConnectRetryInterval = 5 * Second,
       mo_Will = (Topic_Availability (mqc_topics c), AvailabilityOffline, mq_QoS cfg, True),
       mo_Credentials = (if mq_Username cfg \<noteq> '''' then Some (mq_Username cfg, mq_Password cfg) else None)\<rparr>)"

definition mq_Connect :: "('h, 'w) MqttEnv \<Rightarrow> ('h, 'w) MqttClient \<Rightarrow> go_error option \<times> ('h, 'w) MqttClient" where
  "mq_Connect E c =
     (let c1 = c\<lparr>mqc_client := True\<rparr>; (t, w) = qe_connect E (mqtt_options c) (mqc_world c1);
          c2 = c1\<lparr>mqc_world := w\<rparr>
      in case t of
           Completed None \<Rightarrow> (None, c2)
         | Completed (Some err) \<Rightarrow> (Some (Wrapf ''mqtt connect'' [err]), c2)
         | Abandoned err \<Rightarrow> (Some err, c2))"

definition mq_Disconnect :: "('h, 'w) MqttEnv \<Rightarrow> duration \<Rightarrow> ('h, 'w) MqttClient \<Rightarrow> ('h, 'w) MqttClient" where
  "mq_Disconnect E quiesce c =
     (if \<not> mqc_client c \<or> \<not> mqc_connected c then c
      else let (t, w) = qe_publish E (Topic_Availability (mqc_topics c)) (mq_QoS (mqc_cfg c)) True
                          AvailabilityOffline (mqc_world c)
           in c\<lparr>mqc_world := qe_disconnect E (quiesce div Millisecond) w, mqc_connected := False,
                mqc_metrics := SetMQTTConnected False (mqc_metrics c)\<rparr>)"

definition mq_Publish ::
  "('h, 'w) MqttEnv \<Rightarrow> string \<Rightarrow> string \<Rightarrow> bool \<Rightarrow> ('h, 'w) MqttClient \<Rightarrow> go_error option \<times> ('h, 'w) MqttClient" where
  "mq_Publish E topic payload retained c =
     (if \<not> mqc_connected c then (Some (DtoErr ErrMQTTNotConnected), c)
      else if \<not> mqc_client c then (Some (DtoErr ErrMQTTNotConnected), c)
      else let (t, w) = qe_publish E topic (mq_QoS (mqc_cfg c)) retained payload (mqc_world c);
               c1 = c\<lparr>mqc_world := w\<rparr>
           in case t of
                Completed None \<Rightarrow> (None, c1\<lparr>mqc_metrics := counter_inc MQTTPublishesTotal (mqc_metrics c1)\<rparr>)
              | Completed (Some err) \<Rightarrow> (Some (Wrapf (''mqtt publish '' @ go_quote topic) [err]), c1)
              | Abandoned err \<Rightarrow> (Some err, c1))"

definition mq_Subscribe ::
  "('h, 'w) MqttEnv \<Rightarrow> string \<Rightarrow> 'h option \<Rightarrow> ('h, 'w) MqttClient \<Rightarrow> go_error option \<times> ('h, 'w) MqttClient" where
  "mq_Subscribe E topic handler c =
     (case handler of
        None \<Rightarrow> (Some (ErrText (''mqtt subscribe '' @ go_quote topic @ '': handler is nil'')), c)
      | Some h \<Rightarrow>
          (let c1 = c\<lparr>mqc_subs := (mqc_subs c)(topic \<mapsto> h)\<rparr> in
           if \<not> mqc_connected c1 \<or> \<not> mqc_client c1 then (None, c1)
           else let (t, w) = qe_subscribe E topic (mq_QoS (mqc_cfg c1)) h (mqc_world c1);
                    c2 = c1\<lparr>mqc_world := w\<rparr>
                in case t of
                     Completed None \<Rightarrow> (None, c2)
                   | Completed (Some err) \<Rightarrow> (Some (Wrapf (''mqtt subscribe '' @ go_quote topic) [err]), c2)
                   | Abandoned err \<Rightarrow> (Some err, c2)))"

definition mq_Connected :: "('h, 'w) MqttClient \<Rightarrow> bool" where
  "mq_Connected c = mqc_connected c"

text \<open>
  One round of the resubscription loop: a failure or a timeout is logged and skipped. The
  iteration order of the registry is the argument \<open>order\<close> of \<open>onConnect\<close>.
\<close>

definition resubscribe :: "('h, 'w) MqttEnv \<Rightarrow> (string \<rightharpoonup> 'h) \<Rightarrow> u8 \<Rightarrow> string \<Rightarrow> 'w \<Rightarrow> 'w" where
  "resubscribe E subs qos topic w =
     (case subs topic of None \<Rightarrow> w | Some h \<Rightarrow> snd (qe_subscribe E topic qos h w))"

definition onConnect :: "('h, 'w) MqttEnv \<Rightarrow> string list \<Rightarrow> ('h, 'w) MqttClient \<Rightarrow> ('h, 'w) MqttClient" where
  "onConnect E order c =
     (let c1 = c\<lparr>mqc_connected := True,
                 mqc_metrics := counter_inc MQTTReconnectsTotal (SetMQTTConnected True (mqc_metrics c))\<rparr>
      in if \<not> mqc_client c1 then c1
         else let (t, w) = qe_publish E (Topic_Availability (mqc_topics c1)) (mq_QoS (mqc_cfg c1)) True
                             AvailabilityOnline (mqc_world c1)
              in c1\<lparr>mqc_world := fold (resubscribe E (mqc_subs c1) (mq_QoS (mqc_cfg c1))) order w\<rparr>)"

definition onConnectionLost :: "('h, 'w) MqttClient \<Rightarrow> ('h, 'w) MqttClient" where
  "onConnectionLost c = c\<lparr>mqc_connected := False, mqc_metrics := SetMQTTConnected False (mqc_metrics c)\<rparr>"

subsection \<open>What the broker is asked\<close>

datatype 'h broker_event = BPublish string string bool | BSubscribe string 'h

definition log_law :: "('h, 'w) MqttEnv \<Rightarrow> ('w \<Rightarrow> 'h broker_event list) \<Rightarrow> bool" where
  "log_law E lg \<longleftrightarrow>
     (\<forall>t q r p w. lg (snd (qe_publish E t q r p w)) = lg w @ [BPublish t p r])
     \<and> (\<forall>t q h w. lg (snd (qe_subscribe E t q h w)) = lg w @ [BSubscribe t h])
     \<and> (\<forall>o' w. lg (snd (qe_connect E o' w)) = lg w) \<and> (\<forall>n w. lg (qe_disconnect E n w) = lg w)"

lemma fold_resubscribe_log:
  "log_law E lg \<Longrightarrow> set order \<subseteq> dom subs \<Longrightarrow>
     lg (fold (resubscribe E subs q) order w) = lg w @ map (\<lambda>t. BSubscribe t (the (subs t))) order"
  by (induction order arbitrary: w) (auto simp: resubscribe_def log_law_def)

lemma onConnect_log:
  assumes "log_law E lg" and "mqc_client c" and "distinct order" and "set order = dom (mqc_subs c)"
  shows "\<exists>l. lg (mqc_world (onConnect E order c)) = lg (mqc_world c)
        @ BPublish (Topic_Availability (mqc_topics c)) AvailabilityOnline True # l
      \<and> set l = {BSubscribe t h |t h. mqc_subs c t = Some h} \<and> distinct l"
proof -
  let ?subs = "mqc_subs c" and ?l = "map (\<lambda>t. BSubscribe t (the (mqc_subs c t))) order"
  have "lg (mqc_world (onConnect E order c)) = lg (mqc_world c)
      @ BPublish (Topic_Availability (mqc_topics c)) AvailabilityOnline True # ?l"
    using assms(1,2) fold_resubscribe_log [OF assms(1), of order ?subs] assms(4)
    by (simp add: onConnect_def Let_def case_prod_unfold log_law_def)
  moreover have "set ?l = {BSubscribe t h |t h. ?subs t = Some h}"
    using assms(4) by (force simp: image_iff)
  moreover have "distinct ?l"
    using assms(3) by (simp add: distinct_map inj_on_def)
  ultimately show ?thesis by blast
qed

subsection \<open>The interface of a publisher\<close>

text \<open>
  \<open>sent\<close> is the list of messages the broker was handed. A publish hands over its message, or
  fails without doing so.
\<close>

locale publisher =
  fixes pub :: "string \<Rightarrow> string \<Rightarrow> bool \<Rightarrow> 's \<Rightarrow> go_error option \<times> 's"
    and ok :: "'s \<Rightarrow> bool" and sent :: "'s \<Rightarrow> (string \<times> string \<times> bool) list"
  assumes pub_law: "ok s \<Longrightarrow> pub t p r s = (e, s') \<Longrightarrow>
      ok s' \<and> (sent s' = sent s @ [(t, p, r)] \<or> (e \<noteq> None \<and> sent s' = sent s))"

text \<open>
  The loop of the publishing use cases: a list of retained messages, each with the label of its
  error, going on after a failure; the errors are collected.
\<close>

fun publish_all ::
  "(string \<Rightarrow> string \<Rightarrow> bool \<Rightarrow> 's \<Rightarrow> go_error option \<times> 's) \<Rightarrow> (string \<times> string \<times> string) list \<Rightarrow> 's \<Rightarrow> go_error list \<times> 's" where
  "publish_all pub [] s = ([], s)"
| "publish_all pub ((l, t, p) # ms) s =
     (case pub t p True s of
        (Some x, s1) \<Rightarrow> (case publish_all pub ms s1 of (es, s2) \<Rightarrow> (Wrapf l [x] # es, s2))
      | (None, s1) \<Rightarrow> publish_all pub ms s1)"

text \<open>\<^verbatim>\<open>errors.Join\<close> of the collected errors.\<close>

definition errors_Join :: "go_error list \<Rightarrow> go_error option" where
  "errors_Join es = (if es = [] then None else Some (Wrapf [] es))"

definition retained_of :: "(string \<times> string \<times> string) list \<Rightarrow> (string \<times> string \<times> bool) list" where
  "retained_of ms = map (\<lambda>(l, t, p). (t, p, True)) ms"

lemma retained_of_simps [simp]:
  "retained_of [] = []" "retained_of ((l, t, p) # ms) = (t, p, True) # retained_of ms"
  by (simp_all add: retained_of_def)

context publisher begin

lemma publish_all_sent:
  "ok s \<Longrightarrow> publish_all pub ms s = (es, s') \<Longrightarrow>
     ok s' \<and> (\<exists>l. sent s' = sent s @ l \<and> subseq l (retained_of ms)
                 \<and> length ms \<le> length l + length es \<and> (es = [] \<longrightarrow> l = retained_of ms))"
proof (induction ms arbitrary: s es)
  case Nil
  then show ?case by (intro conjI exI [of _ "[]"]) auto
next
  case (Cons m ms)
  obtain lb t p where m: "m = (lb, t, p)" by (cases m)
  obtain e s1 where 1: "pub t p True s = (e, s1)" by fastforce
  obtain es' s2 where 2: "publish_all pub ms s1 = (es', s2)" by fastforce
  note p1 = pub_law [OF Cons.prems(1) 1]
  have r: "s' = s2" "es = (case e of None \<Rightarrow> es' | Some x \<Rightarrow> Wrapf lb [x] # es')"
    using Cons.prems(2) by (auto simp: m 1 2 split: option.splits)
  have "ok s1" using p1 by simp
  from Cons.IH [OF this 2 [folded r(1)]] obtain l where l: "ok s'" "sent s' = sent s1 @ l" "subseq l (retained_of ms)"
      "length ms \<le> length l + length es'" "es' = [] \<longrightarrow> l = retained_of ms" by blast
  from p1 consider (sent) "sent s1 = sent s @ [(t, p, True)]" | (lost) x where "e = Some x" "sent s1 = sent s"
    by auto
  then show ?case
  proof cases
    case sent
    then show ?thesis using l r
      by (intro conjI exI [of _ "(t, p, True) # l"]) (auto simp: m split: option.splits)
  next
    case (lost x)
    then show ?thesis using l r
      by (intro conjI exI [of _ l]) (auto simp: m)
  qed
qed

end

locale live_publisher = publisher pub ok sent
  for pub :: "string \<Rightarrow> string \<Rightarrow> bool \<Rightarrow> 's \<Rightarrow> go_error option \<times> 's" and ok sent +
  fixes up :: "'s \<Rightarrow> bool"
  assumes up_ok: "up s \<Longrightarrow> ok s"
    and pub_up: "up s \<Longrightarrow> \<exists>s'. pub t p r s = (None, s') \<and> up s'"
begin

lemma publish_all_no_error: "up s \<Longrightarrow> \<exists>s'. publish_all pub ms s = ([], s') \<and> up s'"
proof (induction ms arbitrary: s)
  case (Cons m ms)
  obtain lb t p where m: "m = (lb, t, p)" by (cases m)
  obtain s1 where "pub t p True s = (None, s1)" "up s1" using pub_up [OF Cons.prems] by blast
  then show ?case using Cons.IH [of s1] by (simp add: m)
qed simp

lemma publish_all_up:
  "up s \<Longrightarrow> \<exists>s'. publish_all pub ms s = ([], s') \<and> up s' \<and> sent s' = sent s @ retained_of ms"
  using publish_all_no_error publish_all_sent [OF up_ok] by blast

end

subsection \<open>The client is a publisher\<close>

definition published :: "'h broker_event list \<Rightarrow> (string \<times> string \<times> bool) list" where
  "published evs = concat (map (\<lambda>e. case e of BPublish t p r \<Rightarrow> [(t, p, r)] | BSubscribe t h \<Rightarrow> []) evs)"

lemma published_simps [simp]:
  "published (xs @ ys) = published xs @ published ys"
  "published [BPublish t p r] = [(t, p, r)]" "published [BSubscribe t h] = []"
  by (simp_all add: published_def)

interpretation mqtt_pub: publisher "mq_Publish E" "\<lambda>_. log_law E lg" "\<lambda>c. published (lg (mqc_world c))" for E lg
proof
  fix c c' t p r e
  assume L: "log_law E lg" and "mq_Publish E t p r c = (e, c')"
  then show "log_law E lg \<and> (published (lg (mqc_world c')) = published (lg (mqc_world c)) @ [(t, p, r)]
      \<or> (e \<noteq> None \<and> published (lg (mqc_world c')) = published (lg (mqc_world c))))"
    unfolding log_law_def
    by (auto simp: mq_Publish_def Let_def case_prod_unfold split: if_splits token.splits option.splits)
qed

text \<open>The client is connected and the broker acknowledges.\<close>

definition mq_up :: "('h, 'w) MqttEnv \<Rightarrow> ('w \<Rightarrow> 'h broker_event list) \<Rightarrow> ('w \<Rightarrow> bool) \<Rightarrow> ('h, 'w) MqttClient \<Rightarrow> bool" where
  "mq_up E lg acks c \<longleftrightarrow> log_law E lg \<and> mqc_connected c \<and> mqc_client c \<and> acks (mqc_world c)
     \<and> (\<forall>t q r p w. acks w \<longrightarrow> fst (qe_publish E t q r p w) = Completed None \<and> acks (snd (qe_publish E t q r p w)))"

interpretation mqtt_live: live_publisher "mq_Publish E" "\<lambda>_. log_law E lg" "\<lambda>c. published (lg (mqc_world c))"
  "mq_up E lg acks" for E lg acks
proof
  fix c t p r
  assume u: "mq_up E lg acks c"
  then have "fst (qe_publish E t (mq_QoS (mqc_cfg c)) r p (mqc_world c)) = Completed None"
      "acks (snd (qe_publish E t (mq_QoS (mqc_cfg c)) r p (mqc_world c)))"
    by (simp_all add: mq_up_def)
  then show "\<exists>c'. mq_Publish E t p r c = (None, c') \<and> mq_up E lg acks c'"
    using u by (simp add: mq_Publish_def mq_up_def case_prod_unfold)
qed (simp add: mq_up_def)

subsection \<open>A broker that meets the laws\<close>

definition sim_broker :: "('h, 'h broker_event list) MqttEnv" where
  "sim_broker =
     \<lparr>qe_connect = (\<lambda>o' w. (Completed None, w)),
      qe_publish = (\<lambda>t q r p w. (Completed None, w @ [BPublish t p r])),
      qe_subscribe = (\<lambda>t q h w. (Completed None, w @ [BSubscribe t h])),
      qe_disconnect = (\<lambda>n w. w)\<rparr>"

lemma sim_broker_law: "log_law sim_broker id"
  by (simp add: log_law_def sim_broker_def)

definition sim_mqtt_cfg :: MQTTConfig where
  "sim_mqtt_cfg = \<lparr>mq_Broker = ''localhost:1883'', mq_ClientID = ''oasis'', mq_Username = [], mq_Password = [],
     mq_Keepalive = 30 * Second, mq_QoS = 1\<rparr>"

definition sim_topics :: TopicBuilder where
  "sim_topics = \<lparr>tb_discoveryPrefix = ''homeassistant'', tb_devicePrefix = ''oasis_syberia''\<rparr>"

definition sim_mqtt :: "('h, 'h broker_event list) MqttClient" where
  "sim_mqtt = onConnect sim_broker [] (snd (mq_Connect sim_broker (NewMqttClient sim_mqtt_cfg sim_topics metrics0 [])))"

lemma sim_mqtt_up: "mq_up sim_broker id (\<lambda>_. True) sim_mqtt"
  by (simp add: mq_up_def sim_broker_law)
    (simp add: sim_mqtt_def mq_Connect_def onConnect_def NewMqttClient_def sim_broker_def)

subsection \<open>Properties\<close>

text \<open>
  The state topics, the command topics and the availability topic of a device are pairwise
  different, and different objects have different topics.
\<close>

lemma topics_distinct:
  "inj (Topic_State b) \<and> inj (Topic_Command b) \<and> range (Topic_State b) \<inter> range (Topic_Command b) = {}
   \<and> Topic_Availability b \<notin> range (Topic_State b) \<union> range (Topic_Command b)"
  by (auto simp: inj_def)

text \<open>
  A subscription outlives the connection: each (re)connect announces the device as online and
  hands the broker every registered subscription once, whatever the order in which the registry
  is walked and whatever fails on the way.
\<close>

lemma reconnect_restores_subscriptions:
  assumes "log_law E lg" and "mqc_client c" and "distinct order" and "set order = dom (mqc_subs c)"
  shows "\<exists>l. lg (mqc_world (onConnect E order c)) = lg (mqc_world c)
        @ BPublish (Topic_Availability (mqc_topics c)) AvailabilityOnline True # l
      \<and> set l = {BSubscribe t h |t h. mqc_subs c t = Some h} \<and> distinct l"
  using assms by (rule onConnect_log)

lemma reconnect_restores_subscriptions_example:
  "\<exists>l. mqc_world (onConnect sim_broker [''t''] (snd (mq_Subscribe sim_broker ''t'' (Some ())
        (onConnectionLost (sim_mqtt\<lparr>mqc_world := []\<rparr>)))))
      = BPublish (Topic_Availability sim_topics) AvailabilityOnline True # l \<and> set l = {BSubscribe ''t'' ()}"
proof -
  let ?c = "snd (mq_Subscribe sim_broker ''t'' (Some ()) (onConnectionLost (sim_mqtt\<lparr>mqc_world := []\<rparr>)))"
  have c: "mqc_client ?c" "mqc_world ?c = []" "mqc_topics ?c = sim_topics" "mqc_subs ?c = [''t'' \<mapsto> ()]"
    by (simp_all add: mq_Subscribe_def onConnectionLost_def sim_mqtt_def mq_Connect_def onConnect_def
        NewMqttClient_def sim_broker_def)
  from reconnect_restores_subscriptions [OF sim_broker_law c(1), of "[''t'']"] c show ?thesis
    by auto
qed

end
