(* ===== verification/PublishState.thy ===== *)
theory PublishState
  imports Entity MqttClient GoStr "HOL-Library.Signed_Division"
begin

text \<open>
  \<^verbatim>\<open>application/usecase/publish_state.go\<close>: the nineteen state messages of a snapshot and their
  publication. The lemmas give the payloads in terms of raw register values, so that they can be
  compared with what the command side parses.
\<close>

subsection \<open>Payloads\<close>

definition formatTemperature :: "Temperature \<Rightarrow> string" where
  "formatTemperature t = fmt_1f (Temperature_Celsius t)"

definition boolToOnOff :: "bool \<Rightarrow> string" where
  "boolToOnOff b = (if b then ''ON'' else ''OFF'')"

definition boolToOpenClosed :: "bool \<Rightarrow> string" where
  "boolToOpenClosed b = (if b then ''OPEN'' else ''CLOSED'')"

definition hvacMode :: "Snapshot \<Rightarrow> string" where
  "hvacMode snap =
     (if \<not> sn_PowerOn snap then ''off''
      else if sn_CurrentMode snap = ModeHeat then ''heat''
      else ''fan_only'')"

definition hvacAction :: "Snapshot \<Rightarrow> string" where
  "hvacAction snap =
     (if \<not> sn_PowerOn snap then ''off''
      else if sn_Operation snap = OpPreheatCalorifier then ''preheating''
      else if sn_Operation snap \<in> set [OpStartFan, OpFanCoastdown, OpRotorSpinup] then ''fan''
      else if sn_Operation snap \<in> set [OpCloseDamper, OpElectricCalorifierPurge, OpOpenDamper, OpNorthStart,
             OpOpenHotWaterValve, OpCloseHotWaterValve, OpOpenColdValve, OpCloseColdValve] then ''idle''
      else if sn_HeaterPWM snap then ''heating''
      else if 0 < sn_FanState1 snap then ''fan''
      else ''idle'')"

definition problemValue :: "Snapshot \<Rightarrow> string" where
  "problemValue snap = (if ErrorSet_IsEmpty (DecodeErrorSet snap) then ''OFF'' else ''ON'')"

text \<open>\<^verbatim>\<open>Duration.Seconds\<close>: whole seconds and the fraction, added as floats.\<close>

definition duration_Seconds :: "duration \<Rightarrow> f64" where
  "duration_Seconds d = f_add (f64_of_int (d sdiv Second)) (f_div (f64_of_int (d smod Second)) 1000000000)"

definition fmt_u16 :: "u16 \<Rightarrow> string" where "fmt_u16 w = dec_nat (unat w)"

record stateMsg =
  sm_topic :: string
  sm_payload :: string
  sm_objectID :: string

definition state_msg :: "TopicBuilder \<Rightarrow> string \<Rightarrow> string \<Rightarrow> stateMsg" where
  "state_msg b oid payload = \<lparr>sm_topic = Topic_State b oid, sm_payload = payload, sm_objectID = oid\<rparr>"

definition buildMessages :: "TopicBuilder \<Rightarrow> Snapshot \<Rightarrow> stateMsg list" where
  "buildMessages b snap =
     [state_msg b ''supply_temperature'' (formatTemperature (sn_SupplyTemp snap)),
      state_msg b ''filter_clog'' (dec_int (sn_FilterPct snap)),
      state_msg b ''heat_demand'' (fmt_u16 (sn_PIDDemand snap)),
      state_msg b ''supply_fan_speed'' (fmt_u16 (sn_FanState1 snap)),
      state_msg b ''exhaust_fan_speed'' (fmt_u16 (sn_FanState2 snap)),
      state_msg b ''room_temperature'' (formatTemperature (sn_RoomTemp snap)),
      state_msg b ''room_humidity'' (fmt_u16 (sn_RoomHumidity snap)),
      state_msg b ''firmware'' (Firmware_String (sn_Firmware snap)),
      state_msg b ''device_id'' (''0x'' @ hex4 (sn_DeviceID snap)),
      state_msg b ''operation_time_left''
        (dec_int (f_to_int64 oor_amd64 (duration_Seconds (sn_OperationTimeLeft snap)))),
      state_msg b ''current_operation'' (OperatingState_String (sn_Operation snap)),
      state_msg b ''power'' (boolToOnOff (sn_PowerOn snap)),
      state_msg b ''heater_active'' (boolToOnOff (sn_HeaterPWM snap)),
      state_msg b ''damper_open'' (boolToOpenClosed (sn_DamperOpen snap)),
      state_msg b ''problem'' (problemValue snap),
      state_msg b ''hvac_mode'' (hvacMode snap),
      state_msg b ''target_temperature'' (formatTemperature (sn_TargetTemp snap)),
      state_msg b ''fan_target'' (fmt_u16 (sn_FanTarget1 snap)),
      state_msg b ''hvac_action'' (hvacAction snap)]"

subsection \<open>Publication\<close>

definition state_labelled :: "stateMsg \<Rightarrow> string \<times> string \<times> string" where
  "state_labelled m = (''publish state '' @ sm_objectID m, sm_topic m, sm_payload m)"

definition PublishState_Apply ::
  "(string \<Rightarrow> string \<Rightarrow> bool \<Rightarrow> 's \<Rightarrow> go_error option \<times> 's) \<Rightarrow> TopicBuilder \<Rightarrow> Snapshot \<Rightarrow> 's \<Rightarrow> go_error option \<times> 's" where
  "PublishState_Apply pub b snap s =
     (case publish_all pub (map state_labelled (buildMessages b snap)) s of (errs, s1) \<Rightarrow> (errors_Join errs, s1))"

subsection \<open>Laws of the payloads\<close>

lemma formatTemperature_raw:
  "formatTemperature (TemperatureFromRaw raw) = dec_nat (unat raw div 10) @ ''.'' @ dec_nat (unat raw mod 10)"
proof -
  have n: "\<bar>uint raw\<bar> \<le> 65535" "0 \<le> uint raw" "uint raw \<le> 65535" using uint_lt2p [of raw] by auto
  obtain c where c: "f_div (f64_of_int (uint raw)) temperatureScale = Fin c"
    and e: "\<bar>c - of_int (uint raw) / 10\<bar> \<le> \<bar>of_int (uint raw) / 10\<bar> / 2 ^ 53"
    using tenths_Fin [OF n(1)] .
  have "fmt_1f (Fin c) = dec_nat (nat (uint raw) div 10) @ ''.'' @ dec_nat (nat (uint raw) mod 10)"
    by (rule fmt_1f_tenths [OF n(2,3) e])
  then show ?thesis by (simp add: formatTemperature_def Temperature_Celsius_def TemperatureFromRaw_def c)
qed

lemma duration_Seconds_whole:
  assumes "0 \<le> n" and "n \<le> 65535"
  shows "f_to_int64 oor (duration_Seconds (n * Second)) = n"
proof -
  have "n * Second sdiv Second = n" "n * Second smod Second = 0"
    using assms(1) by (cases "n = 0"; simp add: signed_divide_int_def signed_modulo_int_def Second_def sgn_mult)+
  moreover have "f64_of_int n = Fin (of_int n)"
    unfolding f64_of_int_def by (rule round64_of_int) (use assms in simp)
  moreover have "round64 (of_int n) = Fin (of_int n)"
    by (rule round64_of_int) (use assms in simp)
  ultimately show ?thesis
    using assms by (simp add: duration_Seconds_def f_to_int64_def f64_of_int_def round64_def [of 0] Let_def
        int64_min_def int64_max_def)
qed

lemma time_left_payload:
  "f_to_int64 oor (duration_Seconds (ParseLastTime raw)) = int (unat raw div 256 * 60 + unat raw mod 256)"
proof -
  have "unat raw div 256 < 256" using unat16_less [of raw] by (simp add: less_mult_imp_div_less)
  moreover have "unat raw mod 256 < 256" by simp
  ultimately have "unat raw div 256 * 60 + unat raw mod 256 \<le> 65535" by linarith
  then show ?thesis unfolding ParseLastTime_decode by (intro duration_Seconds_whole) auto
qed

definition state_ids :: "string list" where
  "state_ids = [''supply_temperature'', ''filter_clog'', ''heat_demand'', ''supply_fan_speed'',
     ''exhaust_fan_speed'', ''room_temperature'', ''room_humidity'', ''firmware'', ''device_id'',
     ''operation_time_left'', ''current_operation'', ''power'', ''heater_active'', ''damper_open'',
     ''problem'', ''hvac_mode'', ''target_temperature'', ''fan_target'', ''hvac_action'']"

lemma buildMessages_ids: "map sm_objectID (buildMessages b snap) = state_ids"
  by (simp add: buildMessages_def state_msg_def state_ids_def)

lemma buildMessages_topics: "map sm_topic (buildMessages b snap) = map (Topic_State b) state_ids"
  by (simp add: buildMessages_def state_msg_def state_ids_def)

lemma state_ids_distinct: "distinct state_ids"
  by code_simp

definition messages_of :: "TopicBuilder \<Rightarrow> Snapshot \<Rightarrow> (string \<times> string \<times> bool) list" where
  "messages_of b snap = map (\<lambda>m. (sm_topic m, sm_payload m, True)) (buildMessages b snap)"

lemma retained_state [simp]: "retained_of (map state_labelled ms) = map (\<lambda>m. (sm_topic m, sm_payload m, True)) ms"
  by (simp add: retained_of_def state_labelled_def)

subsection \<open>Properties\<close>



text \<open>
  The payloads in terms of the registers: a setpoint is printed as its exact decimal, the
  remaining time as minutes times sixty plus seconds, and the problem flag is on exactly when some
  documented error bit is set.
\<close>

lemma payloads_of_registers:
  "formatTemperature (TemperatureFromRaw raw) = dec_nat (unat raw div 10) @ ''.'' @ dec_nat (unat raw mod 10)
   \<and> dec_int (f_to_int64 oor_amd64 (duration_Seconds (ParseLastTime raw)))
       = dec_nat (unat raw div 256 * 60 + unat raw mod 256)
   \<and> (problemValue snap = ''ON'' \<longleftrightarrow>
       (\<exists>i. bit (re0 (sn_RawErrors snap)) i \<and> i \<noteq> 12) \<or> (\<exists>i. bit (re1 (sn_RawErrors snap)) i)
       \<or> (\<exists>i. bit (re2 (sn_RawErrors snap)) i) \<or> (\<exists>i. bit (re3 (sn_RawErrors snap)) i \<and> i \<noteq> 6))"
proof -
  have "problemValue snap = ''ON'' \<longleftrightarrow> DecodeErrorSet snap \<noteq> []"
    by (simp add: problemValue_def ErrorSet_IsEmpty_def)
  also have "\<dots> \<longleftrightarrow> flag_key ` set (DecodeErrorSet snap) \<noteq> {}" by simp
  finally have p: "problemValue snap = ''ON'' \<longleftrightarrow> flag_key ` set (DecodeErrorSet snap) \<noteq> {}" .
  show ?thesis
    unfolding p DecodeErrorSet_def DecodeErrors_keys formatTemperature_raw time_left_payload
    by (auto simp: dec_int_def)
qed

end
