(* ===== verification/Discovery.thy ===== *)
theory Discovery
  imports Catalog Json PublishState
begin

text \<open>
  \<^verbatim>\<open>infrastructure/discovery\<close>: the Home Assistant discovery payloads and the builder. Each payload
  struct is a record, its JSON form follows the struct tags field by field (an embedded
  \<^verbatim>\<open>baseEntity\<close> is flattened in front), and \<open>Build\<close> is the loop over the catalog followed by
  the hard-coded entities. The lemmas read the configurations back from the documents, to compare the
  topics and payloads they announce with what the bridge publishes and accepts.
\<close>

subsection \<open>Payloads (payloads.go)\<close>

record DeviceInfo =
  di_Identifiers :: "string list"
  di_Name :: string
  di_Manufacturer :: string
  di_Model :: string
  di_SwVersion :: string
  di_ConfigurationURL :: string

record baseEntity =
  be_Name :: string
  be_UniqueID :: string
  be_ObjectID :: string
  be_Device :: DeviceInfo
  be_AvailabilityTopic :: string
  be_PayloadAvailable :: string
  be_PayloadNotAvailable :: string
  be_EntityCategory :: string
  be_Icon :: string
  be_QoS :: int

record Discovery =
  dc_Topic :: string
  dc_Payload :: string

record SensorPayload =
  sp_base :: baseEntity
  sp_StateTopic :: string
  sp_DeviceClass :: string
  sp_UnitOfMeasurement :: string
  sp_StateClass :: string
  sp_SuggestedDisplayPrecision :: int

record BinarySensorPayload =
  bp_base :: baseEntity
  bp_StateTopic :: string
  bp_DeviceClass :: string
  bp_PayloadOn :: string
  bp_PayloadOff :: string

record SwitchPayload =
  wp_base :: baseEntity
  wp_StateTopic :: string
  wp_CommandTopic :: string
  wp_PayloadOn :: string
  wp_PayloadOff :: string

record ClimatePayload =
  cp_base :: baseEntity
  cp_Modes :: "string list"
  cp_ModeStateTopic :: string
  cp_ModeCommandTopic :: string
  cp_TemperatureStateTopic :: string
  cp_TemperatureCommandTopic :: string
  cp_TempStep :: f64
  cp_MinTemp :: f64
  cp_MaxTemp :: f64
  cp_TemperatureUnit :: string
  cp_CurrentTemperatureTopic :: string
  cp_FanModes :: "string list"
  cp_FanModeStateTopic :: string
  cp_FanModeCommandTopic :: string
  cp_ActionTopic :: string

definition DeviceInfo_json :: "DeviceInfo \<Rightarrow> json" where
  "DeviceInfo_json d = JObject
     ([(''identifiers'', JArray (map JString (di_Identifiers d))), (''name'', JString (di_Name d)),
       (''manufacturer'', JString (di_Manufacturer d)), (''model'', JString (di_Model d)),
       (''sw_version'', JString (di_SwVersion d))]
      @ str_omit ''configuration_url'' (di_ConfigurationURL d))"

definition base_fields :: "baseEntity \<Rightarrow> (string \<times> json) list" where
  "base_fields e =
     str_omit ''name'' (be_Name e) @ [(''unique_id'', JString (be_UniqueID e))]
     @ str_omit ''object_id'' (be_ObjectID e)
     @ [(''device'', DeviceInfo_json (be_Device e)), (''availability_topic'', JString (be_AvailabilityTopic e))]
     @ str_omit ''payload_available'' (be_PayloadAvailable e)
     @ str_omit ''payload_not_available'' (be_PayloadNotAvailable e)
     @ str_omit ''entity_category'' (be_EntityCategory e) @ str_omit ''icon'' (be_Icon e)
     @ int_omit ''qos'' (be_QoS e)"

definition SensorPayload_json :: "SensorPayload \<Rightarrow> json" where
  "SensorPayload_json p = JObject
     (base_fields (sp_base p) @ [(''state_topic'', JString (sp_StateTopic p))]
      @ str_omit ''device_class'' (sp_DeviceClass p)
      @ str_omit ''unit_of_measurement'' (sp_UnitOfMeasurement p)
      @ str_omit ''state_class'' (sp_StateClass p)
      @ int_omit ''suggested_display_precision'' (sp_SuggestedDisplayPrecision p))"

definition BinarySensorPayload_json :: "BinarySensorPayload \<Rightarrow> json" where
  "BinarySensorPayload_json p = JObject
     (base_fields (bp_base p) @ [(''state_topic'', JString (bp_StateTopic p))]
      @ str_omit ''device_class'' (bp_DeviceClass p) @ str_omit ''payload_on'' (bp_PayloadOn p)
      @ str_omit ''payload_off'' (bp_PayloadOff p))"

definition SwitchPayload_json :: "SwitchPayload \<Rightarrow> json" where
  "SwitchPayload_json p = JObject
     (base_fields (wp_base p) @ [(''state_topic'', JString (wp_StateTopic p)),
        (''command_topic'', JString (wp_CommandTopic p))]
      @ str_omit ''payload_on'' (wp_PayloadOn p) @ str_omit ''payload_off'' (wp_PayloadOff p))"

definition ClimatePayload_json :: "ClimatePayload \<Rightarrow> json" where
  "ClimatePayload_json p = JObject
     (base_fields (cp_base p) @ [(''modes'', JArray (map JString (cp_Modes p))),
        (''mode_state_topic'', JString (cp_ModeStateTopic p)),
        (''mode_command_topic'', JString (cp_ModeCommandTopic p)),
        (''temperature_state_topic'', JString (cp_TemperatureStateTopic p)),
        (''temperature_command_topic'', JString (cp_TemperatureCommandTopic p))]
      @ float_omit ''temp_step'' (cp_TempStep p) @ float_omit ''min_temp'' (cp_MinTemp p)
      @ float_omit ''max_temp'' (cp_MaxTemp p) @ str_omit ''temperature_unit'' (cp_TemperatureUnit p)
      @ str_omit ''current_temperature_topic'' (cp_CurrentTemperatureTopic p)
      @ strs_omit ''fan_modes'' (cp_FanModes p)
      @ str_omit ''fan_mode_state_topic'' (cp_FanModeStateTopic p)
      @ str_omit ''fan_mode_command_topic'' (cp_FanModeCommandTopic p)
      @ str_omit ''action_topic'' (cp_ActionTopic p))"

lemmas payload_json = DeviceInfo_json_def base_fields_def SensorPayload_json_def
  BinarySensorPayload_json_def SwitchPayload_json_def ClimatePayload_json_def

subsection \<open>The builder (builder.go)\<close>

definition BinarySensorHeaterActive :: string where "BinarySensorHeaterActive = ''heater_active''"
definition BinarySensorDamperOpen :: string where "BinarySensorDamperOpen = ''damper_open''"
definition BinarySensorProblem :: string where "BinarySensorProblem = ''problem''"
definition SensorCurrentOperation :: string where "SensorCurrentOperation = ''current_operation''"
definition ClimateObjectID :: string where "ClimateObjectID = ''climate''"

lemmas object_ids = BinarySensorHeaterActive_def BinarySensorDamperOpen_def BinarySensorProblem_def
  SensorCurrentOperation_def ClimateObjectID_def

record Builder =
  bl_topics :: TopicBuilder
  bl_haCfg :: HAConfig

definition NewBuilder :: "TopicBuilder \<Rightarrow> HAConfig \<Rightarrow> Builder" where
  "NewBuilder topics haCfg = \<lparr>bl_topics = topics, bl_haCfg = haCfg\<rparr>"

definition categoryString :: "EntityCategory \<Rightarrow> string" where
  "categoryString c =
     (if c = EntityCategoryDiagnostic then ''diagnostic''
      else if c = EntityCategoryConfig then ''config''
      else [])"

definition deviceInfo :: "Builder \<Rightarrow> string \<Rightarrow> DeviceInfo" where
  "deviceInfo b firmware =
     \<lparr>di_Identifiers = [ha_DevicePrefix (bl_haCfg b)], di_Name = ha_DeviceName (bl_haCfg b),
      di_Manufacturer = ha_Manufacturer (bl_haCfg b), di_Model = ha_Model (bl_haCfg b),
      di_SwVersion = firmware, di_ConfigurationURL = []\<rparr>"

definition baseFor :: "Builder \<Rightarrow> string \<Rightarrow> string \<Rightarrow> EntityHint \<Rightarrow> string \<Rightarrow> baseEntity" where
  "baseFor b objectID name hint firmware =
     \<lparr>be_Name = name, be_UniqueID = ha_DevicePrefix (bl_haCfg b) @ ''_'' @ objectID, be_ObjectID = [],
      be_Device = deviceInfo b firmware, be_AvailabilityTopic = Topic_Availability (bl_topics b),
      be_PayloadAvailable = ''online'', be_PayloadNotAvailable = ''offline'',
      be_EntityCategory = categoryString (eh_Category hint), be_Icon = eh_Icon hint, be_QoS = 1\<rparr>"

definition marshal :: "Builder \<Rightarrow> string \<Rightarrow> string \<Rightarrow> json \<Rightarrow> go_error + Discovery" where
  "marshal b component objectID payload =
     (case Marshal payload of
        Inl e \<Rightarrow> Inl (Wrapf (''discovery: marshal '' @ component @ ''/'' @ objectID) [e])
      | Inr bytes \<Rightarrow> Inr \<lparr>dc_Topic = Topic_Discovery (bl_topics b) component objectID, dc_Payload = bytes\<rparr>)"

definition sensor_payload :: "Builder \<Rightarrow> RegisterDef \<Rightarrow> string \<Rightarrow> SensorPayload" where
  "sensor_payload b reg firmware = (let h = rd_Hint reg in
     \<lparr>sp_base = baseFor b (eh_ObjectID h) (eh_Name h) h firmware,
      sp_StateTopic = Topic_State (bl_topics b) (eh_ObjectID h), sp_DeviceClass = eh_DeviceClass h,
      sp_UnitOfMeasurement = eh_Unit h, sp_StateClass = eh_StateClass h,
      sp_SuggestedDisplayPrecision = eh_Precision h\<rparr>)"

definition buildSensor :: "Builder \<Rightarrow> RegisterDef \<Rightarrow> string \<Rightarrow> go_error + Discovery" where
  "buildSensor b reg firmware =
     marshal b ''sensor'' (eh_ObjectID (rd_Hint reg)) (SensorPayload_json (sensor_payload b reg firmware))"

definition switch_payload :: "Builder \<Rightarrow> RegisterDef \<Rightarrow> string \<Rightarrow> SwitchPayload" where
  "switch_payload b reg firmware = (let h = rd_Hint reg in
     \<lparr>wp_base = baseFor b (eh_ObjectID h) (eh_Name h) h firmware,
      wp_StateTopic = Topic_State (bl_topics b) (eh_ObjectID h),
      wp_CommandTopic = Topic_Command (bl_topics b) (eh_ObjectID h),
      wp_PayloadOn = ''ON'', wp_PayloadOff = ''OFF''\<rparr>)"

definition buildSwitch :: "Builder \<Rightarrow> RegisterDef \<Rightarrow> string \<Rightarrow> go_error + Discovery" where
  "buildSwitch b reg firmware =
     marshal b ''switch'' (eh_ObjectID (rd_Hint reg)) (SwitchPayload_json (switch_payload b reg firmware))"

definition climate_payload :: "Builder \<Rightarrow> string \<Rightarrow> ClimatePayload" where
  "climate_payload b firmware = (let t = bl_topics b in
     \<lparr>cp_base = (baseFor b ClimateObjectID [] (zero_hint\<lparr>eh_Icon := ''mdi:hvac''\<rparr>) firmware)
                  \<lparr>be_ObjectID := ClimateObjectID\<rparr>,
      cp_Modes = [''off'', ''heat'', ''fan_only''],
      cp_ModeStateTopic = Topic_State t ''hvac_mode'', cp_ModeCommandTopic = Topic_Command t ''hvac_mode'',
      cp_TemperatureStateTopic = Topic_State t ''target_temperature'',
      cp_TemperatureCommandTopic = Topic_Command t ''target_temperature'',
      cp_TempStep = Fin (1 / 2), cp_MinTemp = Fin 5, cp_MaxTemp = Fin 30, cp_TemperatureUnit = ''C'',
      cp_CurrentTemperatureTopic = Topic_State t ''room_temperature'',
      cp_FanModes = [''1'', ''2'', ''3'', ''4'', ''5'', ''6'', ''7'', ''8'', ''9'', ''10''],
      cp_FanModeStateTopic = Topic_State t ''fan_target'',
      cp_FanModeCommandTopic = Topic_Command t ''fan_target'',
      cp_ActionTopic = Topic_State t ''hvac_action''\<rparr>)"

definition buildClimate :: "Builder \<Rightarrow> string \<Rightarrow> go_error + Discovery" where
  "buildClimate b firmware =
     marshal b ''climate'' ClimateObjectID (ClimatePayload_json (climate_payload b firmware))"

definition binary_payload ::
  "Builder \<Rightarrow> string \<Rightarrow> string \<Rightarrow> string \<Rightarrow> string \<Rightarrow> string \<Rightarrow> EntityCategory \<Rightarrow> string \<Rightarrow> string \<Rightarrow> BinarySensorPayload" where
  "binary_payload b objectID name deviceClass payloadOn payloadOff category icon firmware =
     \<lparr>bp_base = baseFor b objectID name (zero_hint\<lparr>eh_Category := category, eh_Icon := icon\<rparr>) firmware,
      bp_StateTopic = Topic_State (bl_topics b) objectID, bp_DeviceClass = deviceClass,
      bp_PayloadOn = payloadOn, bp_PayloadOff = payloadOff\<rparr>"

definition buildBinarySensor ::
  "Builder \<Rightarrow> string \<Rightarrow> string \<Rightarrow> string \<Rightarrow> string \<Rightarrow> string \<Rightarrow> EntityCategory \<Rightarrow> string \<Rightarrow> string \<Rightarrow> go_error + Discovery" where
  "buildBinarySensor b objectID name deviceClass payloadOn payloadOff category icon firmware =
     marshal b ''binary_sensor'' objectID (BinarySensorPayload_json
       (binary_payload b objectID name deviceClass payloadOn payloadOff category icon firmware))"

definition derived_payload :: "Builder \<Rightarrow> string \<Rightarrow> string \<Rightarrow> EntityCategory \<Rightarrow> string \<Rightarrow> string \<Rightarrow> SensorPayload" where
  "derived_payload b objectID name category icon firmware =
     \<lparr>sp_base = baseFor b objectID name (zero_hint\<lparr>eh_Category := category, eh_Icon := icon\<rparr>) firmware,
      sp_StateTopic = Topic_State (bl_topics b) objectID, sp_DeviceClass = [],
      sp_UnitOfMeasurement = [], sp_StateClass = [], sp_SuggestedDisplayPrecision = 0\<rparr>"

definition buildDerivedSensor ::
  "Builder \<Rightarrow> string \<Rightarrow> string \<Rightarrow> EntityCategory \<Rightarrow> string \<Rightarrow> string \<Rightarrow> go_error + Discovery" where
  "buildDerivedSensor b objectID name category icon firmware =
     marshal b ''sensor'' objectID (SensorPayload_json (derived_payload b objectID name category icon firmware))"

fun build_registers :: "Builder \<Rightarrow> string \<Rightarrow> RegisterDef list \<Rightarrow> Discovery list \<Rightarrow> go_error + Discovery list" where
  "build_registers b firmware [] out = Inr out"
| "build_registers b firmware (reg # regs) out =
     (if eh_Kind (rd_Hint reg) = EntityKindSensor then
        (case buildSensor b reg firmware of
           Inl e \<Rightarrow> Inl e | Inr d \<Rightarrow> build_registers b firmware regs (out @ [d]))
      else if eh_Kind (rd_Hint reg) = EntityKindSwitch then
        (case buildSwitch b reg firmware of
           Inl e \<Rightarrow> Inl e | Inr d \<Rightarrow> build_registers b firmware regs (out @ [d]))
      else build_registers b firmware regs out)"

text \<open>The sequence of \<^verbatim>\<open>d, err := build...; if err != nil { return nil, err }; out = append(out, d)\<close>.\<close>

fun append_built :: "(go_error + Discovery) list \<Rightarrow> Discovery list \<Rightarrow> go_error + Discovery list" where
  "append_built [] out = Inr out"
| "append_built (Inl e # rs) out = Inl e"
| "append_built (Inr d # rs) out = append_built rs (out @ [d])"

definition Build :: "Builder \<Rightarrow> string \<Rightarrow> go_error + Discovery list" where
  "Build b firmware =
     (case build_registers b firmware RegistersWithEntity [] of
        Inl e \<Rightarrow> Inl e
      | Inr out \<Rightarrow> append_built
          [buildClimate b firmware,
           buildBinarySensor b BinarySensorHeaterActive ''Heater active'' ''heat'' ''ON'' ''OFF''
             EntityCategoryDefault [] firmware,
           buildBinarySensor b BinarySensorDamperOpen ''Damper open'' ''opening'' ''OPEN'' ''CLOSED''
             EntityCategoryDefault [] firmware,
           buildBinarySensor b BinarySensorProblem ''Problem'' ''problem'' ''ON'' ''OFF''
             EntityCategoryDiagnostic [] firmware,
           buildDerivedSensor b SensorCurrentOperation ''Current operation''
             EntityCategoryDiagnostic ''mdi:cog-sync'' firmware] out)"

subsection \<open>The configurations behind the messages\<close>

definition build_one :: "Builder \<Rightarrow> string \<Rightarrow> RegisterDef \<Rightarrow> (string \<times> string \<times> json) list" where
  "build_one b fw reg =
     (let h = rd_Hint reg in
      if eh_Kind h = EntityKindSensor
      then [(''sensor'', eh_ObjectID h, SensorPayload_json (sensor_payload b reg fw))]
      else if eh_Kind h = EntityKindSwitch
      then [(''switch'', eh_ObjectID h, SwitchPayload_json (switch_payload b reg fw))]
      else [])"

definition configs :: "Builder \<Rightarrow> string \<Rightarrow> (string \<times> string \<times> json) list" where
  "configs b fw = concat (map (build_one b fw) RegistersWithEntity) @
     [(''climate'', ClimateObjectID, ClimatePayload_json (climate_payload b fw)),
      (''binary_sensor'', BinarySensorHeaterActive, BinarySensorPayload_json (binary_payload b
         BinarySensorHeaterActive ''Heater active'' ''heat'' ''ON'' ''OFF'' EntityCategoryDefault [] fw)),
      (''binary_sensor'', BinarySensorDamperOpen, BinarySensorPayload_json (binary_payload b
         BinarySensorDamperOpen ''Damper open'' ''opening'' ''OPEN'' ''CLOSED'' EntityCategoryDefault [] fw)),
      (''binary_sensor'', BinarySensorProblem, BinarySensorPayload_json (binary_payload b
         BinarySensorProblem ''Problem'' ''problem'' ''ON'' ''OFF'' EntityCategoryDiagnostic [] fw)),
      (''sensor'', SensorCurrentOperation, SensorPayload_json (derived_payload b SensorCurrentOperation
         ''Current operation'' EntityCategoryDiagnostic ''mdi:cog-sync'' fw))]"

definition message_of :: "Builder \<Rightarrow> string \<times> string \<times> json \<Rightarrow> Discovery" where
  "message_of b c = (case c of (component, oid, j) \<Rightarrow>
     \<lparr>dc_Topic = Topic_Discovery (bl_topics b) component oid, dc_Payload = render j\<rparr>)"

lemma finite_device [simp]: "finite_numbers (DeviceInfo_json d)"
  by (simp add: DeviceInfo_json_def json_fields list_all_iff)

lemma finite_payloads [simp]:
  "finite_numbers (SensorPayload_json p)" "finite_numbers (SwitchPayload_json q)"
  "finite_numbers (BinarySensorPayload_json r)" "finite_numbers (ClimatePayload_json (climate_payload b fw))"
  by (simp_all add: SensorPayload_json_def SwitchPayload_json_def BinarySensorPayload_json_def
      ClimatePayload_json_def climate_payload_def Let_def base_fields_def json_fields)

lemma marshal_finite [simp]: "finite_numbers j \<Longrightarrow> marshal b c o' j = Inr (message_of b (c, o', j))"
  by (simp add: marshal_def Marshal_def message_of_def)

lemma built_all:
  "buildSensor b reg fw = Inr (message_of b (''sensor'', eh_ObjectID (rd_Hint reg), SensorPayload_json (sensor_payload b reg fw)))"
  "buildSwitch b reg fw = Inr (message_of b (''switch'', eh_ObjectID (rd_Hint reg), SwitchPayload_json (switch_payload b reg fw)))"
  "buildClimate b fw = Inr (message_of b (''climate'', ClimateObjectID, ClimatePayload_json (climate_payload b fw)))"
  "buildBinarySensor b o' n d on off c i fw
     = Inr (message_of b (''binary_sensor'', o', BinarySensorPayload_json (binary_payload b o' n d on off c i fw)))"
  "buildDerivedSensor b o' n c i fw = Inr (message_of b (''sensor'', o', SensorPayload_json (derived_payload b o' n c i fw)))"
  by (simp_all add: buildSensor_def buildSwitch_def buildClimate_def buildBinarySensor_def buildDerivedSensor_def)

lemma build_registers_configs:
  "build_registers b fw regs out = Inr (out @ map (message_of b) (concat (map (build_one b fw) regs)))"
  by (induction regs arbitrary: out) (simp_all add: built_all build_one_def Let_def)

lemma Build_configs: "Build b fw = Inr (map (message_of b) (configs b fw))"
  by (simp add: Build_def build_registers_configs built_all configs_def)

text \<open>The registers with an entity, evaluated.\<close>

lemma entity_registers:
  "map (\<lambda>r. (eh_Kind (rd_Hint r), eh_ObjectID (rd_Hint r))) RegistersWithEntity =
     map (Pair EntityKindSensor) [''firmware'', ''device_id'', ''operation_time_left'', ''supply_temperature'',
        ''filter_clog'', ''heat_demand'', ''supply_fan_speed'', ''exhaust_fan_speed'', ''room_temperature'',
        ''room_humidity''] @ [(EntityKindSwitch, ''power'')]"
  by (simp add: RegistersWithEntity_filter Registers_def reg_row_def zero_hint_def sensor_hint_def)

lemma build_one_keys:
  "map (\<lambda>(c, o', j). (c, o')) (build_one b fw r) =
     (if eh_Kind (rd_Hint r) = EntityKindSensor then [(''sensor'', eh_ObjectID (rd_Hint r))]
      else if eh_Kind (rd_Hint r) = EntityKindSwitch then [(''switch'', eh_ObjectID (rd_Hint r))] else [])"
  by (simp add: build_one_def Let_def)

definition config_keys :: "(string \<times> string) list" where
  "config_keys = map (Pair ''sensor'') [''firmware'', ''device_id'', ''operation_time_left'',
       ''supply_temperature'', ''filter_clog'', ''heat_demand'', ''supply_fan_speed'', ''exhaust_fan_speed'',
       ''room_temperature'', ''room_humidity'']
     @ [(''switch'', ''power''), (''climate'', ''climate''), (''binary_sensor'', ''heater_active''),
        (''binary_sensor'', ''damper_open''), (''binary_sensor'', ''problem''), (''sensor'', ''current_operation'')]"

definition key_rows :: "EntityKind \<times> string \<Rightarrow> (string \<times> string) list" where
  "key_rows r = (if fst r = EntityKindSensor then [(''sensor'', snd r)]
      else if fst r = EntityKindSwitch then [(''switch'', snd r)] else [])"

lemma registers_keys:
  "map (\<lambda>(c, o', j). (c, o')) (concat (map (build_one b fw) rs))
     = concat (map key_rows (map (\<lambda>r. (eh_Kind (rd_Hint r), eh_ObjectID (rd_Hint r))) rs))"
  by (induction rs) (simp_all add: build_one_keys key_rows_def)

lemma configs_keys: "map (\<lambda>(c, o', j). (c, o')) (configs b fw) = config_keys"
  unfolding configs_def map_append registers_keys entity_registers
  by (simp add: key_rows_def config_keys_def object_ids)

subsection \<open>Topics a configuration announces\<close>

definition is_topic_key :: "string \<Rightarrow> bool" where
  "is_topic_key k \<longleftrightarrow> rev (take 6 (rev k)) = ''_topic''"

definition field_topics :: "(string \<times> json) list \<Rightarrow> string list" where
  "field_topics fs = concat (map (\<lambda>(k, j). if is_topic_key k then (case j of JString s \<Rightarrow> [s] | _ \<Rightarrow> []) else []) fs)"

fun announced_topics :: "json \<Rightarrow> string list" where
  "announced_topics (JObject fs) = field_topics fs"
| "announced_topics _ = []"

lemma field_topics_simps [simp]:
  "field_topics [] = []" "field_topics (xs @ ys) = field_topics xs @ field_topics ys"
  "field_topics ((k, JString s) # fs) = (if is_topic_key k then s # field_topics fs else field_topics fs)"
  "field_topics ((k, JArray js) # fs) = field_topics fs"
  "field_topics ((k, JObject os) # fs) = field_topics fs"
  "field_topics (str_omit k s) = (if is_topic_key k \<and> s \<noteq> [] then [s] else [])"
  "field_topics (int_omit k i) = []" "field_topics (float_omit k f) = []" "field_topics (strs_omit k ss) = []"
  by (auto simp: field_topics_def json_fields)

lemma base_topics [simp]: "field_topics (base_fields e) = [be_AvailabilityTopic e]"
  by (simp add: base_fields_def DeviceInfo_json_def is_topic_key_def)

lemma announced_payload [simp]:
  "announced_topics (SensorPayload_json p) = [be_AvailabilityTopic (sp_base p), sp_StateTopic p]"
  "announced_topics (BinarySensorPayload_json r) = [be_AvailabilityTopic (bp_base r), bp_StateTopic r]"
  "announced_topics (SwitchPayload_json q) = [be_AvailabilityTopic (wp_base q), wp_StateTopic q, wp_CommandTopic q]"
  by (simp_all add: SensorPayload_json_def BinarySensorPayload_json_def SwitchPayload_json_def is_topic_key_def)

lemma Topic_nonempty [simp]: "Topic_State b x \<noteq> []" "Topic_Command b x \<noteq> []"
  by (simp_all add: topic_defs)

lemma announced_climate [simp]:
  "announced_topics (ClimatePayload_json (climate_payload b fw)) = (let t = bl_topics b in
     [Topic_Availability t, Topic_State t ''hvac_mode'', Topic_Command t ''hvac_mode'',
      Topic_State t ''target_temperature'', Topic_Command t ''target_temperature'',
      Topic_State t ''room_temperature'', Topic_State t ''fan_target'', Topic_Command t ''fan_target'',
      Topic_State t ''hvac_action''])"
  by (simp add: ClimatePayload_json_def climate_payload_def Let_def is_topic_key_def baseFor_def)

definition command_ids :: "string list" where
  "command_ids = [''power'', ''hvac_mode'', ''target_temperature'', ''fan_target'']"

definition row_topics :: "TopicBuilder \<Rightarrow> EntityKind \<times> string \<Rightarrow> string list" where
  "row_topics t r =
     (if fst r = EntityKindSensor then [Topic_Availability t, Topic_State t (snd r)]
      else if fst r = EntityKindSwitch then [Topic_Availability t, Topic_State t (snd r), Topic_Command t (snd r)]
      else [])"

lemma announced_build_one:
  "concat (map (\<lambda>(c, o', j). announced_topics j) (build_one b fw r))
     = row_topics (bl_topics b) (eh_Kind (rd_Hint r), eh_ObjectID (rd_Hint r))"
  by (simp add: build_one_def Let_def row_topics_def sensor_payload_def switch_payload_def baseFor_def)

lemma announced_registers:
  "concat (map (\<lambda>(c, o', j). announced_topics j) (concat (map (build_one b fw) rs)))
     = concat (map (row_topics (bl_topics b)) (map (\<lambda>r. (eh_Kind (rd_Hint r), eh_ObjectID (rd_Hint r))) rs))"
  by (induction rs) (simp_all add: announced_build_one)

lemma configs_topics:
  "set (concat (map (\<lambda>(c, o', j). announced_topics j) (configs b fw)))
     = {Topic_Availability (bl_topics b)} \<union> Topic_State (bl_topics b) ` set state_ids
       \<union> Topic_Command (bl_topics b) ` set command_ids"
  unfolding configs_def map_append concat_append announced_registers entity_registers
  by (auto simp: row_topics_def state_ids_def command_ids_def binary_payload_def derived_payload_def
      baseFor_def object_ids Let_def)

subsection \<open>Options a configuration announces\<close>

text \<open>The payload pair of a switch or binary sensor, or the modes of the climate entity, and where they show.\<close>

fun json_strings :: "json list \<Rightarrow> string list" where
  "json_strings [] = []"
| "json_strings (JString s # js) = s # json_strings js"
| "json_strings (_ # js) = json_strings js"

definition config_options :: "json \<Rightarrow> string list" where
  "config_options j =
     (case (field ''payload_on'' j, field ''payload_off'' j, field ''modes'' j) of
        (Some (JString x), Some (JString y), _) \<Rightarrow> [x, y]
      | (_, _, Some (JArray ms)) \<Rightarrow> json_strings ms
      | _ \<Rightarrow> [])"

definition option_topic :: "json \<Rightarrow> string" where
  "option_topic j =
     (case (field ''state_topic'' j, field ''mode_state_topic'' j) of
        (Some (JString t), _) \<Rightarrow> t | (_, Some (JString t)) \<Rightarrow> t | _ \<Rightarrow> [])"

definition state_payload :: "TopicBuilder \<Rightarrow> Snapshot \<Rightarrow> string \<Rightarrow> string option" where
  "state_payload b snap = map_of (map (\<lambda>m. (sm_topic m, sm_payload m)) (buildMessages b snap))"

lemma json_strings_map [simp]: "json_strings (map JString ss) = ss"
  by (induction ss) auto

lemma map_of_omit [simp]:
  "map_of (str_omit k s) x = (if x = k \<and> s \<noteq> [] then Some (JString s) else None)"
  "map_of (int_omit k i) x = (if x = k \<and> i \<noteq> 0 then Some (JInt i) else None)"
  "map_of (float_omit k f) x = (if x = k \<and> f \<noteq> Fin 0 then Some (JFloat f) else None)"
  "map_of (strs_omit k ss) x = (if x = k \<and> ss \<noteq> [] then Some (JArray (map JString ss)) else None)"
  by (auto simp: json_fields)

lemma field_base [simp]:
  "k \<notin> set [''name'', ''unique_id'', ''object_id'', ''device'', ''availability_topic'', ''payload_available'',
     ''payload_not_available'', ''entity_category'', ''icon'', ''qos''] \<Longrightarrow> map_of (base_fields e) k = None"
  by (simp add: base_fields_def map_add_def)

lemma options_of_payloads [simp]:
  "config_options (SensorPayload_json p) = []"
  "bp_PayloadOn r \<noteq> [] \<Longrightarrow> bp_PayloadOff r \<noteq> [] \<Longrightarrow>
     config_options (BinarySensorPayload_json r) = [bp_PayloadOn r, bp_PayloadOff r]"
  "wp_PayloadOn q \<noteq> [] \<Longrightarrow> wp_PayloadOff q \<noteq> [] \<Longrightarrow>
     config_options (SwitchPayload_json q) = [wp_PayloadOn q, wp_PayloadOff q]"
  "config_options (ClimatePayload_json c) = cp_Modes c"
  by (simp_all add: config_options_def SensorPayload_json_def BinarySensorPayload_json_def
      SwitchPayload_json_def ClimatePayload_json_def map_add_def)

lemma option_topics [simp]:
  "option_topic (BinarySensorPayload_json r) = bp_StateTopic r"
  "option_topic (SwitchPayload_json q) = wp_StateTopic q"
  "option_topic (ClimatePayload_json c) = cp_ModeStateTopic c"
  by (simp_all add: option_topic_def BinarySensorPayload_json_def SwitchPayload_json_def
      ClimatePayload_json_def map_add_def)

lemma state_payloads:
  "state_payload b snap (Topic_State b ''power'') = Some (boolToOnOff (sn_PowerOn snap))"
  "state_payload b snap (Topic_State b ''heater_active'') = Some (boolToOnOff (sn_HeaterPWM snap))"
  "state_payload b snap (Topic_State b ''damper_open'') = Some (boolToOpenClosed (sn_DamperOpen snap))"
  "state_payload b snap (Topic_State b ''problem'') = Some (problemValue snap)"
  "state_payload b snap (Topic_State b ''hvac_mode'') = Some (hvacMode snap)"
  "state_payload b snap (Topic_State b ''fan_target'') = Some (fmt_u16 (sn_FanTarget1 snap))"
  by (simp_all add: state_payload_def buildMessages_def state_msg_def)

lemma entity_switch:
  assumes "r \<in> set RegistersWithEntity" and "eh_Kind (rd_Hint r) = EntityKindSwitch"
  shows "eh_ObjectID (rd_Hint r) = ''power''"
proof -
  have "(eh_Kind (rd_Hint r), eh_ObjectID (rd_Hint r)) \<in>
      set (map (\<lambda>r. (eh_Kind (rd_Hint r), eh_ObjectID (rd_Hint r))) RegistersWithEntity)"
    using assms(1) by simp
  then show ?thesis unfolding entity_registers assms(2) by auto
qed

lemma config_cases:
  assumes "(c, o', j) \<in> set (configs b fw)"
  obtains (register) r where "r \<in> set RegistersWithEntity" "(c, o', j) \<in> set (build_one b fw r)"
    | (climate) "j = ClimatePayload_json (climate_payload b fw)"
    | (binary) oid n d on off k where "j = BinarySensorPayload_json (binary_payload b oid n d on off k [] fw)"
        "(oid, on, off) \<in> set [(''heater_active'', ''ON'', ''OFF''), (''damper_open'', ''OPEN'', ''CLOSED''),
            (''problem'', ''ON'', ''OFF'')]"
    | (sensor) p where "j = SensorPayload_json p"
  using assms by (fastforce simp: configs_def object_ids)

lemma options_published:
  assumes "(c, o', j) \<in> set (configs b fw)" and "config_options j \<noteq> []"
  shows "state_payload (bl_topics b) snap (option_topic j) \<in> Some ` set (config_options j)"
  using assms(1)
proof (cases rule: config_cases)
  case (register r)
  have "eh_Kind (rd_Hint r) = EntityKindSwitch \<and> j = SwitchPayload_json (switch_payload b r fw)"
    using register assms(2) by (auto simp: build_one_def Let_def split: if_splits)
  with entity_switch [OF register(1)] show ?thesis
    by (simp add: switch_payload_def Let_def state_payloads boolToOnOff_def)
next
  case climate
  then show ?thesis by (simp add: climate_payload_def Let_def state_payloads hvacMode_def)
next
  case (binary oid n d on off k)
  then show ?thesis
    by (auto simp: binary_payload_def state_payloads boolToOnOff_def boolToOpenClosed_def problemValue_def)
next
  case (sensor p)
  with assms(2) show ?thesis by simp
qed

lemma fan_mode_escapes:
  "\<exists>snap. state_payload b snap (Topic_State b ''fan_target'') \<notin> Some ` set (cp_FanModes (climate_payload c fw))"
  by (rule exI [of _ zero_Snapshot])
    (simp add: state_payloads climate_payload_def Let_def fmt_u16_def zero_Snapshot_def dec_nat.simps digit_char_def char_of_def)

subsection \<open>Laws\<close>

lemma slash_split:
  assumes "CHR ''/'' \<notin> set c" and "CHR ''/'' \<notin> set c'"
  shows "c @ CHR ''/'' # x = c' @ CHR ''/'' # y \<longleftrightarrow> c = c' \<and> x = y"
proof
  assume e: "c @ CHR ''/'' # x = c' @ CHR ''/'' # y"
  have t: "takeWhile (\<lambda>a. a \<noteq> CHR ''/'') (d @ CHR ''/'' # z) = d" if "CHR ''/'' \<notin> set d" for d z :: string
  proof -
    have "takeWhile (\<lambda>a. a \<noteq> CHR ''/'') d = d" using that by (auto simp: takeWhile_eq_all_conv)
    then show ?thesis by (simp add: takeWhile_append)
  qed
  from t [OF assms(1), of x] t [OF assms(2), of y] e have "c = c'" by simp
  with e show "c = c' \<and> x = y" by simp
qed simp

lemma Topic_Discovery_inject:
  assumes "CHR ''/'' \<notin> set c" and "CHR ''/'' \<notin> set c'"
  shows "Topic_Discovery b c x = Topic_Discovery b c' y \<longleftrightarrow> c = c' \<and> x = y"
  using slash_split [OF assms] by (simp add: Topic_Discovery_def)

lemma config_keys_distinct: "distinct config_keys" by code_simp

lemma config_keys_plain: "(c, x) \<in> set config_keys \<Longrightarrow> CHR ''/'' \<notin> set c"
  by (auto simp: config_keys_def)

lemma discovery_topics:
  "map dc_Topic (map (message_of b) (configs b fw)) = map (\<lambda>(c, x). Topic_Discovery (bl_topics b) c x) config_keys"
  by (simp add: configs_keys [symmetric, of b fw] comp_def case_prod_unfold message_of_def)

lemma discovery_topics_distinct: "distinct (map dc_Topic (map (message_of b) (configs b fw)))"
  unfolding discovery_topics
  using config_keys_distinct
  by (auto simp: distinct_map inj_on_def Topic_Discovery_inject config_keys_plain)

lemma field_unique_id [simp]:
  "field ''unique_id'' (SensorPayload_json p) = Some (JString (be_UniqueID (sp_base p)))"
  "field ''unique_id'' (BinarySensorPayload_json r) = Some (JString (be_UniqueID (bp_base r)))"
  "field ''unique_id'' (SwitchPayload_json q) = Some (JString (be_UniqueID (wp_base q)))"
  "field ''unique_id'' (ClimatePayload_json c) = Some (JString (be_UniqueID (cp_base c)))"
  by (simp_all add: SensorPayload_json_def BinarySensorPayload_json_def SwitchPayload_json_def
      ClimatePayload_json_def base_fields_def map_add_def)

lemma configs_unique_ids:
  "list_all (\<lambda>(c, x, j). field ''unique_id'' j = Some (JString (ha_DevicePrefix (bl_haCfg b) @ ''_'' @ x))) (configs b fw)"
  by (auto simp: configs_def list_all_iff build_one_def Let_def sensor_payload_def switch_payload_def
      climate_payload_def binary_payload_def derived_payload_def baseFor_def split: if_splits)

subsection \<open>Properties\<close>



text \<open>
  An entity announced with a set of payloads (the pair of a switch or binary sensor, the modes of
  the climate entity) is only ever published with one of them.
\<close>

lemma payloads_announced:
  assumes "(c, x, j) \<in> set (configs b fw)" and "config_options j \<noteq> []"
  shows "state_payload (bl_topics b) snap (option_topic j) \<in> Some ` set (config_options j)"
  using assms by (rule options_published)

definition sim_builder :: Builder where
  "sim_builder = \<lparr>bl_topics = sim_topics, bl_haCfg = \<lparr>ha_DiscoveryPrefix = ''homeassistant'',
     ha_DevicePrefix = ''oasis'', ha_DeviceName = ''Oasis'', ha_Manufacturer = ''GTC'', ha_Model = ''Syberia 5''\<rparr>\<rparr>"

lemma payloads_announced_example:
  "state_payload sim_topics (zero_Snapshot\<lparr>sn_PowerOn := True\<rparr>) (Topic_State sim_topics ''hvac_mode'')
     \<in> Some ` {''off'', ''heat'', ''fan_only''}"
proof -
  have "(''climate'', ClimateObjectID, ClimatePayload_json (climate_payload sim_builder [])) \<in> set (configs sim_builder [])"
    by (simp add: configs_def)
  from payloads_announced [OF this, of "zero_Snapshot\<lparr>sn_PowerOn := True\<rparr>"] show ?thesis
    by (simp add: climate_payload_def Let_def sim_builder_def)
qed

end
