(* ===== verification/CommandSubscriber.thy ===== *)
theory CommandSubscriber
  imports ApplyCommand Discovery
begin

text \<open>
  \<^verbatim>\<open>interface/mqtt/command_subscriber.go\<close>: the handlers of the four command topics, from the bytes of
  an MQTT message to calls of the command applier, and the registration of the handlers. The applier
  and the subscriber are arguments, as in the source; the deadline of a handler is part of the
  environment the applier runs in, which may end any wait with an error. The lemmas bound what
  messages can do to the controller and read published states back as commands.
\<close>

subsection \<open>Handlers\<close>

type_synonym 's applier = "Command \<Rightarrow> 's \<Rightarrow> go_error option \<times> 's"

definition handlePower :: "'s applier \<Rightarrow> string \<Rightarrow> 's \<Rightarrow> 's" where
  "handlePower apply' payload s =
     (if EqualFold payload ''ON'' then snd (apply' (SetPowerCommand True) s)
      else if EqualFold payload ''OFF'' then snd (apply' (SetPowerCommand False) s)
      else s)"

definition handleHVACMode :: "'s applier \<Rightarrow> string \<Rightarrow> 's \<Rightarrow> 's" where
  "handleHVACMode apply' payload s =
     (let raw = ToLower payload in
      if raw = ''off'' then snd (apply' (SetPowerCommand False) s)
      else if raw = ''heat'' then
        (case apply' (SetPowerCommand True) s of
           (Some e, s1) \<Rightarrow> s1
         | (None, s1) \<Rightarrow> snd (apply' (SetModeCommand ModeHeat) s1))
      else if raw = ''fan_only'' then
        (case apply' (SetPowerCommand True) s of
           (Some e, s1) \<Rightarrow> s1
         | (None, s1) \<Rightarrow> snd (apply' (SetModeCommand ModeOff) s1))
      else s)"

definition handleTargetTemperature :: "'s applier \<Rightarrow> string \<Rightarrow> 's \<Rightarrow> 's" where
  "handleTargetTemperature apply' payload s =
     (case ParseFloat64 payload of
        Inl e \<Rightarrow> s
      | Inr degrees \<Rightarrow>
          (case NewTemperature degrees of
             Inl e \<Rightarrow> s
           | Inr temp \<Rightarrow> snd (apply' (SetTemperatureCommand temp) s)))"

definition handleFanTarget :: "'s applier \<Rightarrow> string \<Rightarrow> 's \<Rightarrow> 's" where
  "handleFanTarget apply' payload s =
     (case ParseUint16 payload of
        Inl e \<Rightarrow> s
      | Inr v \<Rightarrow>
          (case NewFanSpeed v of
             Inl e \<Rightarrow> s
           | Inr speed \<Rightarrow> snd (apply' (SetFanCommand speed) s)))"

lemmas handlers [op_defs] =
  handlePower_def handleHVACMode_def handleTargetTemperature_def handleFanTarget_def

subsection \<open>Registration\<close>

datatype CommandHandler = PowerHandler | HVACModeHandler | TargetTemperatureHandler | FanTargetHandler

fun run_handler :: "CommandHandler \<Rightarrow> 's applier \<Rightarrow> string \<Rightarrow> 's \<Rightarrow> 's" where
  "run_handler PowerHandler = handlePower"
| "run_handler HVACModeHandler = handleHVACMode"
| "run_handler TargetTemperatureHandler = handleTargetTemperature"
| "run_handler FanTargetHandler = handleFanTarget"

definition subscriptions :: "(string \<times> CommandHandler) list" where
  "subscriptions = [(''power'', PowerHandler), (''hvac_mode'', HVACModeHandler),
     (''target_temperature'', TargetTemperatureHandler), (''fan_target'', FanTargetHandler)]"

fun subscribe_all ::
  "(string \<Rightarrow> CommandHandler \<Rightarrow> 's \<Rightarrow> go_error option \<times> 's) \<Rightarrow> TopicBuilder \<Rightarrow> (string \<times> CommandHandler) list
     \<Rightarrow> 's \<Rightarrow> go_error option \<times> 's" where
  "subscribe_all sub b [] s = (None, s)"
| "subscribe_all sub b ((oid, h) # hs) s =
     (case sub (Topic_Command b oid) h s of
        (Some e, s1) \<Rightarrow> (Some (Wrapf (''subscribe '' @ Topic_Command b oid) [e]), s1)
      | (None, s1) \<Rightarrow> subscribe_all sub b hs s1)"

definition CommandSubscriber_Start ::
  "(string \<Rightarrow> CommandHandler \<Rightarrow> 's \<Rightarrow> go_error option \<times> 's) \<Rightarrow> TopicBuilder \<Rightarrow> 's \<Rightarrow> go_error option \<times> 's" where
  "CommandSubscriber_Start sub b s = subscribe_all sub b subscriptions s"

subsection \<open>The commands a message can produce\<close>

text \<open>What the parsers of the payloads and the constructors of the values let through.\<close>

fun valid_command :: "Command \<Rightarrow> bool" where
  "valid_command (SetPowerCommand on) \<longleftrightarrow> True"
| "valid_command (SetModeCommand m) \<longleftrightarrow> m \<in> {ModeOff, ModeHeat}"
| "valid_command (SetTemperatureCommand t) \<longleftrightarrow> valid_temp t"
| "valid_command (SetFanCommand f) \<longleftrightarrow> valid_fan f"

lemma run_handler_invariant:
  assumes "\<And>c s r s'. valid_command c \<Longrightarrow> P s \<Longrightarrow> apply' c s = (r, s') \<Longrightarrow> P s'" and "P s"
  shows "P (run_handler h apply' payload s)"
proof -
  have a: "P (snd (apply' c s))" if "valid_command c" "P s" for c s
    using assms(1) [OF that] by (cases "apply' c s") simp
  show ?thesis
  proof (cases h)
    case HVACModeHandler
    obtain r s1 where o: "apply' (SetPowerCommand True) s = (r, s1)" by fastforce
    then have "P s1" using a [of "SetPowerCommand True" s] assms(2) by simp
    with HVACModeHandler show ?thesis
      using assms(2) o by (cases r) (simp_all add: handleHVACMode_def Let_def a)
  qed (use assms(2) in \<open>auto simp: handlePower_def handleTargetTemperature_def handleFanTarget_def
        split: sum.splits intro!: a dest: NewTemperature_valid NewFanSpeed_valid\<close>)
qed

subsection \<open>The registers messages can reach\<close>

text \<open>
  \<open>within_limits r r'\<close>: from \<open>r\<close> to \<open>r'\<close> only the four command registers changed, to values the
  controller documents; of the key register only the two mode bits.
\<close>

definition within_limits :: "RegFile \<Rightarrow> RegFile \<Rightarrow> bool" where
  "within_limits r r' \<longleftrightarrow> rf_in r' = rf_in r \<and> (\<forall>a. a \<notin> {2, 31, 32, 86} \<longrightarrow> rf_hold r' a = rf_hold r a)
     \<and> rf_hold r' 2 \<in> {rf_hold r 2, 0, 1}
     \<and> (rf_hold r' 31 = rf_hold r 31 \<or> 50 \<le> rf_hold r' 31 \<and> rf_hold r' 31 \<le> 300)
     \<and> (rf_hold r' 32 = rf_hold r 32 \<or> 1 \<le> rf_hold r' 32 \<and> rf_hold r' 32 \<le> 10)
     \<and> rf_hold r' 86 AND NOT 3 = rf_hold r 86 AND NOT 3"

lemma within_limits_refl [simp]: "within_limits r r"
  by (simp add: within_limits_def)

lemma within_limits_trans:
  assumes "within_limits r s" and "within_limits s t"
  shows "within_limits r t"
  unfolding within_limits_def
proof (intro conjI)
  note A = assms(1) [unfolded within_limits_def] and B = assms(2) [unfolded within_limits_def]
  show "rf_in t = rf_in r" using A B by simp
  show "\<forall>a. a \<notin> {2, 31, 32, 86} \<longrightarrow> rf_hold t a = rf_hold r a" using A B by simp
  show "rf_hold t 2 \<in> {rf_hold r 2, 0, 1}" using A B by fastforce
  show "rf_hold t 31 = rf_hold r 31 \<or> 50 \<le> rf_hold t 31 \<and> rf_hold t 31 \<le> 300" using A B by metis
  show "rf_hold t 32 = rf_hold r 32 \<or> 1 \<le> rf_hold t 32 \<and> rf_hold t 32 \<le> 10" using A B by metis
  show "rf_hold t 86 AND NOT 3 = rf_hold r 86 AND NOT 3" using A B by simp
qed

lemma Temperature_Raw_cases:
  assumes "s = f_round (f_mul (celsius t) (Fin temperatureScale))"
  shows "Temperature_Raw t = (if f_lt s (Fin 50) then 50 else if f_lt (Fin 300) s then 300 else f_to_u16 s)"
  using assms by (simp add: Temperature_Raw_def Let_def temperatureRawMin_def temperatureRawMax_def)

lemma Temperature_Raw_bounds:
  assumes "valid_temp t"
  shows "50 \<le> Temperature_Raw t \<and> Temperature_Raw t \<le> 300"
proof -
  obtain x where x: "celsius t = Fin x" using assms by (auto simp: valid_temp_def split: f64.splits)
  have "round64 (x * 10) \<noteq> NaN" by (simp add: round64_def Let_def)
  then consider y where "round64 (x * 10) = Fin y" | b where "round64 (x * 10) = Inf b"
    by (cases "round64 (x * 10)") auto
  then show ?thesis
  proof cases
    case 1
    define i where "i = rnd_away y"
    have "Fin (of_int i) = f_round (f_mul (celsius t) (Fin temperatureScale))"
      by (simp add: x temperatureScale_def 1 i_def)
    from Temperature_Raw_cases [OF this] have r: "Temperature_Raw t =
        (if of_int i < (50 :: rat) then 50 else if (300 :: rat) < of_int i then 300 else word_of_int i)"
      by (simp add: f_to_u16_def rat_trunc_def)
    have c: "of_int i < (50 :: rat) \<longleftrightarrow> i < 50" "(300 :: rat) < of_int i \<longleftrightarrow> 300 < i" by linarith+
    have w: "50 \<le> (word_of_int i :: u16) \<and> (word_of_int i :: u16) \<le> 300" if "50 \<le> i" "i \<le> 300"
      using that by (simp add: word_le_def uint_word_of_int)
    show ?thesis unfolding r c using w by auto
  next
    case 2
    have "Inf b = f_round (f_mul (celsius t) (Fin temperatureScale))"
      by (simp add: x temperatureScale_def 2)
    from Temperature_Raw_cases [OF this] show ?thesis by (cases b) simp_all
  qed
qed

lemma mode_within: "within_limits r (set_hold AddrDevKeys2 (ApplyToRegister (rf_hold r AddrDevKeys2) m) r)"
proof -
  have "ApplyToRegister v m AND NOT 3 = v AND NOT 3" for v
  proof (rule word_eqI16)
    fix n :: nat assume "n < 16"
    show "bit (ApplyToRegister v m AND NOT 3) n = bit (v AND NOT 3) n"
      unfolding bit_ApplyToRegister bit_and_iff bit_not_iff mask3_bit by auto
  qed
  then show ?thesis by (simp add: within_limits_def enum_defs)
qed

lemma command_effect_limits:
  assumes "valid_command c"
  shows "within_limits r (command_effect c r)"
proof (cases c)
  case (SetModeCommand m)
  then show ?thesis using mode_within [of r m] by (simp add: enum_defs)
qed (use assms Temperature_Raw_bounds in \<open>auto simp: within_limits_def valid_fan_def FanSpeed_Value_def enum_defs\<close>)

text \<open>Handling one message keeps the registers within the limits, for every port with the command contract.\<close>

context command_port
begin

lemma handler_within:
  assumes "ok s"
  shows "ok (run_handler h (\<lambda>c. Apply A pause (Some c)) payload s)
    \<and> within_limits (dev s) (dev (run_handler h (\<lambda>c. Apply A pause (Some c)) payload s))"
proof (rule run_handler_invariant)
  fix c s1 r s2
  assume c: "valid_command c" and P: "ok s1 \<and> within_limits (dev s) (dev s1)"
    and a: "Apply A pause (Some c) s1 = (r, s2)"
  have l: "within_limits (dev s1) (set_hold 2 1 (dev s1))" by (simp add: within_limits_def)
  have "within_limits (dev s1) (dev s2)"
    using Apply_effect [OF _ a] P command_effect_limits [OF c] l by (cases r) auto
  with P Apply_effect [OF _ a] show "ok s2 \<and> within_limits (dev s) (dev s2)"
    using within_limits_trans by blast
qed (use assms in simp)

end

subsection \<open>The handlers in front of the dispatcher\<close>

text \<open>A message is handled under the snapshot the poller holds at that moment.\<close>

definition handle_message ::
  "'w ModbusEnv \<Rightarrow> duration \<Rightarrow> CommandHandler \<times> string \<times> Snapshot \<Rightarrow> 'w Client Dispatcher \<Rightarrow> 'w Client Dispatcher" where
  "handle_message E pause m d =
     (case m of (h, payload, sn) \<Rightarrow>
        fst (run_handler h (\<lambda>c. Apply (command_ops E) pause (Some c)) payload (d, sn)))"

lemma handle_message_within:
  assumes "device_laws E dev"
  shows "within_limits (disp_dev dev d) (disp_dev dev (handle_message E pause m d))"
proof -
  obtain h payload sn where m: "m = (h, payload, sn)" by (cases m)
  from disp_commands.handler_within [OF assms, of "(d, sn)" h pause payload] show ?thesis
    by (simp add: m handle_message_def case_prod_unfold)
qed

lemma messages_within:
  assumes "device_laws E dev"
  shows "within_limits (disp_dev dev d) (disp_dev dev (fold (handle_message E pause) ms d))"
proof (induction ms arbitrary: d)
  case (Cons m ms)
  from within_limits_trans [OF handle_message_within [OF assms] Cons.IH] show ?case by simp
qed simp

subsection \<open>Reading published states back\<close>

lemma ParseFloat64_state:
  assumes "n \<le> 65535"
  shows "ParseFloat64 (dec_nat (n div 10) @ ''.'' @ dec_nat (n mod 10)) = Inr (celsius (TemperatureFromRaw (of_nat n)))"
proof -
  have u: "uint (of_nat n :: u16) = int n" using assms by (simp add: uint_nat unat_of_nat)
  obtain c where c: "f_div (f64_of_int (int n)) temperatureScale = Fin c"
    using tenths_Fin [of "int n"] assms by auto
  have "f64_of_int (int n) = Fin (of_int (int n))"
    unfolding f64_of_int_def by (rule round64_of_int) (use assms in simp)
  with c have "round64 (of_nat n / 10) = Fin c" by (simp add: temperatureScale_def)
  then show ?thesis unfolding ParseFloat64_tenths by (simp add: TemperatureFromRaw_def u c)
qed

lemma temperature_payload:
  assumes "50 \<le> n" and "n \<le> 300"
  shows "\<exists>t. Temperature_Raw t = of_nat n \<and>
    handleTargetTemperature ap (dec_nat (n div 10) @ ''.'' @ dec_nat (n mod 10)) s = snd (ap (SetTemperatureCommand t) s)"
proof -
  have u: "uint (of_nat n :: u16) = int n" using assms by (simp add: uint_nat unat_of_nat)
  have p: "ParseFloat64 (dec_nat (n div 10) @ ''.'' @ dec_nat (n mod 10)) = Inr (celsius (TemperatureFromRaw (of_nat n)))"
    by (rule ParseFloat64_state) (use assms in simp)
  obtain t where t: "NewTemperature (celsius (TemperatureFromRaw (of_nat n))) = Inr t"
    using NewTemperature_tenths [of "int n"] assms by (auto simp: TemperatureFromRaw_def u)
  then have "t = TemperatureFromRaw (of_nat n)"
    by (auto simp: NewTemperature_ok_iff TemperatureFromRaw_def)
  moreover have "max 50 (min 300 (of_nat n)) = (of_nat n :: u16)"
    using assms by (simp add: max_def min_def word_le_nat_alt unat_of_nat)
  ultimately show ?thesis
    using t p by (intro exI [of _ t]) (simp add: handleTargetTemperature_def Temperature_Raw_FromRaw)
qed

lemma fan_payload:
  assumes "1 \<le> k" and "k \<le> 10"
  shows "\<exists>f. FanSpeed_Value f = of_nat k \<and> handleFanTarget ap (dec_nat k) s = snd (ap (SetFanCommand f) s)"
proof -
  have p: "ParseUint16 (dec_nat k) = Inr (of_nat k)" by (rule ParseUint16_dec) (use assms in simp)
  obtain f where f: "NewFanSpeed (of_nat k) = Inr f"
    using NewFanSpeed_ok_iff [of "of_nat k"] assms by (auto simp: unat_of_nat)
  then show ?thesis using p NewFanSpeed_valid [OF f] by (auto simp: handleFanTarget_def)
qed

lemma power_payload [simp]:
  "handlePower ap (boolToOnOff on) s = snd (ap (SetPowerCommand on) s)"
proof -
  have "EqualFold ''ON'' ''ON''" "EqualFold ''OFF'' ''OFF''" "\<not> EqualFold ''OFF'' ''ON''" by code_simp+
  then show ?thesis by (simp add: handlePower_def boolToOnOff_def)
qed

lemma Apply_keeps_snapshot: "snd (snd (Apply (command_ops E) pause c (d, sn))) = sn"
proof (cases c)
  case (Some cmd)
  have w: "snd (snd (co_WriteHolding (command_ops E) a v s)) = snd s"
    and m: "snd (snd (co_ModifyHolding (command_ops E) a f s)) = snd s"
    and z: "snd (snd (co_Wait (command_ops E) u s)) = snd s" for a v f u s
    by (simp_all add: command_ops_def case_prod_unfold)
  have l: "snd (labelled x y) = snd y" for x :: string and y :: "go_error option \<times> 'a Client Dispatcher \<times> Snapshot"
    by (cases y) (auto simp: labelled_def split: option.splits)
  show ?thesis
    by (cases cmd) (auto simp: Some Apply_def apply_ops l w m z split: option.splits prod.splits
        dest!: arg_cong [of _ _ "\<lambda>x. snd (snd x)"])
qed (simp add: Apply_def)

lemma command_up:
  assumes "disp_up E dev up d" and "\<not> IsTransitional (sn_Operation sn)"
  shows "\<exists>d'. Apply (command_ops E) pause (Some c) (d, sn) = (None, d', sn) \<and> disp_up E dev up d'
    \<and> disp_dev dev d' = command_effect c (disp_dev dev d)"
proof -
  have "transitionGuard (command_ops E) (d, sn) = None"
    using assms(2) by (simp add: transitionGuard_def command_ops_def Let_def)
  from live_commands.Apply_succeeds [OF _ this, of dev up pause c] assms(1)
  obtain d' sn' where "Apply (command_ops E) pause (Some c) (d, sn) = (None, d', sn')" "disp_up E dev up d'"
    "disp_dev dev d' = command_effect c (disp_dev dev d)" by auto
  with Apply_keeps_snapshot [of E pause "Some c" d sn] show ?thesis by auto
qed

lemma mq_Subscribe_subs: "mq_Subscribe E t (Some h) c = (e, c') \<Longrightarrow> mqc_subs c' = (mqc_subs c)(t \<mapsto> h)"
  by (auto simp: mq_Subscribe_def Let_def split: if_splits prod.splits token.splits option.splits)

lemma subscribe_all_subs:
  "subscribe_all (\<lambda>t h. mq_Subscribe E t (Some (wrap h))) b hs c = (None, c') \<Longrightarrow>
     mqc_subs c' = (mqc_subs c)(map (\<lambda>(oid, h). Topic_Command b oid) hs [\<mapsto>] map (\<lambda>(oid, h). wrap h) hs)"
proof (induction hs arbitrary: c)
  case (Cons oh hs)
  obtain oid h where oh: "oh = (oid, h)" by (cases oh)
  obtain e c1 where s: "mq_Subscribe E (Topic_Command b oid) (Some (wrap h)) c = (e, c1)" by fastforce
  with Cons.prems have e: "e = None" "subscribe_all (\<lambda>t h. mq_Subscribe E t (Some (wrap h))) b hs c1 = (None, c')"
    by (auto simp: oh split: option.splits)
  from Cons.IH [OF e(2)] mq_Subscribe_subs [OF s] show ?case by (simp add: oh fun_upd_def)
qed simp

lemma handle_command:
  assumes "disp_up E dev up d" and "\<not> IsTransitional (sn_Operation sn)"
    and "run_handler h (\<lambda>c. Apply (command_ops E) pause (Some c)) payload (d, sn)
      = snd (Apply (command_ops E) pause (Some c) (d, sn))"
  shows "disp_up E dev up (handle_message E pause (h, payload, sn) d)
    \<and> disp_dev dev (handle_message E pause (h, payload, sn) d) = command_effect c (disp_dev dev d)"
  using command_up [OF assms(1,2), of pause c] assms(3) by (auto simp: handle_message_def)

text \<open>A setpoint and a fan speed in the form in which they are published reach the registers.\<close>

lemma command_registers:
  assumes "disp_up E dev up d" and "\<not> IsTransitional (sn_Operation sn)"
    and "n \<in> {50..300}" and "k \<in> {1..10}" and "p = dec_nat (n div 10) @ ''.'' @ dec_nat (n mod 10)"
  shows "disp_up E dev up (fold (handle_message E pause) [(TargetTemperatureHandler, p, sn), (FanTargetHandler, dec_nat k, sn)] d)
    \<and> disp_dev dev (fold (handle_message E pause) [(TargetTemperatureHandler, p, sn), (FanTargetHandler, dec_nat k, sn)] d)
        = set_hold 32 (of_nat k) (set_hold 31 (of_nat n) (disp_dev dev d))"
proof -
  obtain t where t: "Temperature_Raw t = of_nat n" "handleTargetTemperature
      (\<lambda>c. Apply (command_ops E) pause (Some c)) p (d, sn) = snd (Apply (command_ops E) pause (Some (SetTemperatureCommand t)) (d, sn))"
    using temperature_payload [of n "\<lambda>c. Apply (command_ops E) pause (Some c)" "(d, sn)"] assms(3) by (auto simp: assms(5))
  define d1 where "d1 = handle_message E pause (TargetTemperatureHandler, p, sn) d"
  have 1: "disp_up E dev up d1" "disp_dev dev d1 = set_hold 31 (of_nat n) (disp_dev dev d)"
    using handle_command [OF assms(1,2), of TargetTemperatureHandler pause p] t by (simp_all add: d1_def)
  obtain f where f: "FanSpeed_Value f = of_nat k" "handleFanTarget (\<lambda>c. Apply (command_ops E) pause (Some c))
      (dec_nat k) (d1, sn) = snd (Apply (command_ops E) pause (Some (SetFanCommand f)) (d1, sn))"
    using fan_payload [of k "\<lambda>c. Apply (command_ops E) pause (Some c)" "(d1, sn)"] assms(4) by auto
  show ?thesis using handle_command [OF 1(1) assms(2), of FanTargetHandler pause "dec_nat k"] f 1 by (simp add: d1_def)
qed

subsection \<open>Properties\<close>

text \<open>
  Whatever MQTT messages arrive on the command topics, in whatever order, under whatever snapshots
  and whatever fails on the bus, the controller's registers stay within the documented limits: only
  the four command registers change, the power register to 0 or 1, the setpoint to 50..300, the fan
  target to 1..10, and of the key register only the two mode bits.
\<close>

lemma messages_within_limits:
  assumes "device_laws E dev"
  shows "within_limits (disp_dev dev d) (disp_dev dev (fold (handle_message E pause) ms d))"
  by (rule messages_within [OF assms])

text \<open>
  The four topics the subscriber registers are exactly the command topics announced to Home
  Assistant, each with its own handler; the earlier subscriptions of the client are kept.
\<close>

lemma commands_subscribed:
  assumes "CommandSubscriber_Start (\<lambda>t h. mq_Subscribe E t (Some (wrap h))) b c = (None, c')"
  shows "dom (mqc_subs c') = dom (mqc_subs c) \<union> Topic_Command b ` set command_ids
    \<and> (\<forall>(oid, h) \<in> set subscriptions. mqc_subs c' (Topic_Command b oid) = Some (wrap h))
    \<and> map fst subscriptions = command_ids"
proof -
  have "mqc_subs c' = (mqc_subs c)(map (\<lambda>(oid, h). Topic_Command b oid) subscriptions [\<mapsto>]
      map (\<lambda>(oid, h). wrap h) subscriptions)"
    by (rule subscribe_all_subs) (use assms in \<open>simp add: CommandSubscriber_Start_def\<close>)
  then show ?thesis by (auto simp: subscriptions_def command_ids_def)
qed


subsection \<open>Witnesses\<close>

lemma sim_quiet: "\<not> IsTransitional (sn_Operation zero_Snapshot)"
  by (simp add: zero_Snapshot_def IsTransitional_def enum_defs)

lemma subscribe_all_ok:
  "(\<And>t h s. \<exists>s'. sub t h s = (None, s')) \<Longrightarrow> \<exists>s'. subscribe_all sub b hs s = (None, s')"
proof (induction hs arbitrary: s)
  case (Cons oh hs)
  obtain oid h where oh: "oh = (oid, h)" by (cases oh)
  from Cons.prems obtain s1 where "sub (Topic_Command b oid) h s = (None, s1)" by blast
  with Cons.IH [OF Cons.prems] show ?case by (simp add: oh)
qed simp

lemma sim_subscribe_ok: "\<exists>c'. mq_Subscribe sim_broker t (Some h) c = (None, c')"
  by (simp add: mq_Subscribe_def Let_def sim_broker_def)

lemma messages_within_limits_example:
  "within_limits sample_regs (disp_dev wd_dev (fold (handle_message sim_env DefaultPowerOffPause)
     [(HVACModeHandler, ''heat'', zero_Snapshot), (TargetTemperatureHandler, ''99'', zero_Snapshot)]
     (sim_disp sample_regs [None, Some reset_error])))"
  using messages_within_limits [OF sim_device_laws, where d = "sim_disp sample_regs [None, Some reset_error]"
      and pause = DefaultPowerOffPause
      and ms = "[(HVACModeHandler, ''heat'', zero_Snapshot), (TargetTemperatureHandler, ''99'', zero_Snapshot)]"]
  by (simp only: sample_dev)

lemma commands_subscribed_example:
  "\<exists>c'. CommandSubscriber_Start (\<lambda>t h. mq_Subscribe sim_broker t (Some (id h))) sim_topics
      (sim_mqtt :: (CommandHandler, _) MqttClient) = (None, c')
    \<and> mqc_subs c' (Topic_Command sim_topics ''power'') = Some PowerHandler"
proof -
  obtain c' where c: "CommandSubscriber_Start (\<lambda>t h. mq_Subscribe sim_broker t (Some (id h))) sim_topics
      (sim_mqtt :: (CommandHandler, _) MqttClient) = (None, c')"
    unfolding CommandSubscriber_Start_def
    using subscribe_all_ok [of "\<lambda>t h. mq_Subscribe sim_broker t (Some (id h))", OF sim_subscribe_ok] by blast
  from commands_subscribed [OF c] c show ?thesis by (auto simp: subscriptions_def)
qed


end
