(* ===== verification/PublishDiscovery.thy ===== *)
theory PublishDiscovery
  imports Discovery
begin

text \<open>
  \<^verbatim>\<open>application/usecase/publish_discovery.go\<close>: publishing the discovery configurations and the
  memory of the firmware they were last published for. The builder is the one of theory Discovery, the
  publisher an argument.
\<close>

record PublishDiscovery =
  pd_builder :: Builder
  pd_lastFirmware :: string

definition NewPublishDiscovery :: "Builder \<Rightarrow> PublishDiscovery" where
  "NewPublishDiscovery b = \<lparr>pd_builder = b, pd_lastFirmware = []\<rparr>"

definition discovery_labelled :: "Discovery \<Rightarrow> string \<times> string \<times> string" where
  "discovery_labelled d = (''publish discovery topic '' @ dc_Topic d, dc_Topic d, dc_Payload d)"

definition PublishDiscovery_Publish ::
  "(string \<Rightarrow> string \<Rightarrow> bool \<Rightarrow> 's \<Rightarrow> go_error option \<times> 's) \<Rightarrow> string \<Rightarrow> PublishDiscovery \<Rightarrow> 's
     \<Rightarrow> go_error option \<times> PublishDiscovery \<times> 's" where
  "PublishDiscovery_Publish pub firmware p s =
     (case Build (pd_builder p) firmware of
        Inl e \<Rightarrow> (Some (Wrapf ''build discovery'' [e]), p, s)
      | Inr cfgs \<Rightarrow>
          (case publish_all pub (map discovery_labelled cfgs) s of
             (errs, s1) \<Rightarrow> (errors_Join errs, p\<lparr>pd_lastFirmware := firmware\<rparr>, s1)))"

definition PublishIfChanged ::
  "(string \<Rightarrow> string \<Rightarrow> bool \<Rightarrow> 's \<Rightarrow> go_error option \<times> 's) \<Rightarrow> string \<Rightarrow> PublishDiscovery \<Rightarrow> 's
     \<Rightarrow> go_error option \<times> PublishDiscovery \<times> 's" where
  "PublishIfChanged pub firmware p s =
     (if firmware = pd_lastFirmware p \<and> pd_lastFirmware p \<noteq> [] then (None, p, s)
      else if firmware = [] \<and> pd_lastFirmware p = [] then (None, p, s)
      else PublishDiscovery_Publish pub firmware p s)"

definition configs_sent :: "Builder \<Rightarrow> string \<Rightarrow> (string \<times> string \<times> bool) list" where
  "configs_sent b fw = map (\<lambda>d. (dc_Topic d, dc_Payload d, True)) (map (message_of b) (configs b fw))"

lemma retained_discovery [simp]:
  "retained_of (map discovery_labelled ds) = map (\<lambda>d. (dc_Topic d, dc_Payload d, True)) ds"
  by (simp add: retained_of_def discovery_labelled_def)

lemma Publish_sends:
  assumes "log_law E lg" and "PublishDiscovery_Publish (mq_Publish E) fw p c = (e, p', c')"
  shows "p' = p\<lparr>pd_lastFirmware := fw\<rparr> \<and> (\<exists>l. published (lg (mqc_world c')) = published (lg (mqc_world c)) @ l
      \<and> subseq l (configs_sent (pd_builder p) fw) \<and> (e \<noteq> None \<or> l = configs_sent (pd_builder p) fw))"
proof -
  obtain es where p: "publish_all (mq_Publish E)
        (map discovery_labelled (map (message_of (pd_builder p)) (configs (pd_builder p) fw))) c = (es, c')"
    and e: "e = errors_Join es" "p' = p\<lparr>pd_lastFirmware := fw\<rparr>"
    using assms(2) by (auto simp: PublishDiscovery_Publish_def Build_configs simp del: map_map split: prod.splits)
  from mqtt_pub.publish_all_sent [OF assms(1) p] show ?thesis
    by (auto simp: e errors_Join_def configs_sent_def simp del: map_map)
qed

text \<open>
  A firmware change republishes all sixteen configurations, retained, for the new firmware; a call
  with the firmware they were last published for (or an empty one before the first) sends nothing and
  changes nothing. The firmware is remembered even when some message failed.
\<close>

lemma republished_when_changed:
  assumes "log_law E lg" and "PublishIfChanged (mq_Publish E) fw p c = (e, p', c')"
  shows "if fw = pd_lastFirmware p then (e, p', c') = (None, p, c)
    else pd_lastFirmware p' = fw \<and> (\<exists>l. published (lg (mqc_world c')) = published (lg (mqc_world c)) @ l
      \<and> subseq l (configs_sent (pd_builder p) fw) \<and> (e \<noteq> None \<or> l = configs_sent (pd_builder p) fw))"
proof (cases "fw = pd_lastFirmware p")
  case True
  with assms(2) show ?thesis by (auto simp: PublishIfChanged_def split: if_splits)
next
  case False
  then have "PublishDiscovery_Publish (mq_Publish E) fw p c = (e, p', c')"
    using assms(2) by (auto simp: PublishIfChanged_def split: if_splits)
  from Publish_sends [OF assms(1) this] False show ?thesis by auto
qed

lemma PublishDiscovery_up:
  assumes "mq_up E lg up c"
  shows "\<exists>c'. PublishDiscovery_Publish (mq_Publish E) fw p c = (None, p\<lparr>pd_lastFirmware := fw\<rparr>, c')
    \<and> mq_up E lg up c' \<and> published (lg (mqc_world c')) = published (lg (mqc_world c)) @ configs_sent (pd_builder p) fw"
  using mqtt_live.publish_all_up [OF assms,
      of "map discovery_labelled (map (message_of (pd_builder p)) (configs (pd_builder p) fw))"]
  by (auto simp: PublishDiscovery_Publish_def Build_configs errors_Join_def configs_sent_def simp del: map_map)

lemma republished_when_changed_example:
  "\<exists>p' c' l. PublishIfChanged (mq_Publish sim_broker) ''2.07'' (NewPublishDiscovery sim_builder)
       (sim_mqtt :: (unit, _) MqttClient) = (None, p', c')
     \<and> published (mqc_world c') = published (mqc_world (sim_mqtt :: (unit, _) MqttClient)) @ l
     \<and> l = configs_sent sim_builder ''2.07''"
proof -
  obtain p' c' where c: "PublishIfChanged (mq_Publish sim_broker) ''2.07'' (NewPublishDiscovery sim_builder)
       (sim_mqtt :: (unit, _) MqttClient) = (None, p', c')"
    using PublishDiscovery_up [OF sim_mqtt_up, of "''2.07''" "NewPublishDiscovery sim_builder"]
    by (auto simp: PublishIfChanged_def NewPublishDiscovery_def)
  from republished_when_changed [OF sim_broker_law c] c show ?thesis
    by (auto simp: NewPublishDiscovery_def)
qed

end
