(* ===== verification/Availability.thy ===== *)
theory Availability
  imports Entity GoStr MqttClient
begin

text \<open>
  The three watchers of the bridge's liveness: \<^verbatim>\<open>application/service/availability_manager.go\<close> (staleness
  of the latest snapshot, with transition callbacks), \<^verbatim>\<open>application/service/ha_status_listener.go\<close> (the
  birth message of Home Assistant) and \<^verbatim>\<open>interface/http/handler/health.go\<close> (the probes). The world
  the callbacks and the clock act on is a type parameter; what other goroutines do between two ticks
  is a list of world transformers.
\<close>

subsection \<open>The availability manager\<close>

record 'w AvailabilityEnv =
  av_snapshot :: "'w \<Rightarrow> Snapshot"
  av_now :: "'w \<Rightarrow> gotime \<times> 'w"

record 'w AvailabilityManager =
  am_threshold :: duration
  am_checkInterval :: duration
  am_onOnline :: "('w \<Rightarrow> 'w) option"
  am_onOffline :: "('w \<Rightarrow> 'w) option"
  am_isOffline :: bool
  am_world :: 'w

definition NewAvailabilityManager :: "duration \<Rightarrow> 'w \<Rightarrow> 'w AvailabilityManager" where
  "NewAvailabilityManager threshold w =
     \<lparr>am_threshold = threshold, am_checkInterval = 2 * Second, am_onOnline = None, am_onOffline = None,
      am_isOffline = True, am_world = w\<rparr>"

definition withCheckInterval :: "duration \<Rightarrow> 'w AvailabilityManager \<Rightarrow> 'w AvailabilityManager" where
  "withCheckInterval d a = (if d \<le> 0 then a else a\<lparr>am_checkInterval := d\<rparr>)"

definition SetCallbacks ::
  "('w \<Rightarrow> 'w) option \<Rightarrow> ('w \<Rightarrow> 'w) option \<Rightarrow> 'w AvailabilityManager \<Rightarrow> 'w AvailabilityManager" where
  "SetCallbacks onOnline onOffline a = a\<lparr>am_onOnline := onOnline, am_onOffline := onOffline\<rparr>"

definition call_back :: "('w \<Rightarrow> 'w) option \<Rightarrow> 'w AvailabilityManager \<Rightarrow> 'w AvailabilityManager" where
  "call_back f a = (case f of None \<Rightarrow> a | Some g \<Rightarrow> a\<lparr>am_world := g (am_world a)\<rparr>)"

definition tick :: "'w AvailabilityEnv \<Rightarrow> 'w AvailabilityManager \<Rightarrow> 'w AvailabilityManager" where
  "tick E a =
     (let snap = av_snapshot E (am_world a); (now, w1) = av_now E (am_world a);
          stale = IsZero (sn_PolledAt snap) \<or> am_threshold a < time_sub now (sn_PolledAt snap);
          (transition, offline) =
            (if stale \<and> \<not> am_isOffline a then (True, True)
             else if \<not> stale \<and> am_isOffline a then (True, False)
             else (False, am_isOffline a));
          a1 = a\<lparr>am_isOffline := offline, am_world := w1\<rparr>
      in if \<not> transition then a1
         else if offline then call_back (am_onOffline a1) a1
         else call_back (am_onOnline a1) a1)"

text \<open>The ticker loop: between two ticks the other goroutines change the world.\<close>

definition run_ticks :: "'w AvailabilityEnv \<Rightarrow> ('w \<Rightarrow> 'w) list \<Rightarrow> 'w AvailabilityManager \<Rightarrow> 'w AvailabilityManager" where
  "run_ticks E fs a = fold (\<lambda>f a. tick E (a\<lparr>am_world := f (am_world a)\<rparr>)) fs a"

subsection \<open>The listener for the status of Home Assistant\<close>

record ('h, 's) HAStatusListener =
  hs_topic :: string
  hs_onOnline :: "('s \<Rightarrow> 's) option"

definition NewHAStatusListener :: "string \<Rightarrow> ('s \<Rightarrow> 's) option \<Rightarrow> ('h, 's) HAStatusListener option" where
  "NewHAStatusListener topic onOnline =
     (if topic = [] then None else Some \<lparr>hs_topic = topic, hs_onOnline = onOnline\<rparr>)"

definition HAStatusListener_Start ::
  "(string \<Rightarrow> 'h \<Rightarrow> 's \<Rightarrow> go_error option \<times> 's) \<Rightarrow> 'h \<Rightarrow> ('h, 'x) HAStatusListener \<Rightarrow> 's \<Rightarrow> go_error option \<times> 's" where
  "HAStatusListener_Start sub handle l s =
     (case sub (hs_topic l) handle s of (Some e, s1) \<Rightarrow> (Some e, s1) | (None, s1) \<Rightarrow> (None, s1))"

definition ha_handle :: "('h, 's) HAStatusListener \<Rightarrow> string \<Rightarrow> 's \<Rightarrow> 's" where
  "ha_handle l payload s =
     (let raw = TrimSpace (ToLower payload) in
      if raw = ''online'' then (case hs_onOnline l of None \<Rightarrow> s | Some f \<Rightarrow> f s)
      else s)"

subsection \<open>The health probes\<close>

definition Live :: "int \<times> (string \<times> string) list" where
  "Live = (200, [(''status'', ''ok'')])"

definition Ready :: "bool \<Rightarrow> Snapshot \<Rightarrow> gotime \<Rightarrow> duration \<Rightarrow> int \<times> (string \<times> string) list" where
  "Ready mqtt_connected snap now threshold =
     (if \<not> mqtt_connected then (503, [(''status'', ''not_ready''), (''reason'', ''mqtt_not_connected'')])
      else if IsZero (sn_PolledAt snap) \<or> threshold < time_sub now (sn_PolledAt snap)
      then (503, [(''status'', ''not_ready''), (''reason'', ''stale_snapshot'')])
      else (200, [(''status'', ''ok'')]))"

subsection \<open>Laws of the manager\<close>

definition fresh :: "'w AvailabilityEnv \<Rightarrow> 'w AvailabilityManager \<Rightarrow> bool" where
  "fresh E a = (let snap = av_snapshot E (am_world a) in
     sn_PolledAt snap \<noteq> zero_time \<and> time_sub (fst (av_now E (am_world a))) (sn_PolledAt snap) \<le> am_threshold a)"

lemma call_back_frame [simp]:
  "am_isOffline (call_back f a) = am_isOffline a" "am_threshold (call_back f a) = am_threshold a"
  "am_onOnline (call_back f a) = am_onOnline a" "am_onOffline (call_back f a) = am_onOffline a"
  by (auto simp: call_back_def split: option.splits)

lemma tick_frame [simp]:
  "am_threshold (tick E a) = am_threshold a" "am_onOnline (tick E a) = am_onOnline a"
  "am_onOffline (tick E a) = am_onOffline a"
  by (simp_all add: tick_def Let_def case_prod_unfold)

lemma tick_offline [simp]: "am_isOffline (tick E a) = (\<not> fresh E a)"
  by (simp add: tick_def fresh_def Let_def case_prod_unfold IsZero_def)

text \<open>
  \<open>callback_laws\<close>: what the callbacks leave in a log of the world, which neither the clock nor the
  other goroutines write to.
\<close>

definition callback_laws ::
  "'w AvailabilityEnv \<Rightarrow> ('w \<Rightarrow> bool list) \<Rightarrow> 'w AvailabilityManager \<Rightarrow> bool" where
  "callback_laws E lg a \<longleftrightarrow>
     (\<exists>f g. am_onOnline a = Some f \<and> am_onOffline a = Some g
        \<and> (\<forall>w. lg (f w) = lg w @ [True]) \<and> (\<forall>w. lg (g w) = lg w @ [False]))
     \<and> (\<forall>w. lg (snd (av_now E w)) = lg w)"

lemma callback_laws_frame [simp]:
  "callback_laws E lg (tick E a) = callback_laws E lg a"
  "callback_laws E lg (a\<lparr>am_world := w\<rparr>) = callback_laws E lg a"
  by (simp_all add: callback_laws_def)

lemma tick_log:
  "callback_laws E lg a \<Longrightarrow> lg (am_world (tick E a)) =
     lg (am_world a) @ (if fresh E a = am_isOffline a then [fresh E a] else [])"
  by (auto simp: callback_laws_def tick_def fresh_def call_back_def Let_def case_prod_unfold IsZero_def)

fun fresh_trace :: "'w AvailabilityEnv \<Rightarrow> ('w \<Rightarrow> 'w) list \<Rightarrow> 'w AvailabilityManager \<Rightarrow> bool list" where
  "fresh_trace E [] a = []"
| "fresh_trace E (f # fs) a =
     (let a1 = a\<lparr>am_world := f (am_world a)\<rparr> in fresh E a1 # fresh_trace E fs (tick E a1))"

lemma run_ticks_Cons [simp]:
  "run_ticks E [] a = a"
  "run_ticks E (f # fs) a = run_ticks E fs (tick E (a\<lparr>am_world := f (am_world a)\<rparr>))"
  by (simp_all add: run_ticks_def)

lemma run_ticks_offline:
  "am_isOffline (run_ticks E fs a) = (\<not> last ((\<not> am_isOffline a) # fresh_trace E fs a))"
  by (induction fs arbitrary: a) (simp_all add: Let_def)

lemma remdups_adj_tl: "tl (remdups_adj (x # y # ys)) = (if x = y then [] else [y]) @ tl (remdups_adj (y # ys))"
  by (simp add: remdups_adj_Cons_alt)

lemma run_ticks_log:
  assumes "callback_laws E lg a" and "\<forall>f \<in> set fs. \<forall>w. lg (f w) = lg w"
  shows "lg (am_world (run_ticks E fs a)) =
    lg (am_world a) @ tl (remdups_adj ((\<not> am_isOffline a) # fresh_trace E fs a))"
  using assms
proof (induction fs arbitrary: a)
  case (Cons f fs)
  let ?a = "a\<lparr>am_world := f (am_world a)\<rparr>"
  have "callback_laws E lg (tick E ?a)" using Cons.prems(1) by simp
  from Cons.IH [OF this] Cons.prems
  have "lg (am_world (run_ticks E fs (tick E ?a))) =
      lg (am_world (tick E ?a)) @ tl (remdups_adj (fresh E ?a # fresh_trace E fs (tick E ?a)))"
    by simp
  also have "lg (am_world (tick E ?a)) = lg (am_world a) @ (if fresh E ?a = am_isOffline a then [fresh E ?a] else [])"
    using tick_log [of E lg ?a] Cons.prems by simp
  finally show ?case by (simp add: remdups_adj_tl Let_def)
qed simp

subsection \<open>Properties\<close>

text \<open>
  Starting offline, the manager calls back exactly at the changes between stale and fresh: the
  callbacks alternate, the first one is \<open>online\<close> and comes with the first fresh snapshot, and after
  every tick the manager's state is the freshness it just saw.
\<close>

lemma availability_transitions:
  assumes "callback_laws E lg a" and "am_isOffline a" and "\<forall>f \<in> set fs. \<forall>w. lg (f w) = lg w"
  shows "lg (am_world (run_ticks E fs a)) = lg (am_world a) @ tl (remdups_adj (False # fresh_trace E fs a))
    \<and> am_isOffline (run_ticks E fs a) = (\<not> last (False # fresh_trace E fs a))"
  using run_ticks_log [OF assms(1,3)] run_ticks_offline [of E fs a] assms(2) by simp

subsection \<open>A run\<close>

text \<open>A world of a clock, the time of the last poll and the log of the callbacks.\<close>

definition sim_watch :: "(int \<times> int \<times> bool list) AvailabilityEnv" where
  "sim_watch = \<lparr>av_snapshot = (\<lambda>(t, p, l). zero_Snapshot\<lparr>sn_PolledAt := p\<rparr>), av_now = (\<lambda>(t, p, l). (t, t, p, l))\<rparr>"

definition sim_manager :: "bool \<Rightarrow> int \<times> int \<times> bool list \<Rightarrow> (int \<times> int \<times> bool list) AvailabilityManager" where
  "sim_manager offline w = (SetCallbacks (Some (\<lambda>(t, p, l). (t, p, l @ [True]))) (Some (\<lambda>(t, p, l). (t, p, l @ [False])))
     (NewAvailabilityManager 30 w))\<lparr>am_isOffline := offline\<rparr>"

definition at_time :: "int \<Rightarrow> int \<Rightarrow> int \<times> int \<times> bool list \<Rightarrow> int \<times> int \<times> bool list" where
  "at_time t p w = (t, p, snd (snd w))"

lemmas sim_defs = sim_manager_def SetCallbacks_def NewAvailabilityManager_def sim_watch_def

lemma sim_fresh: "fresh sim_watch (sim_manager b (t, p, l)) \<longleftrightarrow> p \<noteq> 0 \<and> time_sub t p \<le> 30"
  by (simp add: fresh_def sim_defs zero_time_def)

lemma sim_tick:
  "tick sim_watch (sim_manager b (t, p, l)) =
     sim_manager (\<not> (p \<noteq> 0 \<and> time_sub t p \<le> 30))
       (t, p, if (p \<noteq> 0 \<and> time_sub t p \<le> 30) = b then l @ [b] else l)"
  by (cases b; cases "p = 0"; cases "time_sub t p \<le> 30")
    (simp_all add: tick_def call_back_def sim_defs zero_time_def IsZero_def Let_def)

lemma sim_world: "am_world (sim_manager b w) = w" "(sim_manager b w)\<lparr>am_world := v\<rparr> = sim_manager b v"
  by (simp_all add: sim_defs)

lemma availability_transitions_example:
  "snd (snd (am_world (run_ticks sim_watch [at_time 2 0, at_time 10 9, at_time 20 9, at_time 50 9, at_time 60 58]
     (sim_manager True (1, 0, []))))) = [True, False, True]"
proof -
  have l: "callback_laws sim_watch (\<lambda>w. snd (snd w)) (sim_manager True (1, 0, []))"
    by (auto simp: callback_laws_def sim_defs)
  have o': "am_isOffline (sim_manager True (1, 0, []))" and w: "snd (snd (am_world (sim_manager True (1, 0, [])))) = []"
    by (simp_all add: sim_defs)
  have s: "time_sub 10 9 = 1" "time_sub 20 9 = 11" "time_sub 50 9 = 41" "time_sub 60 58 = 2"
    by (simp_all add: time_sub_def int64_min_def int64_max_def)
  have f: "fresh_trace sim_watch [at_time 2 0, at_time 10 9, at_time 20 9, at_time 50 9, at_time 60 58]
      (sim_manager True (1, 0, [])) = [False, True, True, False, True]"
    by (simp add: Let_def sim_world sim_fresh sim_tick at_time_def s)
  have q: "\<forall>f \<in> set [at_time 2 0, at_time 10 9, at_time 20 9, at_time 50 9, at_time 60 58].
      \<forall>w. snd (snd (f w)) = snd (snd w)"
    by (simp add: at_time_def)
  from availability_transitions [OF l o' q] show ?thesis unfolding f w by simp
qed

end
