(* ===== verification/ConfigLoad.thy ===== *)
theory ConfigLoad
  imports Config Backoff GoStr Metrics
begin

text \<open>
  Reading the configuration from the environment: \<^verbatim>\<open>infrastructure/config/helpers.go\<close> and \<open>Load\<close> of
  \<^verbatim>\<open>config.go\<close>. The environment is a function from names to values, an unset variable being the
  empty string as for \<^verbatim>\<open>os.Getenv\<close>. \<open>ParseDuration\<close> is \<^verbatim>\<open>time.ParseDuration\<close>, with its unsigned
  64-bit arithmetic and its overflow checks; its loop consumes at least the unit of each term.
\<close>

subsection \<open>time.ParseDuration\<close>

definition two63 :: nat where "two63 = 2 ^ 63"

definition duration_unit :: "string \<Rightarrow> nat option" where
  "duration_unit u = map_of
     [(''ns'', 1), (''us'', 1000), ([CHR 0xC2, CHR 0xB5, CHR ''s''], 1000),
      ([CHR 0xCE, CHR 0xBC, CHR ''s''], 1000), (''ms'', 1000000), (''s'', 1000000000),
      (''m'', 60000000000), (''h'', 3600000000000)] u"

text \<open>Leading digits, unless they exceed \<open>2 ^ 63\<close>.\<close>

fun leadingInt :: "nat \<Rightarrow> string \<Rightarrow> (nat \<times> string) option" where
  "leadingInt x [] = Some (x, [])"
| "leadingInt x (c # cs) =
     (case digit_val c of
        None \<Rightarrow> Some (x, c # cs)
      | Some d \<Rightarrow> if two63 div 10 < x then None
                  else if two63 < 10 * x + d then None else leadingInt (10 * x + d) cs)"

text \<open>Digits of a fraction: the number and the scale; digits that would overflow are skipped.\<close>

fun leadingFraction :: "bool \<Rightarrow> nat \<Rightarrow> rat \<Rightarrow> string \<Rightarrow> nat \<times> rat \<times> string" where
  "leadingFraction overflow x scale [] = (x, scale, [])"
| "leadingFraction overflow x scale (c # cs) =
     (case digit_val c of
        None \<Rightarrow> (x, scale, c # cs)
      | Some d \<Rightarrow> if overflow \<or> (two63 - 1) div 10 < x \<or> two63 < 10 * x + d
                  then leadingFraction True x scale cs
                  else leadingFraction False (10 * x + d) (scale * 10) cs)"

definition number_char :: "char \<Rightarrow> bool" where
  "number_char c \<longleftrightarrow> c = CHR ''.'' \<or> digit_val c \<noteq> None"

text \<open>One term: digits, an optional fraction and a unit; its value and the rest.\<close>

definition duration_term :: "string \<Rightarrow> (nat \<times> string) option" where
  "duration_term s =
     (if s = [] \<or> \<not> number_char (hd s) then None
      else case leadingInt 0 s of
        None \<Rightarrow> None
      | Some (v, s1) \<Rightarrow>
          (let pre = length s1 \<noteq> length s;
               (f, scale, s2, post) =
                 (if s1 \<noteq> [] \<and> hd s1 = CHR ''.'' then
                    (case leadingFraction False 0 1 (tl s1) of (f, scale, s2) \<Rightarrow>
                       (f, scale, s2, length s2 \<noteq> length (tl s1)))
                  else (0, 1, s1, False));
               u = takeWhile (\<lambda>c. \<not> number_char c) s2
           in if \<not> pre \<and> \<not> post then None
              else if u = [] then None
              else case duration_unit u of
                None \<Rightarrow> None
              | Some unit \<Rightarrow>
                  if two63 div unit < v then None
                  else let v1 = v * unit;
                           v2 = (if 0 < f then v1 + nat (f_to_int64 oor_amd64
                                   (f_mul (f64_of_int (int f)) (f_div (f64_of_int (int unit)) scale))) else v1)
                       in if 0 < f \<and> two63 < v2 then None
                          else Some (v2, dropWhile (\<lambda>c. \<not> number_char c) s2)))"

lemma leadingInt_length: "leadingInt x s = Some (v, t) \<Longrightarrow> length t \<le> length s"
  by (induction x s rule: leadingInt.induct) (auto split: option.splits if_splits)

lemma leadingFraction_length: "leadingFraction b x sc s = (f, sc', t) \<Longrightarrow> length t \<le> length s"
proof (induction b x sc s rule: leadingFraction.induct)
  case (2 b x sc c cs)
  then show ?case by (cases "digit_val c") (auto split: if_splits)
qed simp

lemma duration_term_shorter:
  assumes "duration_term s = Some (v, rest)"
  shows "length rest < length s"
proof -
  obtain w s1 where i: "leadingInt 0 s = Some (w, s1)"
    using assms by (auto simp: duration_term_def split: if_splits option.splits)
  define s2 where "s2 = (if s1 \<noteq> [] \<and> hd s1 = CHR ''.'' then snd (snd (leadingFraction False 0 1 (tl s1))) else s1)"
  have "length s2 \<le> length s1"
    using leadingFraction_length [of False 0 1 "tl s1"]
    by (cases "leadingFraction False 0 1 (tl s1)") (auto simp: s2_def le_diff_conv)
  with leadingInt_length [OF i] have l: "length s2 \<le> length s" by simp
  have u: "takeWhile (\<lambda>c. \<not> number_char c) s2 \<noteq> []" "rest = dropWhile (\<lambda>c. \<not> number_char c) s2"
    using assms i by (auto simp: duration_term_def s2_def Let_def case_prod_unfold split: if_splits option.splits)
  then have "length rest < length s2"
    by (metis append_Nil length_append length_greater_0_conv less_add_same_cancel2 takeWhile_dropWhile_id)
  with l show ?thesis by simp
qed

text \<open>
  The library words its error after the check that failed; here every failure has the same text. The
  sum of the terms is a \<^verbatim>\<open>uint64\<close>.\<close>

function duration_terms :: "nat \<Rightarrow> string \<Rightarrow> nat option" where
  "duration_terms d s =
     (if s = [] then Some d
      else case duration_term s of
        None \<Rightarrow> None
      | Some (v, rest) \<Rightarrow>
          (let d1 = (d + v) mod 2 ^ 64 in if two63 < d1 then None else duration_terms d1 rest))"
  by pat_completeness auto
termination
  by (relation "measure (length \<circ> snd)") (auto dest: duration_term_shorter)

declare duration_terms.simps [simp del]

definition invalid_duration :: "string \<Rightarrow> go_error" where
  "invalid_duration s = ErrText (''time: invalid duration '' @ go_quote s)"

definition ParseDuration :: "string \<Rightarrow> go_error + duration" where
  "ParseDuration orig =
     (let (neg, s) = strip_sign orig in
      if s = ''0'' then Inr 0
      else if s = [] then Inl (invalid_duration orig)
      else case duration_terms 0 s of
        None \<Rightarrow> Inl (invalid_duration orig)
      | Some d \<Rightarrow>
          if neg then Inr (- int d)
          else if two63 - 1 < d then Inl (invalid_duration orig)
          else Inr (int d))"

subsection \<open>Reading variables (helpers.go)\<close>

type_synonym environ = "string \<Rightarrow> string"

definition getEnvOrDefault :: "environ \<Rightarrow> string \<Rightarrow> string \<Rightarrow> string" where
  "getEnvOrDefault env key def = (if env key \<noteq> [] then env key else def)"

definition invalid_value :: "string \<Rightarrow> string \<Rightarrow> go_error \<Rightarrow> go_error" where
  "invalid_value key v err = Wrapf (''invalid '' @ key @ ''='' @ go_quote v) [err]"

definition getEnvOrDefaultInt :: "environ \<Rightarrow> string \<Rightarrow> int \<Rightarrow> go_error + int" where
  "getEnvOrDefaultInt env key def =
     (let v = env key in
      if v = [] then Inr def
      else case Atoi v of Inl err \<Rightarrow> Inl (invalid_value key v err) | Inr n \<Rightarrow> Inr n)"

definition ParseBool :: "string \<Rightarrow> go_error + bool" where
  "ParseBool s =
     (if s \<in> set [''1'', ''t'', ''T'', ''TRUE'', ''true'', ''True''] then Inr True
      else if s \<in> set [''0'', ''f'', ''F'', ''FALSE'', ''false'', ''False''] then Inr False
      else Inl (ErrText ''strconv.ParseBool: invalid syntax''))"

definition getEnvOrDefaultBool :: "environ \<Rightarrow> string \<Rightarrow> bool \<Rightarrow> go_error + bool" where
  "getEnvOrDefaultBool env key def =
     (let v = env key in
      if v = [] then Inr def
      else case ParseBool v of Inl err \<Rightarrow> Inl (invalid_value key v err) | Inr b \<Rightarrow> Inr b)"

definition getEnvOrDefaultDuration :: "environ \<Rightarrow> string \<Rightarrow> duration \<Rightarrow> go_error + duration" where
  "getEnvOrDefaultDuration env key def =
     (let v = env key in
      if v = [] then Inr def
      else case ParseDuration v of Inl err \<Rightarrow> Inl (invalid_value key v err) | Inr d \<Rightarrow> Inr d)"

definition getEnvOrDefaultByte :: "environ \<Rightarrow> string \<Rightarrow> u8 \<Rightarrow> go_error + u8" where
  "getEnvOrDefaultByte env key def =
     (let v = env key in
      if v = [] then Inr def
      else case Atoi v of
        Inl err \<Rightarrow> Inl (invalid_value key v err)
      | Inr n \<Rightarrow>
          if n < 0 \<or> 255 < n
          then Inl (ErrText (''invalid '' @ key @ ''='' @ dec_int n @ '': out of byte range [0,255]''))
          else Inr (word_of_int n))"

definition getEnvOrDefaultFloat :: "environ \<Rightarrow> string \<Rightarrow> f64 \<Rightarrow> go_error + f64" where
  "getEnvOrDefaultFloat env key def =
     (let v = env key in
      if v = [] then Inr def
      else case ParseFloat64 v of Inl err \<Rightarrow> Inl (invalid_value key v err) | Inr f \<Rightarrow> Inr f)"

lemmas env_readers [op_defs] = getEnvOrDefaultInt_def getEnvOrDefaultBool_def getEnvOrDefaultDuration_def
  getEnvOrDefaultByte_def getEnvOrDefaultFloat_def

subsection \<open>Load (config.go)\<close>

text \<open>\<^verbatim>\<open>if cfg.F, err = get(key, def); err != nil { return nil, fmt.Errorf("loading KEY: %w", err) }\<close>.\<close>

definition loading :: "string \<Rightarrow> go_error + 'a \<Rightarrow> ('a \<Rightarrow> go_error + 'b) \<Rightarrow> go_error + 'b" where
  "loading key r k = (case r of Inl err \<Rightarrow> Inl (Wrapf (''loading '' @ key) [err]) | Inr v \<Rightarrow> k v)"

definition loadModbus :: "environ \<Rightarrow> go_error + ModbusConfig" where
  "loadModbus env =
     (let host = getEnvOrDefault env ''MODBUS_HOST'' ''10.90.19.7'' in
      loading ''MODBUS_PORT'' (getEnvOrDefaultInt env ''MODBUS_PORT'' 502) (\<lambda>port.
      loading ''MODBUS_SLAVE_ID'' (getEnvOrDefaultByte env ''MODBUS_SLAVE_ID'' 1) (\<lambda>slave.
      loading ''MODBUS_CONNECT_TIMEOUT'' (getEnvOrDefaultDuration env ''MODBUS_CONNECT_TIMEOUT'' (5 * Second)) (\<lambda>conn.
      loading ''MODBUS_READ_TIMEOUT'' (getEnvOrDefaultDuration env ''MODBUS_READ_TIMEOUT'' (2 * Second)) (\<lambda>rd.
      loading ''MODBUS_WRITE_TIMEOUT'' (getEnvOrDefaultDuration env ''MODBUS_WRITE_TIMEOUT'' (2 * Second)) (\<lambda>wr.
      loading ''MODBUS_GUARD_INTERVAL'' (getEnvOrDefaultDuration env ''MODBUS_GUARD_INTERVAL'' (100 * Millisecond)) (\<lambda>guard.
      Inr \<lparr>mc_Host = host, mc_Port = port, mc_SlaveID = slave, mc_ConnectTimeout = conn, mc_ReadTimeout = rd,
           mc_WriteTimeout = wr, mc_GuardInterval = guard\<rparr>)))))))"

definition loadMQTT :: "environ \<Rightarrow> go_error + MQTTConfig" where
  "loadMQTT env =
     (let broker = getEnvOrDefault env ''MQTT_BROKER'' ''10.90.19.10:1883'';
          client = getEnvOrDefault env ''MQTT_CLIENT_ID'' ''oasis-modbus2mqtt'';
          user = getEnvOrDefault env ''MQTT_USERNAME'' [];
          pass = getEnvOrDefault env ''MQTT_PASSWORD'' [] in
      loading ''MQTT_KEEPALIVE'' (getEnvOrDefaultDuration env ''MQTT_KEEPALIVE'' (30 * Second)) (\<lambda>keep.
      loading ''MQTT_QOS'' (getEnvOrDefaultByte env ''MQTT_QOS'' 1) (\<lambda>qos.
      Inr \<lparr>mq_Broker = broker, mq_ClientID = client, mq_Username = user, mq_Password = pass,
           mq_Keepalive = keep, mq_QoS = qos\<rparr>)))"

definition loadHomeAssistant :: "environ \<Rightarrow> HAConfig" where
  "loadHomeAssistant env =
     \<lparr>ha_DiscoveryPrefix = getEnvOrDefault env ''HA_DISCOVERY_PREFIX'' ''homeassistant'',
      ha_DevicePrefix = getEnvOrDefault env ''HA_DEVICE_PREFIX'' ''oasis_syberia'',
      ha_DeviceName = getEnvOrDefault env ''HA_DEVICE_NAME'' ''Oasis Syberia'',
      ha_Manufacturer = getEnvOrDefault env ''HA_MANUFACTURER'' ''GTC'',
      ha_Model = getEnvOrDefault env ''HA_MODEL'' ''Syberia 5''\<rparr>"

definition loadPolling :: "environ \<Rightarrow> go_error + PollingConfig" where
  "loadPolling env =
     loading ''POLL_HOT_INTERVAL'' (getEnvOrDefaultDuration env ''POLL_HOT_INTERVAL'' (5 * Second)) (\<lambda>hot.
     loading ''POLL_MEDIUM_INTERVAL'' (getEnvOrDefaultDuration env ''POLL_MEDIUM_INTERVAL'' (15 * Second)) (\<lambda>medium.
     loading ''POLL_SLOW_INTERVAL'' (getEnvOrDefaultDuration env ''POLL_SLOW_INTERVAL'' (60 * Second)) (\<lambda>slow.
     loading ''AVAILABILITY_THRESHOLD'' (getEnvOrDefaultDuration env ''AVAILABILITY_THRESHOLD'' (30 * Second)) (\<lambda>avail.
     Inr \<lparr>pl_HotInterval = hot, pl_MediumInterval = medium, pl_SlowInterval = slow,
          pl_AvailabilityThreshold = avail\<rparr>))))"

definition loadReconnect :: "environ \<Rightarrow> go_error + ReconnectConfig" where
  "loadReconnect env =
     loading ''RECONNECT_MIN_DELAY'' (getEnvOrDefaultDuration env ''RECONNECT_MIN_DELAY'' (1 * Second)) (\<lambda>mn.
     loading ''RECONNECT_MAX_DELAY'' (getEnvOrDefaultDuration env ''RECONNECT_MAX_DELAY'' (60 * Second)) (\<lambda>mx.
     loading ''RECONNECT_FACTOR'' (getEnvOrDefaultFloat env ''RECONNECT_FACTOR'' (Fin 2)) (\<lambda>fac.
     loading ''RECONNECT_JITTER_PCT'' (getEnvOrDefaultFloat env ''RECONNECT_JITTER_PCT'' (round64 (1 / 5))) (\<lambda>jit.
     Inr \<lparr>rc_MinDelay = mn, rc_MaxDelay = mx, rc_Factor = fac, rc_JitterPct = jit\<rparr>))))"

text \<open>The blocks of \<open>Load\<close> in order; a block that fails returns its error at once.\<close>

definition Load :: "environ \<Rightarrow> go_error + Config" where
  "Load env =
     (case loadModbus env of Inl e \<Rightarrow> Inl e | Inr modbus \<Rightarrow>
     (case loadMQTT env of Inl e \<Rightarrow> Inl e | Inr mqtt \<Rightarrow>
     (case loadPolling env of Inl e \<Rightarrow> Inl e | Inr polling \<Rightarrow>
      loading ''HTTP_PORT'' (getEnvOrDefaultInt env ''HTTP_PORT'' 8080) (\<lambda>http.
     (case loadReconnect env of Inl e \<Rightarrow> Inl e | Inr reconnect \<Rightarrow>
       let cfg = \<lparr>cf_Modbus = modbus, cf_MQTT = mqtt, cf_HomeAssistant = loadHomeAssistant env,
                  cf_Polling = polling, cf_HTTP = \<lparr>ht_Port = http\<rparr>,
                  cf_Logger = \<lparr>lg_Level = getEnvOrDefault env ''LOG_LEVEL'' ''info''\<rparr>,
                  cf_Reconnect = reconnect\<rparr>
       in (case Validate cfg of Some err \<Rightarrow> Inl (Wrapf ''loading config'' [err]) | None \<Rightarrow> Inr cfg))))))"

lemmas load_defs = loadModbus_def loadMQTT_def loadHomeAssistant_def loadPolling_def loadReconnect_def

subsection \<open>Reading durations\<close>

lemma read_digits_ge: "read_digits x s = Some n \<Longrightarrow> x \<le> n"
  by (induction x s rule: read_digits.induct) (fastforce split: option.splits)+

lemma leadingInt_digits:
  "read_digits x ds = Some n \<Longrightarrow> n \<le> two63 \<Longrightarrow> (\<forall>c cs. t = c # cs \<longrightarrow> digit_val c = None) \<Longrightarrow>
     leadingInt x (ds @ t) = Some (n, t)"
proof (induction x ds rule: read_digits.induct)
  case (1 acc)
  then show ?case by (cases t) auto
next
  case (2 acc c cs)
  then obtain d where d: "digit_val c = Some d" "read_digits (10 * acc + d) cs = Some n"
    by (auto split: option.splits)
  have "10 * acc + d \<le> two63" using read_digits_ge [OF d(2)] 2(3) by simp
  moreover from this have "\<not> two63 div 10 < acc" by linarith
  ultimately show ?case using 2 d by simp
qed

text \<open>A term as one writes it: a number and a unit, followed by nothing or by the next number.\<close>

definition unit_word :: "string \<Rightarrow> nat \<Rightarrow> bool" where
  "unit_word u k \<longleftrightarrow> duration_unit u = Some k \<and> u \<noteq> [] \<and> (\<forall>c \<in> set u. \<not> number_char c)"

lemma unit_words: "unit_word ''ms'' 1000000" "unit_word ''s'' 1000000000" "unit_word ''m'' 60000000000"
  "unit_word ''h'' 3600000000000"
  by (simp_all add: unit_word_def duration_unit_def number_char_def digit_val_def)

lemma duration_term_word:
  assumes u: "unit_word u k" and n: "n * k \<le> two63" and k: "0 < k"
    and rest: "\<forall>c cs. rest = c # cs \<longrightarrow> number_char c"
  shows "duration_term (dec_nat n @ u @ rest) = Some (n * k, rest)"
proof -
  obtain c cs where c: "u = c # cs" "\<not> number_char c" "digit_val c = None" "c \<noteq> CHR ''.''"
    using u by (cases u) (auto simp: unit_word_def number_char_def)
  obtain d ds where d: "dec_nat n = digit_char d # ds" "d < 10" by (rule dec_nat_first)
  have "n \<le> two63" using n k by (metis One_nat_def Suc_leI le_trans mult.right_neutral mult_le_mono2)
  then have i: "leadingInt 0 (dec_nat n @ u @ rest) = Some (n, u @ rest)"
    by (intro leadingInt_digits read_digits_dec_nat) (auto simp: c)
  have w: "takeWhile (\<lambda>c. \<not> number_char c) (u @ rest) = u" "dropWhile (\<lambda>c. \<not> number_char c) (u @ rest) = rest"
    using u rest by (cases rest; auto simp: unit_word_def takeWhile_append2 dropWhile_append2)+
  have "\<not> two63 div k < n" using n k by (simp add: not_less less_eq_div_iff_mult_less_eq)
  then show ?thesis
    using i w u c by (simp add: duration_term_def d number_char_def unit_word_def)
qed

definition duration_text :: "(nat \<times> string \<times> nat) list \<Rightarrow> string" where
  "duration_text ts = concat (map (\<lambda>(n, u, k). dec_nat n @ u) ts)"

definition duration_sum :: "(nat \<times> string \<times> nat) list \<Rightarrow> nat" where
  "duration_sum ts = sum_list (map (\<lambda>(n, u, k). n * k) ts)"

lemma duration_text_first: "duration_text ts = c # cs \<Longrightarrow> number_char c"
proof (cases ts)
  case (Cons x xs)
  obtain n u k where x: "x = (n, u, k)" by (cases x)
  obtain d ds where "dec_nat n = digit_char d # ds" "d < 10" by (rule dec_nat_first)
  then show "duration_text ts = c # cs \<Longrightarrow> number_char c"
    by (auto simp: duration_text_def Cons x number_char_def)
qed (simp add: duration_text_def)

lemma duration_terms_text:
  "\<forall>(n, u, k) \<in> set ts. unit_word u k \<and> 0 < k \<Longrightarrow> d + duration_sum ts < two63 \<Longrightarrow>
     duration_terms d (duration_text ts) = Some (d + duration_sum ts)"
proof (induction ts arbitrary: d)
  case (Cons x ts)
  obtain n u k where x: "x = (n, u, k)" by (cases x)
  have b: "n * k \<le> two63" "d + n * k < two63" using Cons.prems(2) by (simp_all add: duration_sum_def x)
  have t: "duration_text (x # ts) = dec_nat n @ u @ duration_text ts" by (simp add: duration_text_def x)
  have "duration_term (dec_nat n @ u @ duration_text ts) = Some (n * k, duration_text ts)"
    using Cons.prems(1) b(1) duration_text_first by (intro duration_term_word) (auto simp: x)
  moreover have "(d + n * k) mod 2 ^ 64 = d + n * k" using b(2) by (simp add: two63_def)
  moreover have "duration_terms (d + n * k) (duration_text ts) = Some (d + n * k + duration_sum ts)"
    using Cons.prems by (intro Cons.IH) (auto simp: duration_sum_def x)
  ultimately show ?case
    using b(2) unfolding t by (subst duration_terms.simps) (simp add: duration_sum_def x)
qed (simp add: duration_text_def duration_sum_def duration_terms.simps)

lemma ParseDuration_text:
  assumes "ts \<noteq> []" and "\<forall>(n, u, k) \<in> set ts. unit_word u k \<and> 0 < k" and "duration_sum ts < two63"
  shows "ParseDuration (duration_text ts) = Inr (int (duration_sum ts))"
proof -
  obtain n u k ts' where ts: "ts = (n, u, k) # ts'" using assms(1) by (cases ts) auto
  obtain d ds where d: "dec_nat n = digit_char d # ds" "d < 10" by (rule dec_nat_first)
  have sign: "strip_sign (duration_text ts) = (False, duration_text ts)"
    using digit_char_not [OF d(2)] by (simp add: strip_sign_def duration_text_def ts d)
  obtain c cs where c: "u = c # cs" "\<not> number_char c" using assms(2) by (cases u) (auto simp: ts unit_word_def)
  have "CHR ''0'' \<noteq> c" using c(2) by (auto simp: number_char_def digit_val_def)
  moreover have "c \<in> set (duration_text ts)" by (simp add: duration_text_def ts c)
  ultimately have "duration_text ts \<noteq> ''0''" "duration_text ts \<noteq> []" by auto
  then show ?thesis
    using duration_terms_text [OF assms(2), of 0] assms(3) by (simp add: ParseDuration_def sign)
qed

lemma duration_terms_bound: "duration_terms d s = Some r \<Longrightarrow> d \<le> two63 \<Longrightarrow> r \<le> two63"
proof (induction d s rule: duration_terms.induct)
  case (1 d s)
  show ?case
  proof (cases "s = []")
    case False
    with 1(2) obtain v rest where "duration_term s = Some (v, rest)"
      "\<not> two63 < (d + v) mod 2 ^ 64" "duration_terms ((d + v) mod 2 ^ 64) rest = Some r"
      by (subst (asm) duration_terms.simps) (auto simp: Let_def split: option.splits if_splits)
    with 1(1) False show ?thesis by simp
  qed (use 1 in \<open>simp add: duration_terms.simps\<close>)
qed

lemma ParseDuration_range: "ParseDuration s = Inr d \<Longrightarrow> int64_min \<le> d \<and> d \<le> int64_max"
  using duration_terms_bound [of 0 "snd (strip_sign s)"]
  by (auto simp: ParseDuration_def Let_def case_prod_unfold int64_min_def int64_max_def two63_def
      split: option.splits if_splits)

lemma Atoi_range: "Atoi s = Inr i \<Longrightarrow> int64_min \<le> i \<and> i \<le> int64_max"
  by (auto simp: Atoi_def Let_def case_prod_unfold not_less split: option.splits if_splits)

subsection \<open>What Load guarantees\<close>

definition in_int64 :: "int \<Rightarrow> bool" where "in_int64 i \<longleftrightarrow> int64_min \<le> i \<and> i \<le> int64_max"

lemma getEnvOrDefaultDuration_range:
  "getEnvOrDefaultDuration env key def = Inr d \<Longrightarrow> in_int64 def \<Longrightarrow> in_int64 d"
  using ParseDuration_range [of "env key" d]
  by (auto simp: getEnvOrDefaultDuration_def in_int64_def Let_def split: sum.splits if_splits)

lemma getEnvOrDefaultInt_range: "getEnvOrDefaultInt env key def = Inr d \<Longrightarrow> in_int64 def \<Longrightarrow> in_int64 d"
  using Atoi_range [of "env key" d]
  by (auto simp: getEnvOrDefaultInt_def in_int64_def Let_def split: sum.splits if_splits)

lemma loading_Inr: "loading key r k = Inr v \<longleftrightarrow> (\<exists>x. r = Inr x \<and> k x = Inr v)"
  by (auto simp: loading_def split: sum.splits)

lemma case_sum_Inr: "(case r of Inl e \<Rightarrow> Inl e | Inr x \<Rightarrow> k x) = Inr v \<longleftrightarrow> (\<exists>x. r = Inr x \<and> k x = Inr v)"
  by (cases r) auto

lemma getEnvOrDefault_nonempty [simp]: "def \<noteq> [] \<Longrightarrow> getEnvOrDefault env key def \<noteq> []"
  by (simp add: getEnvOrDefault_def)

text \<open>The numbers of a configuration are values of their Go types.\<close>

definition typed_config :: "Config \<Rightarrow> bool" where
  "typed_config c \<longleftrightarrow>
     list_all in_int64 [mc_Port (cf_Modbus c), mc_ConnectTimeout (cf_Modbus c), mc_ReadTimeout (cf_Modbus c),
       mc_WriteTimeout (cf_Modbus c), mc_GuardInterval (cf_Modbus c), mq_Keepalive (cf_MQTT c),
       pl_HotInterval (cf_Polling c), pl_MediumInterval (cf_Polling c), pl_SlowInterval (cf_Polling c),
       pl_AvailabilityThreshold (cf_Polling c), ht_Port (cf_HTTP c), rc_MinDelay (cf_Reconnect c),
       rc_MaxDelay (cf_Reconnect c)]"

lemma in_int64_defaults [simp]:
  "in_int64 (5 * Second)" "in_int64 (2 * Second)" "in_int64 (100 * Millisecond)" "in_int64 (30 * Second)"
  "in_int64 (15 * Second)" "in_int64 (60 * Second)" "in_int64 Second" "in_int64 502" "in_int64 8080"
  by (simp_all add: in_int64_def int64_min_def int64_max_def Second_def Millisecond_def)

lemma loadModbus_typed:
  "loadModbus env = Inr m \<Longrightarrow> in_int64 (mc_Port m) \<and> in_int64 (mc_ConnectTimeout m) \<and> in_int64 (mc_ReadTimeout m)
     \<and> in_int64 (mc_WriteTimeout m) \<and> in_int64 (mc_GuardInterval m)"
  by (auto simp: loadModbus_def loading_Inr intro: getEnvOrDefaultInt_range getEnvOrDefaultDuration_range)

lemma loadMQTT_typed: "loadMQTT env = Inr q \<Longrightarrow> in_int64 (mq_Keepalive q)"
  by (auto simp: loadMQTT_def loading_Inr intro: getEnvOrDefaultDuration_range)

lemma loadPolling_typed:
  "loadPolling env = Inr p \<Longrightarrow> in_int64 (pl_HotInterval p) \<and> in_int64 (pl_MediumInterval p)
     \<and> in_int64 (pl_SlowInterval p) \<and> in_int64 (pl_AvailabilityThreshold p)"
  by (auto simp: loadPolling_def loading_Inr intro: getEnvOrDefaultDuration_range)

lemma loadReconnect_typed: "loadReconnect env = Inr r \<Longrightarrow> in_int64 (rc_MinDelay r) \<and> in_int64 (rc_MaxDelay r)"
  by (auto simp: loadReconnect_def loading_Inr intro: getEnvOrDefaultDuration_range)

lemma Load_parts:
  assumes "Load env = Inr c"
  shows "loadModbus env = Inr (cf_Modbus c) \<and> loadMQTT env = Inr (cf_MQTT c)
    \<and> cf_HomeAssistant c = loadHomeAssistant env \<and> loadPolling env = Inr (cf_Polling c)
    \<and> getEnvOrDefaultInt env ''HTTP_PORT'' 8080 = Inr (ht_Port (cf_HTTP c))
    \<and> loadReconnect env = Inr (cf_Reconnect c) \<and> Validate c = None"
  using assms by (auto simp: Load_def loading_Inr case_sum_Inr Let_def split: option.splits)

lemma Load_typed:
  assumes "Load env = Inr c"
  shows "typed_config c"
proof -
  note p = Load_parts [OF assms]
  have "in_int64 (ht_Port (cf_HTTP c))"
    using p getEnvOrDefaultInt_range [of env "''HTTP_PORT''" 8080] by simp
  with p show ?thesis
    using loadModbus_typed [of env] loadMQTT_typed [of env] loadPolling_typed [of env] loadReconnect_typed [of env]
    by (simp add: typed_config_def)
qed

definition default_config :: Config where
  "default_config =
     \<lparr>cf_Modbus = \<lparr>mc_Host = ''10.90.19.7'', mc_Port = 502, mc_SlaveID = 1, mc_ConnectTimeout = 5 * Second,
        mc_ReadTimeout = 2 * Second, mc_WriteTimeout = 2 * Second, mc_GuardInterval = 100 * Millisecond\<rparr>,
      cf_MQTT = \<lparr>mq_Broker = ''10.90.19.10:1883'', mq_ClientID = ''oasis-modbus2mqtt'', mq_Username = [],
        mq_Password = [], mq_Keepalive = 30 * Second, mq_QoS = 1\<rparr>,
      cf_HomeAssistant = \<lparr>ha_DiscoveryPrefix = ''homeassistant'', ha_DevicePrefix = ''oasis_syberia'',
        ha_DeviceName = ''Oasis Syberia'', ha_Manufacturer = ''GTC'', ha_Model = ''Syberia 5''\<rparr>,
      cf_Polling = \<lparr>pl_HotInterval = 5 * Second, pl_MediumInterval = 15 * Second, pl_SlowInterval = 60 * Second,
        pl_AvailabilityThreshold = 30 * Second\<rparr>,
      cf_HTTP = \<lparr>ht_Port = 8080\<rparr>, cf_Logger = \<lparr>lg_Level = ''info''\<rparr>,
      cf_Reconnect = \<lparr>rc_MinDelay = Second, rc_MaxDelay = 60 * Second, rc_Factor = Fin 2,
        rc_JitterPct = round64 (1 / 5)\<rparr>\<rparr>"

lemma round_fifth: "\<exists>r. round64 (1 / 5) = Fin r \<and> 0 \<le> r \<and> r \<le> 1"
proof -
  obtain c where c: "round64 (of_int 2 / 10) = Fin c" "\<bar>c - of_int 2 / 10\<bar> \<le> \<bar>of_int 2 / 10\<bar> / 2 ^ 53"
    using round64_tenths [of 2] by auto
  have "\<bar>of_int 2 / 10 :: rat\<bar> / 2 ^ 53 \<le> 1 / 10" by simp
  with c(2) have "\<bar>c - 1 / 5\<bar> \<le> 1 / 10" by simp
  then have "0 \<le> c \<and> c \<le> 1" unfolding abs_le_iff by linarith
  with c(1) show ?thesis by simp
qed

lemma default_valid: "Validate default_config = None"
  using round_fifth
  by (auto simp: Validate_accepts_iff default_config_def valid_config_def valid_modbus_def valid_mqtt_def
      valid_polling_def valid_reconnect_def valid_factor_def valid_jitter_def Second_def Millisecond_def)

lemma Load_defaults: "Load (\<lambda>_. []) = Inr default_config"
  using default_valid
  by (simp add: Load_def load_defs env_readers loading_def getEnvOrDefault_def Let_def default_config_def)

subsection \<open>Properties\<close>


text \<open>
  C22. A configuration that loads is well typed and valid: every number fits its Go type, every field is
  in its range, and both topic prefixes are there. With no variable set, the documented defaults load.
\<close>

theorem loaded_config_typed:
  assumes "Load env = Inr c"
  shows "typed_config c \<and> valid_config c \<and> ha_DiscoveryPrefix (cf_HomeAssistant c) \<noteq> []
    \<and> ha_DevicePrefix (cf_HomeAssistant c) \<noteq> [] \<and> Load (\<lambda>_. []) = Inr default_config"
proof -
  note p = Load_parts [OF assms]
  have "ha_DiscoveryPrefix (loadHomeAssistant env) \<noteq> [] \<and> ha_DevicePrefix (loadHomeAssistant env) \<noteq> []"
    by (simp add: loadHomeAssistant_def)
  with p Load_typed [OF assms] Load_defaults show ?thesis by (simp add: Validate_accepts_iff)
qed


theorem loaded_config_typed_witness:
  "typed_config default_config \<and> mc_GuardInterval (cf_Modbus default_config) \<le> int64_max"
  using loaded_config_typed [OF Load_defaults] by (simp add: typed_config_def in_int64_def)

end
