(* ===== verification/Poller.thy ===== *)
theory Poller
  imports PollController
begin

text \<open>
  \<^verbatim>\<open>application/service/poller.go\<close>: the three tier goroutines that poll, merge the partial
  snapshot into the latest one and notify the subscribers. The merger copies the fields a tier
  owns. \<open>doPoll\<close> is one poll; it is composed of the three parts between which the goroutines
  of other tiers can run, and \<open>poll_step\<close> is the step relation of the interleaved goroutines.
  The laws: the latest snapshot is assembled from the last successful poll of each tier, every
  snapshot handed to a subscriber was the latest one at some time, and a subscriber can be
  handed an older snapshot after a newer one.
\<close>

subsection \<open>The merger\<close>

definition MergeHot :: "Snapshot \<Rightarrow> Snapshot \<Rightarrow> Snapshot" where
  "MergeHot prev partial = prev\<lparr>
     sn_PowerOn := sn_PowerOn partial,
     sn_Switching := sn_Switching partial,
     sn_HeatCapable := sn_HeatCapable partial,
     sn_CoolCapable := sn_CoolCapable partial,
     sn_Operation := sn_Operation partial,
     sn_OperationTimeLeft := sn_OperationTimeLeft partial,
     sn_RawErrors := (sn_RawErrors prev)\<lparr>re0 := re0 (sn_RawErrors partial), re1 := re1 (sn_RawErrors partial)\<rparr>,
     sn_SupplyTemp := sn_SupplyTemp partial,
     sn_FilterPct := sn_FilterPct partial,
     sn_HeaterPWM := sn_HeaterPWM partial,
     sn_DamperOpen := sn_DamperOpen partial,
     sn_PIDDemand := sn_PIDDemand partial,
     sn_FanState1 := sn_FanState1 partial,
     sn_FanState2 := sn_FanState2 partial,
     sn_TargetTemp := sn_TargetTemp partial,
     sn_FanTarget1 := sn_FanTarget1 partial,
     sn_PolledAt := sn_PolledAt partial\<rparr>"

definition MergeMedium :: "Snapshot \<Rightarrow> Snapshot \<Rightarrow> Snapshot" where
  "MergeMedium prev partial = prev\<lparr>
     sn_RoomTemp := sn_RoomTemp partial,
     sn_RoomHumidity := sn_RoomHumidity partial,
     sn_RawErrors := (sn_RawErrors prev)\<lparr>re2 := re2 (sn_RawErrors partial), re3 := re3 (sn_RawErrors partial)\<rparr>,
     sn_CurrentMode := sn_CurrentMode partial,
     sn_PolledAt := sn_PolledAt partial\<rparr>"

definition MergeSlow :: "Snapshot \<Rightarrow> Snapshot \<Rightarrow> Snapshot" where
  "MergeSlow prev partial = prev\<lparr>
     sn_Firmware := sn_Firmware partial,
     sn_DeviceID := sn_DeviceID partial,
     sn_DeviceConfig := sn_DeviceConfig partial,
     sn_PolledAt := sn_PolledAt partial\<rparr>"

datatype Tier = HotTier | MediumTier | SlowTier

text \<open>How \<open>Start\<close> pairs a tier with its merge function and its label.\<close>

fun tier_merge :: "Tier \<Rightarrow> Snapshot \<Rightarrow> Snapshot \<Rightarrow> Snapshot" where
  "tier_merge HotTier = MergeHot"
| "tier_merge MediumTier = MergeMedium"
| "tier_merge SlowTier = MergeSlow"

fun tier_name :: "Tier \<Rightarrow> string" where
  "tier_name HotTier = ''hot''"
| "tier_name MediumTier = ''medium''"
| "tier_name SlowTier = ''slow''"

fun tier_poll :: "'s PollOps \<Rightarrow> Tier \<Rightarrow> 's \<Rightarrow> (go_error + Snapshot) \<times> 's" where
  "tier_poll P HotTier = PollHot P"
| "tier_poll P MediumTier = PollMedium P"
| "tier_poll P SlowTier = PollSlow P"

subsection \<open>The poller\<close>

record PollerConfig =
  pc_HotInterval :: duration
  pc_MediumInterval :: duration
  pc_SlowInterval :: duration

text \<open>
  The world the callbacks act on: its clock, the error of the context, its metrics. A
  subscriber is a function of the snapshot and the world.
\<close>

record 'w PollerEnv =
  pe_now :: "'w \<Rightarrow> gotime \<times> 'w"
  pe_ctxErr :: "'w \<Rightarrow> go_error option"
  pe_metrics :: "(Metrics \<Rightarrow> Metrics) \<Rightarrow> 'w \<Rightarrow> 'w"

record 'w Poller =
  pr_latest :: Snapshot
  pr_subscribers :: "(Snapshot \<Rightarrow> 'w \<Rightarrow> 'w) list"
  pr_world :: 'w

definition NewPoller :: "PollerConfig \<Rightarrow> 'w \<Rightarrow> 'w Poller option" where
  "NewPoller cfg w =
     (if pc_HotInterval cfg \<le> 0 \<or> pc_MediumInterval cfg \<le> 0 \<or> pc_SlowInterval cfg \<le> 0 then None
      else Some \<lparr>pr_latest = zero_Snapshot, pr_subscribers = [], pr_world = w\<rparr>)"

definition Subscribe :: "(Snapshot \<Rightarrow> 'w \<Rightarrow> 'w) option \<Rightarrow> 'w Poller \<Rightarrow> 'w Poller" where
  "Subscribe cb p =
     (case cb of None \<Rightarrow> p | Some f \<Rightarrow> p\<lparr>pr_subscribers := pr_subscribers p @ [f]\<rparr>)"

definition Poller_Snapshot :: "'w Poller \<Rightarrow> Snapshot" where
  "Poller_Snapshot p = pr_latest p"

text \<open>The first part of a poll: the reads, and what a failure does.\<close>

definition poll_fetch ::
  "'w PollerEnv \<Rightarrow> ('w \<Rightarrow> (go_error + Snapshot) \<times> 'w) \<Rightarrow> string \<Rightarrow> 'w Poller \<Rightarrow> Snapshot option \<times> 'w Poller" where
  "poll_fetch E fn tier p =
     (let (start, w1) = pe_now E (pr_world p); (r, w2) = fn w1 in
      case r of
        Inr partial \<Rightarrow> (Some partial, p\<lparr>pr_world := w2\<rparr>)
      | Inl err \<Rightarrow>
          if (case pe_ctxErr E w2 of None \<Rightarrow> False | Some ce \<Rightarrow> err_is err ce)
          then (None, p\<lparr>pr_world := w2\<rparr>)
          else (None, p\<lparr>pr_world := pe_metrics E (counter_inc (ModbusErrorsTotal (''poll_'' @ tier))) w2\<rparr>))"

text \<open>The second part, under the lock.\<close>

definition poll_merge ::
  "(Snapshot \<Rightarrow> Snapshot \<Rightarrow> Snapshot) \<Rightarrow> Snapshot \<Rightarrow> 'w Poller \<Rightarrow> Snapshot \<times> 'w Poller" where
  "poll_merge mergeFn partial p =
     (let merged = mergeFn (pr_latest p) partial in (merged, p\<lparr>pr_latest := merged\<rparr>))"

text \<open>The third: the subscribers in order, then the metrics.\<close>

definition poll_notify :: "'w PollerEnv \<Rightarrow> string \<Rightarrow> Snapshot \<Rightarrow> 'w Poller \<Rightarrow> 'w Poller" where
  "poll_notify E tier merged p =
     (let w1 = fold (\<lambda>cb. cb merged) (pr_subscribers p) (pr_world p);
          w2 = pe_metrics E (histogram_update (PollDurationSeconds tier)) w1;
          (t, w3) = pe_now E w2
      in p\<lparr>pr_world := pe_metrics E (SetLastSuccessfulPoll t) w3\<rparr>)"

definition doPoll ::
  "'w PollerEnv \<Rightarrow> ('w \<Rightarrow> (go_error + Snapshot) \<times> 'w) \<Rightarrow> (Snapshot \<Rightarrow> Snapshot \<Rightarrow> Snapshot) \<Rightarrow> string \<Rightarrow>
     'w Poller \<Rightarrow> 'w Poller" where
  "doPoll E fn mergeFn tier p =
     (case poll_fetch E fn tier p of
        (None, p1) \<Rightarrow> p1
      | (Some partial, p1) \<Rightarrow>
          (case poll_merge mergeFn partial p1 of (merged, p2) \<Rightarrow> poll_notify E tier merged p2))"

text \<open>A tier goroutine that sees \<open>n\<close> ticks before it is cancelled: an immediate poll, then one per tick.\<close>

definition runTier ::
  "'w PollerEnv \<Rightarrow> ('w \<Rightarrow> (go_error + Snapshot) \<times> 'w) \<Rightarrow> (Snapshot \<Rightarrow> Snapshot \<Rightarrow> Snapshot) \<Rightarrow> string \<Rightarrow>
     nat \<Rightarrow> 'w Poller \<Rightarrow> 'w Poller" where
  "runTier E fn mergeFn tier ticks p = (doPoll E fn mergeFn tier ^^ Suc ticks) p"

lemmas poller_ops [op_defs] = poll_fetch_def poll_merge_def poll_notify_def doPoll_def

subsection \<open>The goroutines interleaved\<close>

text \<open>
  Where a tier goroutine is: between polls, holding a partial snapshot to merge, or holding a
  merged one to hand to the subscribers. \<open>ps_events\<close> and \<open>ps_delivered\<close> record what was merged and
  what was handed out, in order.
\<close>

datatype TierState = TIdle | TFetched Snapshot | TMerged Snapshot

record 'w PollSystem =
  ps_poller :: "'w Poller"
  ps_tier :: "Tier \<Rightarrow> TierState"
  ps_events :: "(Tier \<times> Snapshot) list"
  ps_delivered :: "Snapshot list"

definition poll_start :: "'w Poller \<Rightarrow> 'w PollSystem" where
  "poll_start p = \<lparr>ps_poller = p, ps_tier = (\<lambda>_. TIdle), ps_events = [], ps_delivered = []\<rparr>"

inductive poll_step ::
  "'w PollerEnv \<Rightarrow> (Tier \<Rightarrow> 'w \<Rightarrow> (go_error + Snapshot) \<times> 'w) \<Rightarrow> 'w PollSystem \<Rightarrow> 'w PollSystem \<Rightarrow> bool"
  for E F where
  fetched: "ps_tier s t = TIdle \<Longrightarrow> poll_fetch E (F t) (tier_name t) (ps_poller s) = (Some x, p) \<Longrightarrow>
     poll_step E F s (s\<lparr>ps_poller := p, ps_tier := (ps_tier s)(t := TFetched x)\<rparr>)"
| failed: "ps_tier s t = TIdle \<Longrightarrow> poll_fetch E (F t) (tier_name t) (ps_poller s) = (None, p) \<Longrightarrow>
     poll_step E F s (s\<lparr>ps_poller := p\<rparr>)"
| merged: "ps_tier s t = TFetched x \<Longrightarrow> poll_merge (tier_merge t) x (ps_poller s) = (m, p) \<Longrightarrow>
     poll_step E F s (s\<lparr>ps_poller := p, ps_tier := (ps_tier s)(t := TMerged m),
                       ps_events := ps_events s @ [(t, x)]\<rparr>)"
| notified: "ps_tier s t = TMerged m \<Longrightarrow> poll_notify E (tier_name t) m (ps_poller s) = p \<Longrightarrow>
     poll_step E F s (s\<lparr>ps_poller := p, ps_tier := (ps_tier s)(t := TIdle),
                       ps_delivered := ps_delivered s @ [m]\<rparr>)"

inductive poll_reach ::
  "'w PollerEnv \<Rightarrow> (Tier \<Rightarrow> 'w \<Rightarrow> (go_error + Snapshot) \<times> 'w) \<Rightarrow> 'w PollSystem \<Rightarrow> 'w PollSystem \<Rightarrow> bool"
  for E F where
  refl: "poll_reach E F s s"
| step: "poll_reach E F s t \<Longrightarrow> poll_step E F t u \<Longrightarrow> poll_reach E F s u"

subsection \<open>What the latest snapshot is\<close>

definition merge_all :: "(Tier \<times> Snapshot) list \<Rightarrow> Snapshot" where
  "merge_all evs = fold (\<lambda>(t, x) s. tier_merge t s x) evs zero_Snapshot"

lemma merge_all_snoc [simp]: "merge_all (evs @ [(t, x)]) = tier_merge t (merge_all evs) x"
  by (simp add: merge_all_def)

text \<open>The last partial snapshot of a tier, the zero one when it has not polled yet.\<close>

definition last_partial :: "Tier \<Rightarrow> (Tier \<times> Snapshot) list \<Rightarrow> Snapshot" where
  "last_partial t evs =
     (let own = filter (\<lambda>e. fst e = t) evs in if own = [] then zero_Snapshot else snd (last own))"

definition assemble :: "Snapshot \<Rightarrow> Snapshot \<Rightarrow> Snapshot \<Rightarrow> gotime \<Rightarrow> Snapshot" where
  "assemble hot medium slow t =
     \<lparr>sn_Firmware = sn_Firmware slow, sn_DeviceID = sn_DeviceID slow, sn_DeviceConfig = sn_DeviceConfig slow,
      sn_PowerOn = sn_PowerOn hot, sn_Switching = sn_Switching hot, sn_HeatCapable = sn_HeatCapable hot,
      sn_CoolCapable = sn_CoolCapable hot, sn_CurrentMode = sn_CurrentMode medium,
      sn_Operation = sn_Operation hot, sn_OperationTimeLeft = sn_OperationTimeLeft hot,
      sn_TargetTemp = sn_TargetTemp hot, sn_RoomTemp = sn_RoomTemp medium, sn_SupplyTemp = sn_SupplyTemp hot,
      sn_FanTarget1 = sn_FanTarget1 hot, sn_FanState1 = sn_FanState1 hot, sn_FanState2 = sn_FanState2 hot,
      sn_HeaterPWM = sn_HeaterPWM hot, sn_DamperOpen = sn_DamperOpen hot, sn_PIDDemand = sn_PIDDemand hot,
      sn_FilterPct = sn_FilterPct hot, sn_Errors = [],
      sn_RawErrors = \<lparr>re0 = re0 (sn_RawErrors hot), re1 = re1 (sn_RawErrors hot),
                      re2 = re2 (sn_RawErrors medium), re3 = re3 (sn_RawErrors medium)\<rparr>,
      sn_RoomHumidity = sn_RoomHumidity medium, sn_PolledAt = t\<rparr>"

definition last_polled :: "(Tier \<times> Snapshot) list \<Rightarrow> gotime" where
  "last_polled evs = (if evs = [] then zero_time else sn_PolledAt (snd (last evs)))"

lemma last_partial_snoc [simp]:
  "last_partial t (evs @ [(u, x)]) = (if u = t then x else last_partial t evs)"
  by (simp add: last_partial_def Let_def)

lemma last_polled_snoc [simp]: "last_polled (evs @ [(u, x)]) = sn_PolledAt x"
  by (simp add: last_polled_def)

lemma merge_all_assemble:
  "merge_all evs = assemble (last_partial HotTier evs) (last_partial MediumTier evs)
     (last_partial SlowTier evs) (last_polled evs)"
proof (induction evs rule: rev_induct)
  case Nil
  then show ?case
    by (simp add: merge_all_def last_partial_def last_polled_def assemble_def zero_Snapshot_def)
next
  case (snoc e evs)
  obtain t x where e: "e = (t, x)" by (cases e)
  show ?case
    by (cases t) (simp_all add: e snoc assemble_def MergeHot_def MergeMedium_def MergeSlow_def)
qed

subsection \<open>The invariant of the interleaved goroutines\<close>

definition past :: "(Tier \<times> Snapshot) list \<Rightarrow> Snapshot set" where
  "past evs = {merge_all (take k evs) |k. k \<le> length evs}"

lemma past_snoc: "past evs \<subseteq> past (evs @ [e])"
proof
  fix m
  assume "m \<in> past evs"
  then obtain k where "m = merge_all (take k evs)" "k \<le> length evs" by (auto simp: past_def)
  then have "m = merge_all (take k (evs @ [e]))" "k \<le> length (evs @ [e])" by simp_all
  then show "m \<in> past (evs @ [e])" unfolding past_def by blast
qed

lemma past_self [simp]: "merge_all evs \<in> past evs"
proof -
  have "merge_all evs = merge_all (take (length evs) evs)" by simp
  then show ?thesis unfolding past_def by blast
qed

definition poll_inv :: "'w PollSystem \<Rightarrow> bool" where
  "poll_inv s \<longleftrightarrow> pr_latest (ps_poller s) = merge_all (ps_events s)
     \<and> (\<forall>t m. ps_tier s t = TMerged m \<longrightarrow> m \<in> past (ps_events s))
     \<and> set (ps_delivered s) \<subseteq> past (ps_events s)"

lemma poll_parts_frame [simp]:
  "poll_fetch E fn tier p = (r, p') \<Longrightarrow> pr_latest p' = pr_latest p \<and> pr_subscribers p' = pr_subscribers p"
  "pr_latest (poll_notify E tier m p) = pr_latest p"
  "pr_subscribers (poll_notify E tier m p) = pr_subscribers p"
  by (auto simp: poll_fetch_def poll_notify_def Let_def split: prod.splits sum.splits if_splits)

inductive_cases poll_stepE: "poll_step E F s t"

lemma poll_step_inv: "poll_step E F s s' \<Longrightarrow> poll_inv s \<Longrightarrow> poll_inv s'"
proof (induction rule: poll_step.induct)
  case (fetched s t x p)
  then show ?case using poll_parts_frame(1) [OF fetched(2)] by (simp add: poll_inv_def)
next
  case (failed s t p)
  then show ?case using poll_parts_frame(1) [OF failed(2)] by (simp add: poll_inv_def)
next
  case (merged s t x m p)
  then have "m = merge_all (ps_events s @ [(t, x)])" "pr_latest p = m"
    by (auto simp: poll_inv_def poll_merge_def Let_def)
  moreover have "set (ps_delivered s) \<subseteq> past (ps_events s @ [(t, x)])"
    using merged(3) past_snoc unfolding poll_inv_def by blast
  moreover have "m' \<in> past (ps_events s @ [(t, x)])" if "ps_tier s u = TMerged m'" for u m'
    using that merged(3) past_snoc unfolding poll_inv_def by blast
  ultimately show ?case by (auto simp: poll_inv_def simp del: merge_all_snoc)
next
  case (notified s t m p)
  then show ?case by (auto simp: poll_inv_def)
qed

lemma poll_reach_inv: "poll_reach E F s t \<Longrightarrow> poll_inv s \<Longrightarrow> poll_inv t"
  by (induction rule: poll_reach.induct) (auto intro: poll_step_inv)

lemma poll_inv_start: "pr_latest p = zero_Snapshot \<Longrightarrow> poll_inv (poll_start p)"
  by (simp add: poll_inv_def poll_start_def merge_all_def)

subsection \<open>Polling a controller that stands still\<close>

fun tier_view :: "RegFile \<Rightarrow> Tier \<Rightarrow> gotime \<Rightarrow> Snapshot" where
  "tier_view d HotTier = hot_view d"
| "tier_view d MediumTier = medium_view d"
| "tier_view d SlowTier = slow_view d"

text \<open>The callbacks of the poller leave the registers alone.\<close>

definition calm ::
  "'w PollerEnv \<Rightarrow> ('w \<Rightarrow> RegFile) \<Rightarrow> (Snapshot \<Rightarrow> 'w \<Rightarrow> 'w) list \<Rightarrow> bool" where
  "calm E dev subs \<longleftrightarrow> (\<forall>w. dev (snd (pe_now E w)) = dev w) \<and> (\<forall>f w. dev (pe_metrics E f w) = dev w)
     \<and> (\<forall>cb \<in> set subs. \<forall>m w. dev (cb m w) = dev w)"

lemma calm_fold: "\<forall>cb \<in> set subs. \<forall>m w. dev (cb m w) = dev w \<Longrightarrow> dev (fold (\<lambda>cb. cb m) subs w) = dev w"
  by (induction subs arbitrary: w) auto

definition view_inv :: "('w \<Rightarrow> RegFile) \<Rightarrow> RegFile \<Rightarrow> (Snapshot \<Rightarrow> 'w \<Rightarrow> 'w) list \<Rightarrow> 'w PollSystem \<Rightarrow> bool" where
  "view_inv dev d subs s \<longleftrightarrow> dev (pr_world (ps_poller s)) = d \<and> pr_subscribers (ps_poller s) = subs
     \<and> (\<forall>t x. ps_tier s t = TFetched x \<longrightarrow> x = tier_view d t (sn_PolledAt x))
     \<and> (\<forall>(t, x) \<in> set (ps_events s). x = tier_view d t (sn_PolledAt x))"

lemma fetch_view:
  assumes L: "device_laws ME dev" and C: "calm E (disp_dev dev) subs"
    and f: "poll_fetch E (tier_poll (poll_ops ME) t) tier p = (r, p')"
  shows "disp_dev dev (pr_world p') = disp_dev dev (pr_world p)
    \<and> (\<forall>x. r = Some x \<longrightarrow> x = tier_view (disp_dev dev (pr_world p)) t (sn_PolledAt x))"
proof -
  obtain s w1 where n: "pe_now E (pr_world p) = (s, w1)" by fastforce
  obtain q w2 where q: "tier_poll (poll_ops ME) t w1 = (q, w2)" by fastforce
  have w1: "disp_dev dev w1 = disp_dev dev (pr_world p)" using C n by (metis calm_def snd_conv)
  have m: "disp_dev dev (pe_metrics E g w) = disp_dev dev w" for g w using C by (simp add: calm_def)
  have w2: "disp_dev dev w2 = disp_dev dev w1"
    using q by (cases t) (auto dest: disp_source.PollHot_dev [OF L] disp_source.PollMedium_dev [OF L]
        disp_source.PollSlow_dev [OF L])
  have v: "x = tier_view (disp_dev dev w1) t (sn_PolledAt x)" if "q = Inr x" for x
    using q that by (cases t) (auto dest: disp_source.PollHot_view [OF L] disp_source.PollMedium_view [OF L]
        disp_source.PollSlow_view [OF L])
  show ?thesis
    using f n q w1 w2 m v by (cases q) (auto simp: poll_fetch_def split: if_splits)
qed

lemma view_step:
  assumes "device_laws ME dev" and "calm E (disp_dev dev) subs"
  shows "poll_step E (tier_poll (poll_ops ME)) s s' \<Longrightarrow> view_inv (disp_dev dev) d subs s
    \<Longrightarrow> view_inv (disp_dev dev) d subs s'"
proof (induction rule: poll_step.induct)
  case (fetched s t x p)
  then show ?case
    using fetch_view [OF assms fetched(2)] poll_parts_frame(1) [OF fetched(2)]
    by (auto simp: view_inv_def split: if_splits)
next
  case (failed s t p)
  then show ?case
    using fetch_view [OF assms failed(2)] poll_parts_frame(1) [OF failed(2)]
    by (auto simp: view_inv_def)
next
  case (merged s t x m p)
  then have "x = tier_view d t (sn_PolledAt x)" "pr_world p = pr_world (ps_poller s)"
      "pr_subscribers p = pr_subscribers (ps_poller s)"
    by (auto simp: view_inv_def poll_merge_def Let_def)
  then show ?case using merged(3) by (auto simp: view_inv_def)
next
  case (notified s t m p)
  have "pr_subscribers (ps_poller s) = subs" using notified(3) by (simp add: view_inv_def)
  then have "disp_dev dev (pr_world p) = disp_dev dev (pr_world (ps_poller s))"
    using notified(2) assms(2)
    by (auto simp: poll_notify_def calm_def Let_def case_prod_unfold calm_fold)
  then show ?case using notified by (auto simp: view_inv_def)
qed

lemma view_reach:
  assumes "device_laws ME dev" and "calm E (disp_dev dev) subs"
  shows "poll_reach E (tier_poll (poll_ops ME)) s s' \<Longrightarrow> view_inv (disp_dev dev) d subs s
    \<Longrightarrow> view_inv (disp_dev dev) d subs s'"
  by (induction rule: poll_reach.induct) (auto intro: view_step [OF assms])

lemma last_partial_mem: "t \<in> fst ` set evs \<Longrightarrow> (t, last_partial t evs) \<in> set evs"
proof (induction evs rule: rev_induct)
  case (snoc e evs)
  obtain u x where e: "e = (u, x)" by (cases e)
  show ?case
  proof (cases "u = t")
    case False
    then have "t \<in> fst ` set evs" using snoc.prems by (simp add: e)
    then show ?thesis using snoc.IH False by (simp add: e)
  qed (simp add: e)
qed simp

lemma assemble_views:
  assumes "\<forall>(t, x) \<in> set evs. x = tier_view d t (sn_PolledAt x)" and "fst ` set evs = UNIV"
  shows "merge_all evs = assemble (hot_view d t) (medium_view d t) (slow_view d t) (last_polled evs)"
proof -
  have v: "last_partial u evs = tier_view d u (sn_PolledAt (last_partial u evs))" for u
    using assms(1) last_partial_mem [of u evs] assms(2) by blast
  obtain a b c where "last_partial HotTier evs = hot_view d a" "last_partial MediumTier evs = medium_view d b"
      "last_partial SlowTier evs = slow_view d c"
    using v [of HotTier] v [of MediumTier] v [of SlowTier] by auto
  then show ?thesis
    by (simp add: merge_all_assemble assemble_def hot_view_def medium_view_def slow_view_def)
qed

subsection \<open>Properties\<close>


text \<open>
  While the registers of the controller stand still, the latest snapshot shows them as soon
  as each tier has polled once: whatever failed in between, every field has the value decoded
  from its register.
\<close>

lemma snapshot_reflects_controller:
  assumes "device_laws ME dev" and "calm E (disp_dev dev) subs"
    and "NewPoller cfg w = Some p0" and "p = p0\<lparr>pr_subscribers := subs\<rparr>"
    and "poll_reach E (tier_poll (poll_ops ME)) (poll_start p) s" and "fst ` set (ps_events s) = UNIV"
  shows "\<exists>t. Poller_Snapshot (ps_poller s) = assemble (hot_view (disp_dev dev w) t)
    (medium_view (disp_dev dev w) t) (slow_view (disp_dev dev w) t) t"
proof -
  have p0: "p0 = \<lparr>pr_latest = zero_Snapshot, pr_subscribers = [], pr_world = w\<rparr>"
    using assms(3) by (auto simp: NewPoller_def split: if_splits)
  have "view_inv (disp_dev dev) (disp_dev dev w) subs (poll_start p)"
    by (simp add: view_inv_def poll_start_def assms(4) p0)
  from view_reach [OF assms(1,2,5) this]
  have v: "\<forall>(t, x) \<in> set (ps_events s). x = tier_view (disp_dev dev w) t (sn_PolledAt x)"
    by (simp add: view_inv_def)
  have "pr_latest (ps_poller s) = merge_all (ps_events s)"
    using poll_reach_inv [OF assms(5)] poll_inv_start [of p] by (simp add: poll_inv_def assms(4) p0)
  then show ?thesis
    using assemble_views [OF v assms(6), of "last_polled (ps_events s)"] unfolding Poller_Snapshot_def by auto
qed


subsection \<open>Witnesses\<close>

text \<open>The poller over the dispatcher of the simulated controller.\<close>

definition sim_poller_env :: "World Client Dispatcher PollerEnv" where
  "sim_poller_env =
     \<lparr>pe_now = po_Now (poll_ops sim_env), pe_ctxErr = (\<lambda>_. None),
      pe_metrics = (\<lambda>f d. d\<lparr>ds_client := upd_metrics f (ds_client d)\<rparr>)\<rparr>"

lemma sim_calm: "calm sim_poller_env (disp_dev wd_dev) []"
  by (simp add: calm_def sim_poller_env_def poll_ops_def disp_dev_def sim_defs)

definition default_polling :: PollerConfig where
  "default_polling = \<lparr>pc_HotInterval = 5 * Second, pc_MediumInterval = 15 * Second,
     pc_SlowInterval = 60 * Second\<rparr>"

definition sim_poller :: "World Client Dispatcher Poller" where
  "sim_poller = \<lparr>pr_latest = zero_Snapshot, pr_subscribers = [], pr_world = sim_disp sample_regs []\<rparr>"

lemma sim_NewPoller: "NewPoller default_polling (sim_disp sample_regs []) = Some sim_poller"
  by (simp add: NewPoller_def default_polling_def sim_poller_def Second_def)

text \<open>While the controller answers, a tier at rest can complete a whole poll.\<close>

lemma sim_fetch:
  assumes "disp_up sim_env wd_dev (\<lambda>w. wd_script w = []) (pr_world p)"
  obtains x p' where "poll_fetch sim_poller_env (tier_poll (poll_ops sim_env) t) n p = (Some x, p')"
    "disp_up sim_env wd_dev (\<lambda>w. wd_script w = []) (pr_world p')" "pr_latest p' = pr_latest p"
proof -
  obtain u w1 where n: "pe_now sim_poller_env (pr_world p) = (u, w1)" by fastforce
  have w1: "disp_up sim_env wd_dev (\<lambda>w. wd_script w = []) w1"
    using n disp_live.up_now [OF assms] by (simp add: sim_poller_env_def)
  obtain x w2 where x: "tier_poll (poll_ops sim_env) t w1 = (Inr x, w2)"
      "disp_up sim_env wd_dev (\<lambda>w. wd_script w = []) w2"
    using disp_live.PollHot_up [OF w1] disp_live.PollMedium_up [OF w1] disp_live.PollSlow_up [OF w1]
    by (cases t) auto
  then show ?thesis
    by (intro that [of x "p\<lparr>pr_world := w2\<rparr>"]) (simp_all add: poll_fetch_def n)
qed

lemma notify_up:
  assumes "disp_up sim_env wd_dev (\<lambda>w. wd_script w = []) (pr_world p)" and "pr_subscribers p = []"
  shows "disp_up sim_env wd_dev (\<lambda>w. wd_script w = []) (pr_world (poll_notify sim_poller_env n m p))"
  using assms
  by (simp add: poll_notify_def Let_def sim_poller_env_def poll_ops_def disp_up_def usable_def sim_defs)

lemma sim_cycle:
  assumes "disp_up sim_env wd_dev (\<lambda>w. wd_script w = []) (pr_world (ps_poller s))"
    and "pr_subscribers (ps_poller s) = []" and "ps_tier s = (\<lambda>_. TIdle)"
  shows "\<exists>s' x. poll_reach sim_poller_env (tier_poll (poll_ops sim_env)) s s' \<and> ps_tier s' = (\<lambda>_. TIdle)
    \<and> disp_up sim_env wd_dev (\<lambda>w. wd_script w = []) (pr_world (ps_poller s'))
    \<and> pr_subscribers (ps_poller s') = [] \<and> ps_events s' = ps_events s @ [(t, x)]"
proof -
  let ?E = sim_poller_env and ?F = "tier_poll (poll_ops sim_env)"
  obtain x p where f: "poll_fetch ?E (?F t) (tier_name t) (ps_poller s) = (Some x, p)"
    "disp_up sim_env wd_dev (\<lambda>w. wd_script w = []) (pr_world p)"
    by (rule sim_fetch [OF assms(1)])
  let ?s1 = "s\<lparr>ps_poller := p, ps_tier := (ps_tier s)(t := TFetched x)\<rparr>"
  obtain m q where m: "poll_merge (tier_merge t) x (ps_poller ?s1) = (m, q)" by fastforce
  let ?s2 = "?s1\<lparr>ps_poller := q, ps_tier := (ps_tier ?s1)(t := TMerged m), ps_events := ps_events ?s1 @ [(t, x)]\<rparr>"
  let ?s3 = "?s2\<lparr>ps_poller := poll_notify ?E (tier_name t) m (ps_poller ?s2),
      ps_tier := (ps_tier ?s2)(t := TIdle), ps_delivered := ps_delivered ?s2 @ [m]\<rparr>"
  have "poll_step ?E ?F s ?s1" by (rule poll_step.fetched) (simp_all add: assms(3) f(1))
  moreover have "poll_step ?E ?F ?s1 ?s2" by (rule poll_step.merged) (use m in simp_all)
  moreover have "poll_step ?E ?F ?s2 ?s3" by (rule poll_step.notified) simp_all
  ultimately have "poll_reach ?E ?F s ?s3" by (meson poll_reach.refl poll_reach.step)
  moreover have "pr_world q = pr_world p" "pr_subscribers q = []"
    using m poll_parts_frame(1) [OF f(1)] assms(2) by (auto simp: poll_merge_def Let_def)
  ultimately show ?thesis
    using notify_up [of q "tier_name t" m] f(2) assms(3) by (intro exI [of _ ?s3] exI [of _ x]) auto
qed

lemma poll_reach_trans: "poll_reach E F t u \<Longrightarrow> poll_reach E F s t \<Longrightarrow> poll_reach E F s u"
  by (induction rule: poll_reach.induct) (auto intro: poll_reach.step)

lemma sim_three_tiers:
  "\<exists>s. poll_reach sim_poller_env (tier_poll (poll_ops sim_env)) (poll_start sim_poller) s
     \<and> fst ` set (ps_events s) = UNIV"
proof -
  let ?s0 = "poll_start sim_poller"
  obtain s1 x1 where 1: "poll_reach sim_poller_env (tier_poll (poll_ops sim_env)) ?s0 s1" "ps_tier s1 = (\<lambda>_. TIdle)"
    "disp_up sim_env wd_dev (\<lambda>w. wd_script w = []) (pr_world (ps_poller s1))"
    "pr_subscribers (ps_poller s1) = []" "ps_events s1 = ps_events ?s0 @ [(HotTier, x1)]"
    using sim_cycle [of ?s0 HotTier] sim_disp_up [of sample_regs]
    by (auto simp: poll_start_def sim_poller_def)
  obtain s2 x2 where 2: "poll_reach sim_poller_env (tier_poll (poll_ops sim_env)) s1 s2" "ps_tier s2 = (\<lambda>_. TIdle)"
    "disp_up sim_env wd_dev (\<lambda>w. wd_script w = []) (pr_world (ps_poller s2))"
    "pr_subscribers (ps_poller s2) = []" "ps_events s2 = ps_events s1 @ [(MediumTier, x2)]"
    using sim_cycle [OF 1(3,4,2), of MediumTier] by blast
  obtain s3 x3 where 3: "poll_reach sim_poller_env (tier_poll (poll_ops sim_env)) s2 s3"
    "ps_events s3 = ps_events s2 @ [(SlowTier, x3)]"
    using sim_cycle [OF 2(3,4,2), of SlowTier] by blast
  have "fst ` set (ps_events s3) = UNIV"
  proof -
    have "t \<in> {HotTier, MediumTier, SlowTier}" for t by (cases t) auto
    then show ?thesis using 1(5) 2(5) 3(2) by auto
  qed
  then show ?thesis using poll_reach_trans [OF 3(1) poll_reach_trans [OF 2(1) 1(1)]] by blast
qed


lemma snapshot_reflects_controller_example:
  "\<exists>s t. poll_reach sim_poller_env (tier_poll (poll_ops sim_env)) (poll_start sim_poller) s
     \<and> Poller_Snapshot (ps_poller s) = assemble (hot_view sample_regs t) (medium_view sample_regs t)
          (slow_view sample_regs t) t"
proof -
  have p: "sim_poller = sim_poller\<lparr>pr_subscribers := []\<rparr>" by (simp add: sim_poller_def)
  obtain s where s: "poll_reach sim_poller_env (tier_poll (poll_ops sim_env)) (poll_start sim_poller) s"
    "fst ` set (ps_events s) = UNIV" using sim_three_tiers by blast
  show ?thesis
    using snapshot_reflects_controller [OF sim_device_laws sim_calm sim_NewPoller p s] s(1) by auto
qed


end
