(* ===== verification/HttpServer.thy ===== *)
theory HttpServer
  imports Config GoError GoStr
begin

text \<open>
  The HTTP surface apart from the probes: the routes of \<^verbatim>\<open>interface/http/router.go\<close>, the server of
  \<^verbatim>\<open>interface/http/server.go\<close> around the library's, and the constructor of the probes.
\<close>

subsection \<open>Routes (router.go)\<close>

datatype Endpoint = LiveEndpoint | ReadyEndpoint | MetricsEndpoint

definition routes :: "((string \<times> string) \<times> Endpoint) list" where
  "routes = [((''GET'', ''/health/live''), LiveEndpoint), ((''GET'', ''/health/ready''), ReadyEndpoint),
     ((''GET'', ''/metrics''), MetricsEndpoint)]"

text \<open>The framework runs the handler registered for method and path, and answers 404 when there is none.\<close>

definition dispatches :: "(((string \<times> string) \<times> Endpoint) list \<Rightarrow> string \<times> string \<Rightarrow> Endpoint option) \<Rightarrow> bool" where
  "dispatches dispatch \<longleftrightarrow> (\<forall>rs k. distinct (map fst rs) \<longrightarrow> dispatch rs k = map_of rs k)"

subsection \<open>The constructor of the probes (health.go)\<close>

text \<open>\<open>None\<close> is the panic of a constructor, here and below.\<close>

definition NewHealth :: "duration \<Rightarrow> duration option" where
  "NewHealth threshold = (if threshold \<le> 0 then None else Some threshold)"

subsection \<open>The server (server.go)\<close>

definition NewServer :: "string \<Rightarrow> string option" where
  "NewServer addr = (if addr = [] then None else Some addr)"

definition ErrServerClosed :: go_error where
  "ErrServerClosed = ErrText ''http: Server closed''"

text \<open>\<open>err\<close>: what \<^verbatim>\<open>ListenAndServe\<close> and \<^verbatim>\<open>Shutdown\<close> of the library return.\<close>

definition Server_Start :: "go_error option \<Rightarrow> go_error option" where
  "Server_Start err =
     (case err of
        None \<Rightarrow> None
      | Some e \<Rightarrow> if err_is e ErrServerClosed then None else Some (Wrapf ''http server'' [e]))"

definition Server_Shutdown :: "go_error option \<Rightarrow> go_error option" where
  "Server_Shutdown err = (case err of None \<Rightarrow> None | Some e \<Rightarrow> Some (Wrapf ''http server shutdown'' [e]))"

subsection \<open>Laws\<close>

lemma routes_distinct: "distinct (map fst routes)"
  by (simp add: routes_def)

lemma dispatched:
  assumes "dispatches dispatch"
  shows "dispatch routes k = map_of routes k"
  using assms routes_distinct by (cases k) (simp add: dispatches_def)

lemma routed:
  assumes "dispatches dispatch"
  shows "dispatch routes (''GET'', ''/health/ready'') = Some ReadyEndpoint"
    "dispatch routes (''GET'', ''/health/live'') = Some LiveEndpoint"
    "path \<notin> {''/health/live'', ''/health/ready'', ''/metrics''} \<Longrightarrow> dispatch routes (''GET'', path) = None"
  unfolding dispatched [OF assms] by (simp_all add: routes_def)

lemma server_addr [simp]: "NewServer (HTTPConfig_Addr h) = Some (HTTPConfig_Addr h)"
  by (simp add: NewServer_def HTTPConfig_Addr_def)

end
