(* ===== verification/App.thy ===== *)
theory App
  imports CommandSubscriber PublishDiscovery Availability ConfigLoad LinkSpec Poller PublishState HttpServer
begin

text \<open>
  \<^verbatim>\<open>internal/app/app.go\<close>: the wiring of the components, the start-up order of \<open>Run\<close> and the shutdown.
  The state of the application is nested the way the components hold each other: the availability
  manager watches the poller, the poller's goroutines and subscribers act on the world, and the world
  holds the dispatcher with the Modbus client, the MQTT client and the discovery publisher.
\<close>

subsection \<open>The state\<close>

text \<open>The handlers the application registers with the MQTT client.\<close>

datatype AppHandler = CommandTopic CommandHandler | HAStatusTopic

text \<open>
  What surrounds the application: the Modbus library, the MQTT library, the error of the run context,
  the random numbers of the backoff and the conversion of floats that are out of range.
\<close>

record ('m, 'q) AppEnv =
  ae_modbus :: "'m ModbusEnv"
  ae_mqtt :: "(AppHandler, 'q) MqttEnv"
  ae_ctxErr :: "'m \<Rightarrow> go_error option"
  ae_rng :: "'m \<Rightarrow> f64 \<times> 'm"
  ae_oor :: "f64 \<Rightarrow> int"

record ('m, 'q) AppWorld =
  aw_disp :: "'m Client Dispatcher"
  aw_mqtt :: "(AppHandler, 'q) MqttClient"
  aw_discovery :: PublishDiscovery

record ('m, 'q) App =
  ap_cfg :: Config
  ap_topics :: TopicBuilder
  ap_haStatus :: "(AppHandler, ('m, 'q) AppWorld PollSystem) HAStatusListener"
  ap_backoff :: Backoff
  ap_phase :: Phase
  ap_httpAddr :: string
  ap_avail :: "('m, 'q) AppWorld PollSystem AvailabilityManager"

abbreviation app_polls :: "('m, 'q) App \<Rightarrow> ('m, 'q) AppWorld PollSystem" where
  "app_polls a \<equiv> am_world (ap_avail a)"

abbreviation app_world :: "('m, 'q) App \<Rightarrow> ('m, 'q) AppWorld" where
  "app_world a \<equiv> pr_world (ps_poller (app_polls a))"

definition on_world :: "('w \<Rightarrow> 'w) \<Rightarrow> 'w PollSystem \<Rightarrow> 'w PollSystem" where
  "on_world f s = s\<lparr>ps_poller := (ps_poller s)\<lparr>pr_world := f (pr_world (ps_poller s))\<rparr>\<rparr>"

definition on_polls ::
  "(('m, 'q) AppWorld PollSystem \<Rightarrow> ('m, 'q) AppWorld PollSystem) \<Rightarrow> ('m, 'q) App \<Rightarrow> ('m, 'q) App" where
  "on_polls f a = a\<lparr>ap_avail := (ap_avail a)\<lparr>am_world := f (am_world (ap_avail a))\<rparr>\<rparr>"

definition on_mqtt ::
  "((AppHandler, 'q) MqttClient \<Rightarrow> (AppHandler, 'q) MqttClient) \<Rightarrow> ('m, 'q) AppWorld \<Rightarrow> ('m, 'q) AppWorld" where
  "on_mqtt f w = w\<lparr>aw_mqtt := f (aw_mqtt w)\<rparr>"

definition on_disp ::
  "('m Client Dispatcher \<Rightarrow> 'm Client Dispatcher) \<Rightarrow> ('m, 'q) AppWorld \<Rightarrow> ('m, 'q) AppWorld" where
  "on_disp f w = w\<lparr>aw_disp := f (aw_disp w)\<rparr>"

lemmas on_defs = on_world_def on_polls_def on_mqtt_def on_disp_def

subsection \<open>The poller's view of the world\<close>

definition app_poller_env :: "('m, 'q) AppEnv \<Rightarrow> ('m, 'q) AppWorld PollerEnv" where
  "app_poller_env E =
     \<lparr>pe_now = (\<lambda>w. case po_Now (poll_ops (ae_modbus E)) (aw_disp w) of (t, d) \<Rightarrow> (t, w\<lparr>aw_disp := d\<rparr>)),
      pe_ctxErr = (\<lambda>w. ae_ctxErr E (cl_world (ds_client (aw_disp w)))),
      pe_metrics = (\<lambda>f. on_disp (\<lambda>d. d\<lparr>ds_client := upd_metrics f (ds_client d)\<rparr>))\<rparr>"

definition app_poll :: "('m, 'q) AppEnv \<Rightarrow> Tier \<Rightarrow> ('m, 'q) AppWorld \<Rightarrow> (go_error + Snapshot) \<times> ('m, 'q) AppWorld" where
  "app_poll E t w = (case tier_poll (poll_ops (ae_modbus E)) t (aw_disp w) of (r, d) \<Rightarrow> (r, w\<lparr>aw_disp := d\<rparr>))"

definition app_clock :: "('m, 'q) AppEnv \<Rightarrow> ('m, 'q) AppWorld PollSystem AvailabilityEnv" where
  "app_clock E =
     \<lparr>av_snapshot = (\<lambda>s. Poller_Snapshot (ps_poller s)),
      av_now = (\<lambda>s. case pe_now (app_poller_env E) (pr_world (ps_poller s)) of (t, w) \<Rightarrow> (t, on_world (\<lambda>_. w) s))\<rparr>"

subsection \<open>The callbacks\<close>

text \<open>The errors of the callbacks are logged and dropped.\<close>

definition state_callback :: "('m, 'q) AppEnv \<Rightarrow> TopicBuilder \<Rightarrow> Snapshot \<Rightarrow> ('m, 'q) AppWorld \<Rightarrow> ('m, 'q) AppWorld" where
  "state_callback E topics snap = on_mqtt (\<lambda>q. snd (PublishState_Apply (mq_Publish (ae_mqtt E)) topics snap q))"

definition availability_callback ::
  "('m, 'q) AppEnv \<Rightarrow> TopicBuilder \<Rightarrow> string \<Rightarrow> ('m, 'q) AppWorld PollSystem \<Rightarrow> ('m, 'q) AppWorld PollSystem" where
  "availability_callback E topics payload =
     on_world (on_mqtt (\<lambda>q. snd (mq_Publish (ae_mqtt E) (Topic_Availability topics) payload True q)))"

definition publish_discovery :: "('m, 'q) AppEnv \<Rightarrow> string \<Rightarrow> ('m, 'q) AppWorld \<Rightarrow> ('m, 'q) AppWorld" where
  "publish_discovery E firmware w =
     (case PublishDiscovery_Publish (mq_Publish (ae_mqtt E)) firmware (aw_discovery w) (aw_mqtt w) of
        (err, p, q) \<Rightarrow> w\<lparr>aw_discovery := p, aw_mqtt := q\<rparr>)"

definition ha_online ::
  "('m, 'q) AppEnv \<Rightarrow> TopicBuilder \<Rightarrow> ('m, 'q) AppWorld PollSystem \<Rightarrow> ('m, 'q) AppWorld PollSystem" where
  "ha_online E topics s =
     (let snap = Poller_Snapshot (ps_poller s);
          firmware = (if IsZero (sn_PolledAt snap) then ''unknown'' else Firmware_String (sn_Firmware snap));
          s1 = on_world (publish_discovery E firmware) s
      in if IsZero (sn_PolledAt snap) then s1 else on_world (state_callback E topics snap) s1)"

subsection \<open>New\<close>

definition commandFailureThreshold :: int where "commandFailureThreshold = 3"
definition readinessThreshold :: duration where "readinessThreshold = 120 * Second"
definition mqttDisconnectQuiesce :: duration where "mqttDisconnectQuiesce = 500 * Millisecond"

definition haStatusTopic :: "Config \<Rightarrow> string" where
  "haStatusTopic cfg = ha_DiscoveryPrefix (cf_HomeAssistant cfg) @ ''/status''"

definition poller_config :: "Config \<Rightarrow> PollerConfig" where
  "poller_config cfg =
     \<lparr>pc_HotInterval = pl_HotInterval (cf_Polling cfg), pc_MediumInterval = pl_MediumInterval (cf_Polling cfg),
      pc_SlowInterval = pl_SlowInterval (cf_Polling cfg)\<rparr>"

text \<open>
  \<open>None\<close> is the panic of a constructor. The poller is set up with its three tier goroutines idle; nothing
  polls before \<open>Run\<close> has returned, since the running application (\<open>app_step\<close> in AppLaws) starts there.
\<close>

definition New :: "('m, 'q) AppEnv \<Rightarrow> Config \<Rightarrow> 'm \<Rightarrow> 'q \<Rightarrow> ('m, 'q) App option" where
  "New E cfg mw qw =
     (case NewTopicBuilder (cf_HomeAssistant cfg) of None \<Rightarrow> None | Some topics \<Rightarrow>
      let modbusClient = NewClient (cf_Modbus cfg) metrics0 mw;
          mqttClient = NewMqttClient (cf_MQTT cfg) topics metrics0 qw;
          builder = NewBuilder topics (cf_HomeAssistant cfg);
          backoff = NewBackoffWithRand (cf_Reconnect cfg)
      in case NewCommandDispatcher modbusClient commandFailureThreshold of None \<Rightarrow> None | Some dispatcher \<Rightarrow>
         case NewPoller (poller_config cfg) \<lparr>aw_disp = dispatcher, aw_mqtt = mqttClient,
                aw_discovery = NewPublishDiscovery builder\<rparr> of None \<Rightarrow> None | Some poller \<Rightarrow>
         case NewHAStatusListener (haStatusTopic cfg) (Some (ha_online E topics)) of None \<Rightarrow> None | Some haStatus \<Rightarrow>
         case NewHealth readinessThreshold of None \<Rightarrow> None | Some threshold \<Rightarrow>
         case NewServer (HTTPConfig_Addr (cf_HTTP cfg)) of None \<Rightarrow> None | Some addr \<Rightarrow>
         let polls = poll_start (Subscribe (Some (state_callback E topics)) poller);
             availMgr = SetCallbacks (Some (availability_callback E topics AvailabilityOnline))
                          (Some (availability_callback E topics AvailabilityOffline))
                          (NewAvailabilityManager (pl_AvailabilityThreshold (cf_Polling cfg)) polls)
         in Some \<lparr>ap_cfg = cfg, ap_topics = topics, ap_haStatus = haStatus, ap_backoff = backoff,
                  ap_phase = PhWaiting, ap_httpAddr = addr, ap_avail = availMgr\<rparr>)"

subsection \<open>What the MQTT library calls back\<close>

text \<open>
  The library runs the callbacks of the client and the registered handlers on goroutines of its own;
  \<open>order\<close> is the order in which a map iteration visits the subscriptions.
\<close>

datatype MqttEvent = LinkUp "string list" | LinkDown | Arrived string string

fun app_message :: "('m, 'q) AppEnv \<Rightarrow> AppHandler \<Rightarrow> string \<Rightarrow> ('m, 'q) App \<Rightarrow> ('m, 'q) App" where
  "app_message E (CommandTopic h) payload a =
     on_polls (on_world (on_disp (handle_message (ae_modbus E) DefaultPowerOffPause
       (h, payload, Poller_Snapshot (ps_poller (app_polls a)))))) a"
| "app_message E HAStatusTopic payload a = on_polls (ha_handle (ap_haStatus a) payload) a"

fun mqtt_event :: "('m, 'q) AppEnv \<Rightarrow> MqttEvent \<Rightarrow> ('m, 'q) App \<Rightarrow> ('m, 'q) App" where
  "mqtt_event E (LinkUp order) a = on_polls (on_world (on_mqtt (onConnect (ae_mqtt E) order))) a"
| "mqtt_event E LinkDown a = on_polls (on_world (on_mqtt onConnectionLost)) a"
| "mqtt_event E (Arrived topic payload) a =
     (case mqc_subs (aw_mqtt (app_world a)) topic of None \<Rightarrow> a | Some h \<Rightarrow> app_message E h payload a)"

definition mqtt_events :: "('m, 'q) AppEnv \<Rightarrow> MqttEvent list \<Rightarrow> ('m, 'q) App \<Rightarrow> ('m, 'q) App" where
  "mqtt_events E evs a = fold (mqtt_event E) evs a"

subsection \<open>Run\<close>

text \<open>
  A step of the start-up that works on the MQTT client and may fail; the error is wrapped with the name
  of the step.
\<close>

definition boot_step ::
  "string \<Rightarrow> ((AppHandler, 'q) MqttClient \<Rightarrow> go_error option \<times> (AppHandler, 'q) MqttClient) \<Rightarrow>
     ('m, 'q) App \<Rightarrow> go_error + ('m, 'q) App" where
  "boot_step what f a =
     (case f (aw_mqtt (app_world a)) of
        (Some err, q) \<Rightarrow> Inl (Wrapf what [err])
      | (None, q) \<Rightarrow> Inr (on_polls (on_world (on_mqtt (\<lambda>_. q))) a))"

text \<open>
  The start-up after the Modbus connection is there. \<open>evs k\<close> are the library's calls between the steps:
  \<open>Connect\<close> returns when the broker has acknowledged, while \<open>onConnect\<close> may still be on its way.
\<close>

definition boot_mqtt :: "('m, 'q) AppEnv \<Rightarrow> (nat \<Rightarrow> MqttEvent list) \<Rightarrow> ('m, 'q) App \<Rightarrow> go_error + ('m, 'q) App" where
  "boot_mqtt E evs a =
     (case boot_step ''mqtt initial connect'' (mq_Connect (ae_mqtt E)) a of Inl err \<Rightarrow> Inl err | Inr a1 \<Rightarrow>
      let a2 = on_polls (on_world (publish_discovery E ''unknown'')) (mqtt_events E (evs 0) a1) in
      case boot_step ''command subscriber start''
             (CommandSubscriber_Start (\<lambda>t h. mq_Subscribe (ae_mqtt E) t (Some (CommandTopic h))) (ap_topics a2))
             (mqtt_events E (evs 1) a2) of Inl err \<Rightarrow> Inl err | Inr a3 \<Rightarrow>
      case boot_step ''ha status listener start''
             (HAStatusListener_Start (\<lambda>t h. mq_Subscribe (ae_mqtt E) t (Some h)) HAStatusTopic (ap_haStatus a3))
             (mqtt_events E (evs 2) a3) of Inl err \<Rightarrow> Inl err | Inr a4 \<Rightarrow> Inr (mqtt_events E (evs 3) a4))"

text \<open>
  \<open>Run\<close> up to its select: \<open>None\<close> when the first connect never ends, \<open>Inl\<close> the error it returns, \<open>Inr\<close>
  the application whose goroutines are launched.
\<close>

definition Run :: "('m, 'q) AppEnv \<Rightarrow> (nat \<Rightarrow> MqttEvent list) \<Rightarrow> ('m, 'q) App \<Rightarrow> (go_error + ('m, 'q) App) option" where
  "Run E evs a =
     (case supervisor_Start (ae_modbus E) (ae_oor E) (ae_rng E) (ds_client (aw_disp (app_world a)), ap_backoff a) of
        None \<Rightarrow> None
      | Some (Inl err) \<Rightarrow> Some (Inl (Wrapf ''modbus initial connect'' [err]))
      | Some (Inr (c, b)) \<Rightarrow>
          Some (boot_mqtt E evs (on_polls (on_world (on_disp (\<lambda>d. d\<lparr>ds_client := c\<rparr>))) (a\<lparr>ap_backoff := b\<rparr>))))"

text \<open>The end of \<open>shutdown\<close>, once the waits for the goroutines are over.\<close>

definition shutdown :: "('m, 'q) AppEnv \<Rightarrow> ('m, 'q) App \<Rightarrow> ('m, 'q) App" where
  "shutdown E a =
     on_polls (on_world (\<lambda>w. on_disp (\<lambda>d. d\<lparr>ds_client := snd (ForceClose (ae_modbus E) (ds_client d))\<rparr>)
       (on_mqtt (mq_Disconnect (ae_mqtt E) mqttDisconnectQuiesce) w))) a"

text \<open>
  What ends the select of \<open>Run\<close>: the context is cancelled, or \<^verbatim>\<open>ListenAndServe\<close> returns. The shutdown
  follows either way.
\<close>

datatype Ended = Cancelled | Served "go_error option"

fun Run_end :: "('m, 'q) AppEnv \<Rightarrow> Ended \<Rightarrow> ('m, 'q) App \<Rightarrow> go_error option \<times> ('m, 'q) App" where
  "Run_end E Cancelled b = (None, shutdown E b)"
| "Run_end E (Served err) b = (Server_Start err, shutdown E b)"

lemma Run_end_shutdown [simp]: "snd (Run_end E ended b) = shutdown E b"
  by (cases ended) simp_all

subsection \<open>The process (cmd/server/main.go)\<close>

text \<open>
  \<open>main\<close> up to the select of \<open>Run\<close>: \<open>Inl\<close> the exit status (1 for an error it reports, 2 for a panic),
  \<open>Inr\<close> the running application; then the exit status once \<open>Run\<close> has returned.
\<close>

definition main :: "('m, 'q) AppEnv \<Rightarrow> environ \<Rightarrow> (nat \<Rightarrow> MqttEvent list) \<Rightarrow> 'm \<Rightarrow> 'q \<Rightarrow> (int + ('m, 'q) App) option" where
  "main E env evs mw qw =
     (case Load env of
        Inl err \<Rightarrow> Some (Inl 1)
      | Inr cfg \<Rightarrow>
          (case New E cfg mw qw of
             None \<Rightarrow> Some (Inl 2)
           | Some a \<Rightarrow>
               (case Run E evs a of
                  None \<Rightarrow> None
                | Some (Inl err) \<Rightarrow> Some (Inl 1)
                | Some (Inr b) \<Rightarrow> Some (Inr b))))"

definition main_end :: "('m, 'q) AppEnv \<Rightarrow> Ended \<Rightarrow> ('m, 'q) App \<Rightarrow> int" where
  "main_end E ended b = (case Run_end E ended b of (None, z) \<Rightarrow> 0 | (Some err, z) \<Rightarrow> 1)"

end
