(* ===== verification/Wiring.thy ===== *)
theory Wiring
  imports App "HOL-Library.Monad_Syntax"
begin

text \<open>
  The constructors with their pointers. \<^verbatim>\<open>New\<close> in \<^verbatim>\<open>internal/app/app.go\<close> builds a graph of objects that
  share each other: the dispatcher and the supervisor hold the same Modbus client, the polls and the
  commands the same dispatcher, the publishers and the subscriber the same MQTT client. The other theories
  nest the components instead, as if each were held once. Here the graph is built as the code builds it,
  with every nil check, and \<open>model_of\<close> reads the nested application off it; that the two constructions agree
  is the property at the end.
\<close>

subsection \<open>Pointers and the store\<close>

datatype 'a ref = Nil_ref | Ref nat

fun deref :: "'a list \<Rightarrow> 'a ref \<Rightarrow> 'a option" where
  "deref xs Nil_ref = None"
| "deref xs (Ref i) = (if i < length xs then Some (xs ! i) else None)"

text \<open>An interface value or a pointer given to a constructor may be nil; a nil clock is the real one.\<close>

datatype Clock = RealClock

definition clock_or :: "Clock option \<Rightarrow> Clock" where
  "clock_or c = (case c of None \<Rightarrow> RealClock | Some c \<Rightarrow> c)"

definition logger_or :: "'l \<Rightarrow> 'l option \<Rightarrow> 'l" where
  "logger_or dflt l = (case l of None \<Rightarrow> dflt | Some l \<Rightarrow> l)"

datatype Merger = defaultMerger

definition merger_or :: "Merger option \<Rightarrow> Merger" where
  "merger_or m = (case m of None \<Rightarrow> defaultMerger | Some m \<Rightarrow> m)"

subsection \<open>The structs\<close>

record 'l ModbusObj =
  mbo_cfg :: ModbusConfig
  mbo_logger :: "'l option"

record 'l MqttObj =
  mqo_cfg :: MQTTConfig
  mqo_topics :: "TopicBuilder ref"
  mqo_logger :: 'l

record 'l BuilderObj =
  blo_topics :: "TopicBuilder ref"
  blo_haCfg :: HAConfig
  blo_logger :: 'l

record 'l SupervisorObj =
  svo_conn :: "'l ModbusObj ref"
  svo_cfg :: ReconnectConfig
  svo_logger :: 'l
  svo_backoff :: Backoff
  svo_trigger :: bool

record 'l DispatcherObj =
  dso_client :: "'l ModbusObj ref"
  dso_notifier :: "'l SupervisorObj ref"
  dso_threshold :: int
  dso_logger :: 'l
  dso_consecutiveErrs :: int

record 'l PollControllerObj =
  pco_dispatcher :: "'l DispatcherObj ref"
  pco_clock :: Clock
  pco_logger :: 'l

record 'l PublishStateObj =
  pso_publisher :: "'l MqttObj ref"
  pso_topics :: "TopicBuilder ref"
  pso_logger :: 'l

text \<open>
  Locks, and the fields that a running component changes and \<^verbatim>\<open>New\<close> leaves at their zero values, are those of
  the component's own theory and not repeated. These are the closures that \<^verbatim>\<open>New\<close> hands out, by
  what they capture.
\<close>

datatype 'l SnapshotCallback = PublishSnapshot "'l PublishStateObj ref"

record 'l PollerObj =
  plo_ctrl :: "'l PollControllerObj ref"
  plo_merger :: Merger
  plo_cfg :: PollerConfig
  plo_clock :: Clock
  plo_logger :: 'l
  plo_subscribers :: "'l SnapshotCallback list"

datatype 'l TransitionCallback = PublishAvailability "'l MqttObj ref" "TopicBuilder ref" string

record 'l AvailabilityObj =
  avo_src :: "'l PollerObj ref"
  avo_threshold :: duration
  avo_checkInterval :: duration
  avo_clock :: Clock
  avo_logger :: 'l
  avo_onOnline :: "'l TransitionCallback option"
  avo_onOffline :: "'l TransitionCallback option"
  avo_isOffline :: bool

record 'l ApplyCommandObj =
  aco_dispatcher :: "'l DispatcherObj ref"
  aco_snapshots :: "'l PollerObj ref"
  aco_powerOffPause :: duration
  aco_logger :: 'l

record 'l PublishDiscoveryObj =
  pdo_builder :: "'l BuilderObj ref"
  pdo_publisher :: "'l MqttObj ref"
  pdo_logger :: 'l
  pdo_lastFirmware :: string

record 'l CommandSubscriberObj =
  cso_sub :: "'l MqttObj ref"
  cso_applier :: "'l ApplyCommandObj ref"
  cso_topics :: "TopicBuilder ref"
  cso_logger :: 'l

datatype 'l OnlineCallback = Republish "'l PollerObj ref" "'l PublishDiscoveryObj ref" "'l PublishStateObj ref"

record 'l HAStatusObj =
  hso_sub :: "'l MqttObj ref"
  hso_topic :: string
  hso_onOnline :: "'l OnlineCallback option"
  hso_logger :: 'l

record 'l HealthObj =
  hlo_mqtt :: "'l MqttObj ref"
  hlo_snapshots :: "'l PollerObj ref"
  hlo_readinessThreshold :: duration
  hlo_clock :: Clock
  hlo_logger :: 'l

datatype MetricsObj = MetricsObj

record 'l RouterObj =
  rto_health :: "'l HealthObj ref"
  rto_metrics :: "MetricsObj ref"
  rto_logger :: 'l

record 'l ServerObj =
  sro_addr :: string
  sro_router :: "'l RouterObj ref"
  sro_logger :: 'l
  sro_readHeaderTimeout :: duration
  sro_readTimeout :: duration
  sro_writeTimeout :: duration
  sro_idleTimeout :: duration

record 'l Store =
  st_topics :: "TopicBuilder list"
  st_modbus :: "'l ModbusObj list"
  st_mqtt :: "'l MqttObj list"
  st_builder :: "'l BuilderObj list"
  st_supervisor :: "'l SupervisorObj list"
  st_dispatcher :: "'l DispatcherObj list"
  st_pollCtrl :: "'l PollControllerObj list"
  st_poller :: "'l PollerObj list"
  st_avail :: "'l AvailabilityObj list"
  st_apply :: "'l ApplyCommandObj list"
  st_pubDiscovery :: "'l PublishDiscoveryObj list"
  st_pubState :: "'l PublishStateObj list"
  st_cmdSub :: "'l CommandSubscriberObj list"
  st_haStatus :: "'l HAStatusObj list"
  st_health :: "'l HealthObj list"
  st_metrics :: "MetricsObj list"
  st_router :: "'l RouterObj list"
  st_server :: "'l ServerObj list"

definition empty_store :: "'l Store" where
  "empty_store = \<lparr>st_topics = [], st_modbus = [], st_mqtt = [], st_builder = [], st_supervisor = [], st_dispatcher = [],
     st_pollCtrl = [], st_poller = [], st_avail = [], st_apply = [], st_pubDiscovery = [], st_pubState = [], st_cmdSub = [],
     st_haStatus = [], st_health = [], st_metrics = [], st_router = [], st_server = []\<rparr>"

subsection \<open>The constructors\<close>

text \<open>
  Each appends the object to the store and returns the pointer to it; \<open>None\<close> is the panic. \<open>dflt\<close> is
  \<^verbatim>\<open>slog.Default()\<close>.
\<close>

definition NewTopicBuilder_ref :: "HAConfig \<Rightarrow> 'l Store \<Rightarrow> (TopicBuilder ref \<times> 'l Store) option" where
  "NewTopicBuilder_ref cfg st =
     do { b \<leftarrow> NewTopicBuilder cfg; Some (Ref (length (st_topics st)), st\<lparr>st_topics := st_topics st @ [b]\<rparr>) }"

definition NewModbusClient_ref :: "ModbusConfig \<Rightarrow> 'l option \<Rightarrow> 'l Store \<Rightarrow> ('l ModbusObj ref \<times> 'l Store) option" where
  "NewModbusClient_ref cfg logger st =
     Some (Ref (length (st_modbus st)), st\<lparr>st_modbus := st_modbus st @ [\<lparr>mbo_cfg = cfg, mbo_logger = logger\<rparr>]\<rparr>)"

definition NewMqttClient_ref ::
  "'l \<Rightarrow> MQTTConfig \<Rightarrow> TopicBuilder ref \<Rightarrow> 'l option \<Rightarrow> 'l Store \<Rightarrow> ('l MqttObj ref \<times> 'l Store) option" where
  "NewMqttClient_ref dflt cfg topics logger st =
     (if topics = Nil_ref then None
      else Some (Ref (length (st_mqtt st)),
        st\<lparr>st_mqtt := st_mqtt st @ [\<lparr>mqo_cfg = cfg, mqo_topics = topics, mqo_logger = logger_or dflt logger\<rparr>]\<rparr>))"

definition NewBuilder_ref ::
  "'l \<Rightarrow> TopicBuilder ref \<Rightarrow> HAConfig \<Rightarrow> 'l option \<Rightarrow> 'l Store \<Rightarrow> ('l BuilderObj ref \<times> 'l Store) option" where
  "NewBuilder_ref dflt topics haCfg logger st =
     (if topics = Nil_ref then None
      else Some (Ref (length (st_builder st)),
        st\<lparr>st_builder := st_builder st @ [\<lparr>blo_topics = topics, blo_haCfg = haCfg, blo_logger = logger_or dflt logger\<rparr>]\<rparr>))"

definition NewConnectionSupervisor_ref ::
  "'l \<Rightarrow> 'l ModbusObj ref \<Rightarrow> ReconnectConfig \<Rightarrow> 'l option \<Rightarrow> 'l Store \<Rightarrow> ('l SupervisorObj ref \<times> 'l Store) option" where
  "NewConnectionSupervisor_ref dflt conn cfg logger st =
     Some (Ref (length (st_supervisor st)),
       st\<lparr>st_supervisor := st_supervisor st @ [\<lparr>svo_conn = conn, svo_cfg = cfg, svo_logger = logger_or dflt logger,
            svo_backoff = NewBackoffWithRand cfg, svo_trigger = False\<rparr>]\<rparr>)"

definition NewCommandDispatcher_ref ::
  "'l \<Rightarrow> 'l ModbusObj ref \<Rightarrow> 'l SupervisorObj ref \<Rightarrow> int \<Rightarrow> 'l option \<Rightarrow> 'l Store \<Rightarrow> ('l DispatcherObj ref \<times> 'l Store) option" where
  "NewCommandDispatcher_ref dflt client notifier threshold logger st =
     (if client = Nil_ref then None
      else if notifier = Nil_ref then None
      else if threshold \<le> 0 then None
      else Some (Ref (length (st_dispatcher st)),
        st\<lparr>st_dispatcher := st_dispatcher st @ [\<lparr>dso_client = client, dso_notifier = notifier, dso_threshold = threshold,
             dso_logger = logger_or dflt logger, dso_consecutiveErrs = 0\<rparr>]\<rparr>))"

definition NewPollController_ref ::
  "'l \<Rightarrow> 'l DispatcherObj ref \<Rightarrow> Clock option \<Rightarrow> 'l option \<Rightarrow> 'l Store \<Rightarrow> ('l PollControllerObj ref \<times> 'l Store) option" where
  "NewPollController_ref dflt d clock logger st =
     (if d = Nil_ref then None
      else Some (Ref (length (st_pollCtrl st)),
        st\<lparr>st_pollCtrl := st_pollCtrl st @ [\<lparr>pco_dispatcher = d, pco_clock = clock_or clock,
             pco_logger = logger_or dflt logger\<rparr>]\<rparr>))"

definition NewPoller_ref ::
  "'l \<Rightarrow> 'l PollControllerObj ref \<Rightarrow> Merger option \<Rightarrow> PollerConfig \<Rightarrow> Clock option \<Rightarrow> 'l option \<Rightarrow> 'l Store \<Rightarrow>
     ('l PollerObj ref \<times> 'l Store) option" where
  "NewPoller_ref dflt ctrl merger cfg clock logger st =
     (if ctrl = Nil_ref then None
      else if pc_HotInterval cfg \<le> 0 \<or> pc_MediumInterval cfg \<le> 0 \<or> pc_SlowInterval cfg \<le> 0 then None
      else Some (Ref (length (st_poller st)),
        st\<lparr>st_poller := st_poller st @ [\<lparr>plo_ctrl = ctrl, plo_merger = merger_or merger, plo_cfg = cfg, plo_clock = clock_or clock,
             plo_logger = logger_or dflt logger, plo_subscribers = []\<rparr>]\<rparr>))"

definition NewAvailabilityManager_ref ::
  "'l \<Rightarrow> 'l PollerObj ref \<Rightarrow> duration \<Rightarrow> Clock option \<Rightarrow> 'l option \<Rightarrow> 'l Store \<Rightarrow> ('l AvailabilityObj ref \<times> 'l Store) option" where
  "NewAvailabilityManager_ref dflt src threshold clock logger st =
     (if src = Nil_ref then None
      else Some (Ref (length (st_avail st)),
        st\<lparr>st_avail := st_avail st @ [\<lparr>avo_src = src, avo_threshold = threshold, avo_checkInterval = 2 * Second,
             avo_clock = clock_or clock, avo_logger = logger_or dflt logger, avo_onOnline = None, avo_onOffline = None,
             avo_isOffline = True\<rparr>]\<rparr>))"

definition NewApplyCommand_ref ::
  "'l \<Rightarrow> 'l DispatcherObj ref \<Rightarrow> 'l PollerObj ref \<Rightarrow> 'l option \<Rightarrow> 'l Store \<Rightarrow> ('l ApplyCommandObj ref \<times> 'l Store) option" where
  "NewApplyCommand_ref dflt d snaps logger st =
     (if d = Nil_ref then None
      else if snaps = Nil_ref then None
      else Some (Ref (length (st_apply st)),
        st\<lparr>st_apply := st_apply st @ [\<lparr>aco_dispatcher = d, aco_snapshots = snaps, aco_powerOffPause = DefaultPowerOffPause,
             aco_logger = logger_or dflt logger\<rparr>]\<rparr>))"

definition WithPowerOffPause :: "duration \<Rightarrow> 'l ApplyCommandObj \<Rightarrow> 'l ApplyCommandObj" where
  "WithPowerOffPause d a = a\<lparr>aco_powerOffPause := d\<rparr>"

definition NewPublishDiscovery_ref ::
  "'l \<Rightarrow> 'l BuilderObj ref \<Rightarrow> 'l MqttObj ref \<Rightarrow> 'l option \<Rightarrow> 'l Store \<Rightarrow> ('l PublishDiscoveryObj ref \<times> 'l Store) option" where
  "NewPublishDiscovery_ref dflt b p logger st =
     (if b = Nil_ref then None
      else if p = Nil_ref then None
      else Some (Ref (length (st_pubDiscovery st)),
        st\<lparr>st_pubDiscovery := st_pubDiscovery st @ [\<lparr>pdo_builder = b, pdo_publisher = p, pdo_logger = logger_or dflt logger,
             pdo_lastFirmware = []\<rparr>]\<rparr>))"

definition NewPublishState_ref ::
  "'l \<Rightarrow> 'l MqttObj ref \<Rightarrow> TopicBuilder ref \<Rightarrow> 'l option \<Rightarrow> 'l Store \<Rightarrow> ('l PublishStateObj ref \<times> 'l Store) option" where
  "NewPublishState_ref dflt pub topics logger st =
     (if pub = Nil_ref then None
      else if topics = Nil_ref then None
      else Some (Ref (length (st_pubState st)),
        st\<lparr>st_pubState := st_pubState st @ [\<lparr>pso_publisher = pub, pso_topics = topics, pso_logger = logger_or dflt logger\<rparr>]\<rparr>))"

definition NewCommandSubscriber_ref ::
  "'l \<Rightarrow> 'l MqttObj ref \<Rightarrow> 'l ApplyCommandObj ref \<Rightarrow> TopicBuilder ref \<Rightarrow> 'l option \<Rightarrow> 'l Store \<Rightarrow>
     ('l CommandSubscriberObj ref \<times> 'l Store) option" where
  "NewCommandSubscriber_ref dflt sub applier topics logger st =
     (if sub = Nil_ref then None
      else if applier = Nil_ref then None
      else if topics = Nil_ref then None
      else Some (Ref (length (st_cmdSub st)),
        st\<lparr>st_cmdSub := st_cmdSub st @ [\<lparr>cso_sub = sub, cso_applier = applier, cso_topics = topics,
             cso_logger = logger_or dflt logger\<rparr>]\<rparr>))"

definition NewHAStatusListener_ref ::
  "'l \<Rightarrow> 'l MqttObj ref \<Rightarrow> string \<Rightarrow> 'l OnlineCallback option \<Rightarrow> 'l option \<Rightarrow> 'l Store \<Rightarrow> ('l HAStatusObj ref \<times> 'l Store) option" where
  "NewHAStatusListener_ref dflt sub topic onOnline logger st =
     (if sub = Nil_ref then None
      else if topic = [] then None
      else Some (Ref (length (st_haStatus st)),
        st\<lparr>st_haStatus := st_haStatus st @ [\<lparr>hso_sub = sub, hso_topic = topic, hso_onOnline = onOnline,
             hso_logger = logger_or dflt logger\<rparr>]\<rparr>))"

definition NewHealth_ref ::
  "'l \<Rightarrow> 'l MqttObj ref \<Rightarrow> 'l PollerObj ref \<Rightarrow> duration \<Rightarrow> Clock option \<Rightarrow> 'l option \<Rightarrow> 'l Store \<Rightarrow>
     ('l HealthObj ref \<times> 'l Store) option" where
  "NewHealth_ref dflt mqtt snapshots threshold clock logger st =
     (if mqtt = Nil_ref then None
      else if snapshots = Nil_ref then None
      else if threshold \<le> 0 then None
      else Some (Ref (length (st_health st)),
        st\<lparr>st_health := st_health st @ [\<lparr>hlo_mqtt = mqtt, hlo_snapshots = snapshots, hlo_readinessThreshold = threshold,
             hlo_clock = clock_or clock, hlo_logger = logger_or dflt logger\<rparr>]\<rparr>))"

definition NewMetrics_ref :: "'l Store \<Rightarrow> (MetricsObj ref \<times> 'l Store) option" where
  "NewMetrics_ref st = Some (Ref (length (st_metrics st)), st\<lparr>st_metrics := st_metrics st @ [MetricsObj]\<rparr>)"

definition NewRouter_ref ::
  "'l \<Rightarrow> 'l HealthObj ref \<Rightarrow> MetricsObj ref \<Rightarrow> 'l option \<Rightarrow> 'l Store \<Rightarrow> ('l RouterObj ref \<times> 'l Store) option" where
  "NewRouter_ref dflt health metricsHandler logger st =
     (if health = Nil_ref then None
      else if metricsHandler = Nil_ref then None
      else Some (Ref (length (st_router st)),
        st\<lparr>st_router := st_router st @ [\<lparr>rto_health = health, rto_metrics = metricsHandler,
             rto_logger = logger_or dflt logger\<rparr>]\<rparr>))"

definition NewServer_ref ::
  "'l \<Rightarrow> string \<Rightarrow> 'l RouterObj ref \<Rightarrow> 'l option \<Rightarrow> 'l Store \<Rightarrow> ('l ServerObj ref \<times> 'l Store) option" where
  "NewServer_ref dflt addr router logger st =
     (if addr = [] then None
      else if router = Nil_ref then None
      else Some (Ref (length (st_server st)),
        st\<lparr>st_server := st_server st @ [\<lparr>sro_addr = addr, sro_router = router, sro_logger = logger_or dflt logger,
             sro_readHeaderTimeout = 5 * Second, sro_readTimeout = 10 * Second, sro_writeTimeout = 30 * Second,
             sro_idleTimeout = 60 * Second\<rparr>]\<rparr>))"

text \<open>The two methods that \<^verbatim>\<open>New\<close> calls on what it has built.\<close>

definition Subscribe_ref :: "'l PollerObj ref \<Rightarrow> 'l SnapshotCallback option \<Rightarrow> 'l Store \<Rightarrow> 'l Store option" where
  "Subscribe_ref p cb st =
     (case cb of None \<Rightarrow> Some st
      | Some f \<Rightarrow> (case p of Nil_ref \<Rightarrow> None
          | Ref i \<Rightarrow> Some (st\<lparr>st_poller := (st_poller st)[i := (st_poller st ! i)
              \<lparr>plo_subscribers := plo_subscribers (st_poller st ! i) @ [f]\<rparr>]\<rparr>)))"

fun SetCallbacks_ref ::
  "'l AvailabilityObj ref \<Rightarrow> 'l TransitionCallback option \<Rightarrow> 'l TransitionCallback option \<Rightarrow> 'l Store \<Rightarrow> 'l Store option" where
  "SetCallbacks_ref Nil_ref onOnline onOffline st = None"
| "SetCallbacks_ref (Ref i) onOnline onOffline st =
     Some (st\<lparr>st_avail := (st_avail st)[i := (st_avail st ! i)\<lparr>avo_onOnline := onOnline, avo_onOffline := onOffline\<rparr>]\<rparr>)"

subsection \<open>New\<close>

record 'l AppObj =
  apo_cfg :: Config
  apo_logger :: 'l
  apo_modbusClient :: "'l ModbusObj ref"
  apo_mqttClient :: "'l MqttObj ref"
  apo_topics :: "TopicBuilder ref"
  apo_builder :: "'l BuilderObj ref"
  apo_dispatcher :: "'l DispatcherObj ref"
  apo_supervisor :: "'l SupervisorObj ref"
  apo_poller :: "'l PollerObj ref"
  apo_availMgr :: "'l AvailabilityObj ref"
  apo_haStatus :: "'l HAStatusObj ref"
  apo_pollCtrl :: "'l PollControllerObj ref"
  apo_applyCmd :: "'l ApplyCommandObj ref"
  apo_pubDiscovery :: "'l PublishDiscoveryObj ref"
  apo_pubState :: "'l PublishStateObj ref"
  apo_cmdSub :: "'l CommandSubscriberObj ref"
  apo_httpServer :: "'l ServerObj ref"

text \<open>\<open>None\<close> is a panic, \<open>Inl\<close> the error for a nil configuration.\<close>

definition New_ref :: "'l \<Rightarrow> Config option \<Rightarrow> 'l option \<Rightarrow> (go_error + 'l AppObj \<times> 'l Store) option" where
  "New_ref dflt c l =
     (case c of
        None \<Rightarrow> Some (Inl (ErrText ''new app: cfg must not be nil''))
      | Some cfg \<Rightarrow>
          let lg = logger_or dflt l; logger = Some lg; clock = Some RealClock in do {
          (topics, st) \<leftarrow> NewTopicBuilder_ref (cf_HomeAssistant cfg) empty_store;
          (modbusClient, st) \<leftarrow> NewModbusClient_ref (cf_Modbus cfg) logger st;
          (mqttClient, st) \<leftarrow> NewMqttClient_ref dflt (cf_MQTT cfg) topics logger st;
          (builder, st) \<leftarrow> NewBuilder_ref dflt topics (cf_HomeAssistant cfg) logger st;
          (supervisor, st) \<leftarrow> NewConnectionSupervisor_ref dflt modbusClient (cf_Reconnect cfg) logger st;
          (dispatcher, st) \<leftarrow> NewCommandDispatcher_ref dflt modbusClient supervisor commandFailureThreshold logger st;
          (pollCtrl, st) \<leftarrow> NewPollController_ref dflt dispatcher clock logger st;
          (poller, st) \<leftarrow> NewPoller_ref dflt pollCtrl None (poller_config cfg) clock logger st;
          (availMgr, st) \<leftarrow> NewAvailabilityManager_ref dflt poller (pl_AvailabilityThreshold (cf_Polling cfg)) clock logger st;
          (applyCmd, st) \<leftarrow> NewApplyCommand_ref dflt dispatcher poller logger st;
          (pubDiscovery, st) \<leftarrow> NewPublishDiscovery_ref dflt builder mqttClient logger st;
          (pubState, st) \<leftarrow> NewPublishState_ref dflt mqttClient topics logger st;
          (cmdSub, st) \<leftarrow> NewCommandSubscriber_ref dflt mqttClient applyCmd topics logger st;
          (haStatus, st) \<leftarrow> NewHAStatusListener_ref dflt mqttClient (haStatusTopic cfg)
             (Some (Republish poller pubDiscovery pubState)) logger st;
          (health, st) \<leftarrow> NewHealth_ref dflt mqttClient poller readinessThreshold clock logger st;
          (metricsHandler, st) \<leftarrow> NewMetrics_ref st;
          (router, st) \<leftarrow> NewRouter_ref dflt health metricsHandler logger st;
          (httpServer, st) \<leftarrow> NewServer_ref dflt (HTTPConfig_Addr (cf_HTTP cfg)) router logger st;
          st \<leftarrow> Subscribe_ref poller (Some (PublishSnapshot pubState)) st;
          st \<leftarrow> SetCallbacks_ref availMgr (Some (PublishAvailability mqttClient topics AvailabilityOnline))
             (Some (PublishAvailability mqttClient topics AvailabilityOffline)) st;
          Some (Inr (\<lparr>apo_cfg = cfg, apo_logger = lg, apo_modbusClient = modbusClient, apo_mqttClient = mqttClient,
             apo_topics = topics, apo_builder = builder, apo_dispatcher = dispatcher, apo_supervisor = supervisor,
             apo_poller = poller, apo_availMgr = availMgr, apo_haStatus = haStatus, apo_pollCtrl = pollCtrl,
             apo_applyCmd = applyCmd, apo_pubDiscovery = pubDiscovery, apo_pubState = pubState, apo_cmdSub = cmdSub,
             apo_httpServer = httpServer\<rparr>, st)) })"

subsection \<open>The nested application\<close>

text \<open>
  Who holds whom. This is what the nesting of the records presupposes: one Modbus client behind the
  supervisor and the dispatcher, one dispatcher behind the polls and the commands, one poller whose snapshot
  the commands, the availability manager, the health probe and the birth messages read, and one MQTT client.
\<close>

definition shared :: "'l AppObj \<Rightarrow> 'l Store \<Rightarrow> bool" where
  "shared a st \<longleftrightarrow>
     (\<forall>x \<in> set (st_supervisor st). svo_conn x = apo_modbusClient a)
     \<and> (\<forall>x \<in> set (st_dispatcher st). dso_client x = apo_modbusClient a \<and> dso_notifier x = apo_supervisor a)
     \<and> (\<forall>x \<in> set (st_pollCtrl st). pco_dispatcher x = apo_dispatcher a)
     \<and> (\<forall>x \<in> set (st_apply st). aco_dispatcher x = apo_dispatcher a \<and> aco_snapshots x = apo_poller a
          \<and> aco_powerOffPause x = DefaultPowerOffPause)
     \<and> (\<forall>x \<in> set (st_poller st). plo_ctrl x = apo_pollCtrl a \<and> plo_merger x = defaultMerger
          \<and> plo_subscribers x = [PublishSnapshot (apo_pubState a)])
     \<and> (\<forall>x \<in> set (st_avail st). avo_src x = apo_poller a
          \<and> avo_onOnline x = Some (PublishAvailability (apo_mqttClient a) (apo_topics a) AvailabilityOnline)
          \<and> avo_onOffline x = Some (PublishAvailability (apo_mqttClient a) (apo_topics a) AvailabilityOffline))
     \<and> (\<forall>x \<in> set (st_mqtt st). mqo_topics x = apo_topics a) \<and> (\<forall>x \<in> set (st_builder st). blo_topics x = apo_topics a)
     \<and> (\<forall>x \<in> set (st_pubDiscovery st). pdo_builder x = apo_builder a \<and> pdo_publisher x = apo_mqttClient a)
     \<and> (\<forall>x \<in> set (st_pubState st). pso_publisher x = apo_mqttClient a \<and> pso_topics x = apo_topics a)
     \<and> (\<forall>x \<in> set (st_cmdSub st). cso_sub x = apo_mqttClient a \<and> cso_applier x = apo_applyCmd a \<and> cso_topics x = apo_topics a)
     \<and> (\<forall>x \<in> set (st_haStatus st). hso_sub x = apo_mqttClient a
          \<and> hso_onOnline x = Some (Republish (apo_poller a) (apo_pubDiscovery a) (apo_pubState a)))
     \<and> (\<forall>x \<in> set (st_health st). hlo_mqtt x = apo_mqttClient a \<and> hlo_snapshots x = apo_poller a
          \<and> hlo_readinessThreshold x = readinessThreshold)"

text \<open>One object of each struct.\<close>

definition single :: "'l Store \<Rightarrow> bool" where
  "single st \<longleftrightarrow> list_all (\<lambda>n. n = 1)
     [length (st_topics st), length (st_modbus st), length (st_mqtt st), length (st_builder st), length (st_supervisor st),
      length (st_dispatcher st), length (st_pollCtrl st), length (st_poller st), length (st_avail st), length (st_apply st),
      length (st_pubDiscovery st), length (st_pubState st), length (st_cmdSub st), length (st_haStatus st),
      length (st_health st), length (st_metrics st), length (st_router st), length (st_server st)]"

text \<open>What the closures do in the nested model, and the application that the graph stands for.\<close>

fun transition_action ::
  "('m, 'q) AppEnv \<Rightarrow> 'l Store \<Rightarrow> 'l TransitionCallback \<Rightarrow> ('m, 'q) AppWorld PollSystem \<Rightarrow> ('m, 'q) AppWorld PollSystem" where
  "transition_action E st (PublishAvailability q topics payload) =
     (case deref (st_topics st) topics of None \<Rightarrow> id | Some t \<Rightarrow> availability_callback E t payload)"

fun snapshot_action ::
  "('m, 'q) AppEnv \<Rightarrow> 'l Store \<Rightarrow> 'l SnapshotCallback \<Rightarrow> Snapshot \<Rightarrow> ('m, 'q) AppWorld \<Rightarrow> ('m, 'q) AppWorld" where
  "snapshot_action E st (PublishSnapshot ps) snap =
     (case deref (st_pubState st) ps of None \<Rightarrow> id | Some p \<Rightarrow>
      case deref (st_topics st) (pso_topics p) of None \<Rightarrow> id | Some t \<Rightarrow> state_callback E t snap)"

fun online_action ::
  "('m, 'q) AppEnv \<Rightarrow> 'l Store \<Rightarrow> 'l OnlineCallback \<Rightarrow> ('m, 'q) AppWorld PollSystem \<Rightarrow> ('m, 'q) AppWorld PollSystem" where
  "online_action E st (Republish p d ps) =
     (case deref (st_pubState st) ps of None \<Rightarrow> id | Some x \<Rightarrow>
      case deref (st_topics st) (pso_topics x) of None \<Rightarrow> id | Some t \<Rightarrow> ha_online E t)"

definition model_of :: "('m, 'q) AppEnv \<Rightarrow> 'm \<Rightarrow> 'q \<Rightarrow> 'l AppObj \<Rightarrow> 'l Store \<Rightarrow> ('m, 'q) App option" where
  "model_of E mw qw a st = do {
     topics \<leftarrow> deref (st_topics st) (apo_topics a);
     mb \<leftarrow> deref (st_modbus st) (apo_modbusClient a);
     mq \<leftarrow> deref (st_mqtt st) (apo_mqttClient a);
     mqTopics \<leftarrow> deref (st_topics st) (mqo_topics mq);
     bl \<leftarrow> deref (st_builder st) (apo_builder a);
     blTopics \<leftarrow> deref (st_topics st) (blo_topics bl);
     sv \<leftarrow> deref (st_supervisor st) (apo_supervisor a);
     ds \<leftarrow> deref (st_dispatcher st) (apo_dispatcher a);
     pl \<leftarrow> deref (st_poller st) (apo_poller a);
     av \<leftarrow> deref (st_avail st) (apo_availMgr a);
     pd \<leftarrow> deref (st_pubDiscovery st) (apo_pubDiscovery a);
     hs \<leftarrow> deref (st_haStatus st) (apo_haStatus a);
     sr \<leftarrow> deref (st_server st) (apo_httpServer a);
     Some \<lparr>ap_cfg = apo_cfg a, ap_topics = topics,
       ap_haStatus = \<lparr>hs_topic = hso_topic hs, hs_onOnline = map_option (online_action E st) (hso_onOnline hs)\<rparr>,
       ap_backoff = svo_backoff sv, ap_phase = PhWaiting, ap_httpAddr = sro_addr sr,
       ap_avail = \<lparr>am_threshold = avo_threshold av, am_checkInterval = avo_checkInterval av,
         am_onOnline = map_option (transition_action E st) (avo_onOnline av),
         am_onOffline = map_option (transition_action E st) (avo_onOffline av), am_isOffline = avo_isOffline av,
         am_world = poll_start \<lparr>pr_latest = zero_Snapshot, pr_subscribers = map (snapshot_action E st) (plo_subscribers pl),
           pr_world = \<lparr>aw_disp = \<lparr>ds_client = NewClient (mbo_cfg mb) metrics0 mw, ds_threshold = dso_threshold ds,
                         ds_consecutiveErrs = dso_consecutiveErrs ds, ds_pending = svo_trigger sv\<rparr>,
             aw_mqtt = NewMqttClient (mqo_cfg mq) mqTopics metrics0 qw,
             aw_discovery = \<lparr>pd_builder = NewBuilder blTopics (blo_haCfg bl), pd_lastFirmware = pdo_lastFirmware pd\<rparr>\<rparr>\<rparr>\<rparr>\<rparr> }"

text \<open>Everybody logs to \<open>lg\<close>, the Modbus client too, which has no default of its own.\<close>

definition log_to :: "'l \<Rightarrow> 'l Store \<Rightarrow> bool" where
  "log_to lg st \<longleftrightarrow>
     set (map mbo_logger (st_modbus st)) \<subseteq> {Some lg}
     \<and> set (map mqo_logger (st_mqtt st) @ map blo_logger (st_builder st) @ map svo_logger (st_supervisor st)
          @ map dso_logger (st_dispatcher st) @ map pco_logger (st_pollCtrl st) @ map plo_logger (st_poller st)
          @ map avo_logger (st_avail st) @ map aco_logger (st_apply st) @ map pdo_logger (st_pubDiscovery st)
          @ map pso_logger (st_pubState st) @ map cso_logger (st_cmdSub st) @ map hso_logger (st_haStatus st)
          @ map hlo_logger (st_health st) @ map rto_logger (st_router st) @ map sro_logger (st_server st)) \<subseteq> {lg}"

subsection \<open>Properties\<close>

named_theorems ctor_defs

lemmas [ctor_defs] =
  NewTopicBuilder_ref_def NewModbusClient_ref_def NewMqttClient_ref_def NewBuilder_ref_def NewConnectionSupervisor_ref_def
  NewCommandDispatcher_ref_def NewPollController_ref_def NewPoller_ref_def NewAvailabilityManager_ref_def
  NewApplyCommand_ref_def NewPublishDiscovery_ref_def NewPublishState_ref_def NewCommandSubscriber_ref_def
  NewHAStatusListener_ref_def NewHealth_ref_def NewMetrics_ref_def NewRouter_ref_def NewServer_ref_def
  Subscribe_ref_def logger_or_def clock_or_def merger_or_def empty_store_def

definition wired_store :: "Config \<Rightarrow> 'l \<Rightarrow> TopicBuilder \<Rightarrow> 'l Store" where
  "wired_store cfg lg t =
     \<lparr>st_topics = [t], st_modbus = [\<lparr>mbo_cfg = cf_Modbus cfg, mbo_logger = Some lg\<rparr>],
      st_mqtt = [\<lparr>mqo_cfg = cf_MQTT cfg, mqo_topics = Ref 0, mqo_logger = lg\<rparr>],
      st_builder = [\<lparr>blo_topics = Ref 0, blo_haCfg = cf_HomeAssistant cfg, blo_logger = lg\<rparr>],
      st_supervisor = [\<lparr>svo_conn = Ref 0, svo_cfg = cf_Reconnect cfg, svo_logger = lg,
        svo_backoff = NewBackoffWithRand (cf_Reconnect cfg), svo_trigger = False\<rparr>],
      st_dispatcher = [\<lparr>dso_client = Ref 0, dso_notifier = Ref 0, dso_threshold = commandFailureThreshold, dso_logger = lg,
        dso_consecutiveErrs = 0\<rparr>],
      st_pollCtrl = [\<lparr>pco_dispatcher = Ref 0, pco_clock = RealClock, pco_logger = lg\<rparr>],
      st_poller = [\<lparr>plo_ctrl = Ref 0, plo_merger = defaultMerger, plo_cfg = poller_config cfg, plo_clock = RealClock,
        plo_logger = lg, plo_subscribers = [PublishSnapshot (Ref 0)]\<rparr>],
      st_avail = [\<lparr>avo_src = Ref 0, avo_threshold = pl_AvailabilityThreshold (cf_Polling cfg), avo_checkInterval = 2 * Second,
        avo_clock = RealClock, avo_logger = lg, avo_onOnline = Some (PublishAvailability (Ref 0) (Ref 0) AvailabilityOnline),
        avo_onOffline = Some (PublishAvailability (Ref 0) (Ref 0) AvailabilityOffline), avo_isOffline = True\<rparr>],
      st_apply = [\<lparr>aco_dispatcher = Ref 0, aco_snapshots = Ref 0, aco_powerOffPause = DefaultPowerOffPause, aco_logger = lg\<rparr>],
      st_pubDiscovery = [\<lparr>pdo_builder = Ref 0, pdo_publisher = Ref 0, pdo_logger = lg, pdo_lastFirmware = []\<rparr>],
      st_pubState = [\<lparr>pso_publisher = Ref 0, pso_topics = Ref 0, pso_logger = lg\<rparr>],
      st_cmdSub = [\<lparr>cso_sub = Ref 0, cso_applier = Ref 0, cso_topics = Ref 0, cso_logger = lg\<rparr>],
      st_haStatus = [\<lparr>hso_sub = Ref 0, hso_topic = haStatusTopic cfg, hso_onOnline = Some (Republish (Ref 0) (Ref 0) (Ref 0)),
        hso_logger = lg\<rparr>],
      st_health = [\<lparr>hlo_mqtt = Ref 0, hlo_snapshots = Ref 0, hlo_readinessThreshold = readinessThreshold, hlo_clock = RealClock,
        hlo_logger = lg\<rparr>],
      st_metrics = [MetricsObj], st_router = [\<lparr>rto_health = Ref 0, rto_metrics = Ref 0, rto_logger = lg\<rparr>],
      st_server = [\<lparr>sro_addr = HTTPConfig_Addr (cf_HTTP cfg), sro_router = Ref 0, sro_logger = lg,
        sro_readHeaderTimeout = 5 * Second, sro_readTimeout = 10 * Second, sro_writeTimeout = 30 * Second,
        sro_idleTimeout = 60 * Second\<rparr>]\<rparr>"

definition wired_app :: "Config \<Rightarrow> 'l \<Rightarrow> 'l AppObj" where
  "wired_app cfg lg =
     \<lparr>apo_cfg = cfg, apo_logger = lg, apo_modbusClient = Ref 0, apo_mqttClient = Ref 0, apo_topics = Ref 0, apo_builder = Ref 0,
      apo_dispatcher = Ref 0, apo_supervisor = Ref 0, apo_poller = Ref 0, apo_availMgr = Ref 0, apo_haStatus = Ref 0,
      apo_pollCtrl = Ref 0, apo_applyCmd = Ref 0, apo_pubDiscovery = Ref 0, apo_pubState = Ref 0, apo_cmdSub = Ref 0,
      apo_httpServer = Ref 0\<rparr>"

definition positive_intervals :: "PollerConfig \<Rightarrow> bool" where
  "positive_intervals c \<longleftrightarrow> \<not> (pc_HotInterval c \<le> 0 \<or> pc_MediumInterval c \<le> 0 \<or> pc_SlowInterval c \<le> 0)"

lemma constants_pass:
  "\<not> commandFailureThreshold \<le> 0" "\<not> readinessThreshold \<le> 0" "haStatusTopic cfg \<noteq> []" "HTTPConfig_Addr h \<noteq> []"
  using server_addr [of h]
  by (auto simp: commandFailureThreshold_def readinessThreshold_def Second_def haStatusTopic_def NewServer_def)

lemma New_ref_wired:
  "New_ref dflt (Some cfg) l =
     (case NewTopicBuilder (cf_HomeAssistant cfg) of None \<Rightarrow> None
      | Some t \<Rightarrow> if positive_intervals (poller_config cfg)
          then Some (Inr (wired_app cfg (logger_or dflt l), wired_store cfg (logger_or dflt l) t)) else None)"
proof (cases "NewTopicBuilder (cf_HomeAssistant cfg)")
  case (Some t)
  then show ?thesis
    by (simp add: New_ref_def ctor_defs Let_def constants_pass positive_intervals_def wired_app_def wired_store_def)
qed (simp add: New_ref_def NewTopicBuilder_ref_def Let_def)

lemma New_nested:
  "New E cfg mw qw =
     (case NewTopicBuilder (cf_HomeAssistant cfg) of None \<Rightarrow> None
      | Some t \<Rightarrow> if positive_intervals (poller_config cfg) then model_of E mw qw (wired_app cfg lg) (wired_store cfg lg t) else None)"
proof -
  have cb: "transition_action E (wired_store cfg lg t) (PublishAvailability (Ref 0) (Ref 0) p) = availability_callback E t p"
    "snapshot_action E (wired_store cfg lg t) (PublishSnapshot (Ref 0)) = state_callback E t"
    "online_action E (wired_store cfg lg t) (Republish (Ref 0) (Ref 0) (Ref 0)) = ha_online E t" for t p
    by (simp_all add: wired_store_def fun_eq_iff)
  show ?thesis
  proof (cases "NewTopicBuilder (cf_HomeAssistant cfg)")
    case (Some t)
    show ?thesis
    proof (cases "positive_intervals (poller_config cfg)")
      case True
      then show ?thesis
        by (simp add: New_def Some NewCommandDispatcher_def NewPoller_def NewHAStatusListener_def NewHealth_def constants_pass Let_def
            positive_intervals_def model_of_def wired_app_def cb [unfolded wired_store_def] wired_store_def Subscribe_def SetCallbacks_def
            NewAvailabilityManager_def NewPublishDiscovery_def)
    next
      case False
      then show ?thesis
        by (simp add: New_def Some NewCommandDispatcher_def constants_pass NewPoller_def positive_intervals_def Let_def)
    qed
  qed (simp add: New_def)
qed

lemma wired_store_shared:
  "single (wired_store cfg lg t)" "shared (wired_app cfg lg) (wired_store cfg lg t)" "log_to lg (wired_store cfg lg t)"
  by (simp_all add: wired_app_def wired_store_def single_def shared_def log_to_def)

lemma model_of_wired: "model_of E mw qw (wired_app cfg lg) (wired_store cfg lg t) \<noteq> None"
  by (simp add: model_of_def wired_app_def wired_store_def)

text \<open>
  C17. The graph that \<^verbatim>\<open>New\<close> builds is the nested application the other theories are about. A nil
  configuration is an error; otherwise, whatever the configuration and whether a logger is given, the
  construction with all its nil checks panics exactly when the nested one does, and none of the nil checks
  ever fires. When it returns, every struct has been built once, all holders of a component hold the same
  one, everybody logs to the same logger, and the application read off the graph is the nested one.
\<close>

theorem wiring_refines_nesting:
  shows "New_ref dflt None l = Some (Inl (ErrText ''new app: cfg must not be nil''))
    \<and> (case New_ref dflt (Some cfg) l of
         None \<Rightarrow> New E cfg mw qw = None
       | Some (Inl err) \<Rightarrow> False
       | Some (Inr (a, st)) \<Rightarrow> single st \<and> shared a st \<and> log_to (logger_or dflt l) st
           \<and> New E cfg mw qw = model_of E mw qw a st \<and> model_of E mw qw a st \<noteq> None)"
proof -
  have "New_ref dflt None l = Some (Inl (ErrText ''new app: cfg must not be nil''))" by (simp add: New_ref_def)
  moreover note New_nested [of E cfg mw qw "logger_or dflt l"]
  ultimately show ?thesis
    by (simp add: New_ref_wired wired_store_shared model_of_wired del: not_None_eq split: option.split)
qed

end
