(* ===== verification/BusOps.thy ===== *)
theory BusOps
  imports CommandSubscriber
begin

text \<open>
  The single operations on the bus that polls and commands consist of. The client's mutex is taken once
  per operation, so between the three reads of a poll, or between the two edges of a power-off, the
  operations of other goroutines may run. \<open>bus_op\<close> is one such operation of some poll or command; the
  lemmas show that a poll and a message are sequences of them, and that each keeps the limits.
\<close>

subsection \<open>The operations\<close>

text \<open>The writes a command may issue.\<close>

fun command_writes :: "Command \<Rightarrow> (u16 \<times> u16) set" where
  "command_writes (SetPowerCommand on) = (if on then {(AddrPowerDev, 1)} else {(AddrPowerDev, 1), (AddrPowerDev, 0)})"
| "command_writes (SetModeCommand m) = {}"
| "command_writes (SetTemperatureCommand t) = {(AddrTempTarget, Temperature_Raw t)}"
| "command_writes (SetFanCommand f) = {(AddrFanTarget1, FanSpeed_Value f)}"

inductive bus_op :: "'w ModbusEnv \<Rightarrow> 'w Client Dispatcher \<Rightarrow> 'w Client Dispatcher \<Rightarrow> bool" for E where
  read_input: "batch n \<Longrightarrow> ds_ReadInput (client_port E) a n d = (ri, d') \<Longrightarrow> bus_op E d d'"
| read_holding: "batch n \<Longrightarrow> ds_ReadHolding (client_port E) a n d = (rh, d') \<Longrightarrow> bus_op E d d'"
| write_reg: "valid_command c \<Longrightarrow> (a, v) \<in> command_writes c \<Longrightarrow> ds_WriteHolding (client_port E) a v d = (rw, d') \<Longrightarrow>
    bus_op E d d'"
| modify_reg: "ds_ModifyHolding (client_port E) AddrDevKeys2 (\<lambda>cur. Some (ApplyToRegister cur m)) d = (rm, d') \<Longrightarrow>
    bus_op E d d'"
| dwell: "me_wait E t (cl_world (ds_client d)) = (rd, w) \<Longrightarrow> bus_op E d (d\<lparr>ds_client := (ds_client d)\<lparr>cl_world := w\<rparr>\<rparr>)"
| clock: "me_now E (cl_world (ds_client d)) = (rc, w) \<Longrightarrow> bus_op E d (d\<lparr>ds_client := (ds_client d)\<lparr>cl_world := w\<rparr>\<rparr>)"

subsection \<open>Polls and messages are made of them\<close>

interpretation op_source: register_source "poll_ops E" "\<lambda>d. device_laws E dev \<and> (bus_op E)\<^sup>*\<^sup>* d0 d" "disp_dev dev"
  for E dev d0
proof
  fix d d' :: "'a Client Dispatcher" and a n r
  assume L: "device_laws E dev \<and> (bus_op E)\<^sup>*\<^sup>* d0 d"
  show "(device_laws E dev \<and> (bus_op E)\<^sup>*\<^sup>* d0 d') \<and> disp_dev dev d' = disp_dev dev d
      \<and> (\<forall>vs. r = Inr vs \<longrightarrow> vs = regs_from (rf_in (disp_dev dev d)) a n)"
    if b: "batch n" and c: "po_ReadInput (poll_ops E) a n d = (r, d')"
    using disp_source.read_input [OF conjunct1 [OF L] b c] L c b bus_op.read_input [of n E a d r d']
    by (auto simp: poll_ops_def intro: rtranclp.rtrancl_into_rtrancl)
  show "(device_laws E dev \<and> (bus_op E)\<^sup>*\<^sup>* d0 d') \<and> disp_dev dev d' = disp_dev dev d
      \<and> (\<forall>vs. r = Inr vs \<longrightarrow> vs = regs_from (rf_hold (disp_dev dev d)) a n)"
    if b: "batch n" and c: "po_ReadHolding (poll_ops E) a n d = (r, d')"
    using disp_source.read_holding [OF conjunct1 [OF L] b c] L c b bus_op.read_holding [of n E a d r d']
    by (auto simp: poll_ops_def intro: rtranclp.rtrancl_into_rtrancl)
next
  fix d d' :: "'a Client Dispatcher" and t
  assume L: "device_laws E dev \<and> (bus_op E)\<^sup>*\<^sup>* d0 d" and n: "po_Now (poll_ops E) d = (t, d')"
  obtain c w where w: "me_now E (cl_world (ds_client d)) = (c, w)" by fastforce
  from disp_source.now [OF conjunct1 [OF L] n] L n bus_op.clock [OF w]
  show "(device_laws E dev \<and> (bus_op E)\<^sup>*\<^sup>* d0 d') \<and> disp_dev dev d' = disp_dev dev d"
    by (auto simp: poll_ops_def w intro: rtranclp.rtrancl_into_rtrancl)
qed

lemma poll_is_bus_ops:
  assumes "device_laws E dev"
  shows "PollHot (poll_ops E) d = (q, d') \<Longrightarrow> (bus_op E)\<^sup>*\<^sup>* d d'"
    "PollMedium (poll_ops E) d = (q, d') \<Longrightarrow> (bus_op E)\<^sup>*\<^sup>* d d'"
    "PollSlow (poll_ops E) d = (q, d') \<Longrightarrow> (bus_op E)\<^sup>*\<^sup>* d d'"
  using op_source.PollHot_dev [of E dev d d] op_source.PollMedium_dev [of E dev d d]
    op_source.PollSlow_dev [of E dev d d] assms by auto

text \<open>The calls of the command use case as operations.\<close>

lemma command_op:
  "co_WriteHolding (command_ops E) a v (d, sn) = (e, s') \<Longrightarrow> valid_command c \<Longrightarrow> (a, v) \<in> command_writes c \<Longrightarrow> bus_op E d (fst s')"
  "co_ModifyHolding (command_ops E) AddrDevKeys2 (\<lambda>cur. Some (ApplyToRegister cur m)) (d, sn) = (e, s') \<Longrightarrow> bus_op E d (fst s')"
  "co_Wait (command_ops E) t (d, sn) = (e, s') \<Longrightarrow> bus_op E d (fst s')"
  by (auto simp: command_ops_def split: prod.splits intro: bus_op.write_reg bus_op.modify_reg bus_op.dwell)

lemma labelled_state: "snd (labelled l r) = snd r"
  by (cases r) (simp add: labelled_def split: option.split)

lemma labelled_result: "labelled l r = (e, s) \<Longrightarrow> \<exists>e'. r = (e', s) \<and> (e' = None \<longleftrightarrow> e = None)"
  by (cases r) (auto simp: labelled_def split: option.splits)

lemma power_is_bus_ops:
  assumes "setPower (command_ops E) pause on s = (e, s')"
  shows "(bus_op E)\<^sup>*\<^sup>* (fst s) (fst s')"
proof (cases "transitionGuard (command_ops E) s")
  case None
  obtain d sn where s: "s = (d, sn)" by (cases s)
  obtain e1 d1 sn1 where 1: "co_WriteHolding (command_ops E) AddrPowerDev 1 s = (e1, d1, sn1)"
    by (metis prod_cases3)
  have b1: "bus_op E d d1" using command_op(1) [OF 1 [unfolded s], of "SetPowerCommand True"] by simp
  obtain e2 d2 sn2 where 2: "co_Wait (command_ops E) pause (d1, sn1) = (e2, d2, sn2)" by (metis prod_cases3)
  have b2: "bus_op E d1 d2" using command_op(3) [OF 2] by simp
  obtain e3 d3 sn3 where 3: "co_WriteHolding (command_ops E) AddrPowerDev 0 (d2, sn2) = (e3, d3, sn3)"
    by (metis prod_cases3)
  have b3: "bus_op E d2 d3" using command_op(1) [OF 3, of "SetPowerCommand False"] by simp
  have "fst s' \<in> {d1, d2, d3}"
    using assms by (cases on; cases e1; cases e2; cases e3) (auto simp: setPower_def None 1 2 3 labelled_def)
  with b1 b2 b3 show ?thesis by (auto simp: s intro: rtranclp.rtrancl_into_rtrancl)
qed (use assms in \<open>simp add: setPower_def\<close>)

lemma command_is_bus_ops:
  assumes "valid_command c" and "Apply (command_ops E) pause (Some c) s = (e, s')"
  shows "(bus_op E)\<^sup>*\<^sup>* (fst s) (fst s')"
proof -
  obtain d sn where s: "s = (d, sn)" by (cases s)
  show ?thesis
  proof (cases c)
    case (SetPowerCommand on)
    with assms(2) show ?thesis by (intro power_is_bus_ops [of E pause on s e]) (simp add: Apply_def)
  next
    case (SetModeCommand m)
    with assms(2) show ?thesis
      by (auto simp: Apply_def setMode_def s dest!: labelled_result command_op(2) split: option.splits)
  next
    case (SetTemperatureCommand t)
    with assms show ?thesis
      by (auto simp: Apply_def setTemperature_def s dest!: labelled_result command_op(1) [of _ _ _ _ _ _ _ c] split: option.splits)
  next
    case (SetFanCommand f)
    with assms show ?thesis
      by (auto simp: Apply_def setFan_def s dest!: labelled_result command_op(1) [of _ _ _ _ _ _ _ c] split: option.splits)
  qed
qed

lemma message_is_bus_ops: "(bus_op E)\<^sup>*\<^sup>* d (handle_message E pause m d)"
proof -
  obtain h payload sn where m: "m = (h, payload, sn)" by (cases m)
  have "(bus_op E)\<^sup>*\<^sup>* d (fst (run_handler h (\<lambda>c. Apply (command_ops E) pause (Some c)) payload (d, sn)))"
    by (rule run_handler_invariant) (auto dest: command_is_bus_ops)
  then show ?thesis by (simp add: m handle_message_def)
qed

subsection \<open>Each keeps the limits\<close>

lemma command_writes_within:
  "valid_command c \<Longrightarrow> (a, v) \<in> command_writes c \<Longrightarrow> within_limits r (set_hold a v r)"
  using Temperature_Raw_bounds
  by (cases c) (auto simp: within_limits_def valid_fan_def FanSpeed_Value_def enum_defs split: if_splits)

lemma bus_op_within:
  assumes "bus_op E d d'" and L: "device_laws E dev"
  shows "within_limits (disp_dev dev d) (disp_dev dev d')"
  using assms(1)
proof (cases rule: bus_op.cases)
  case (read_input a n ri)
  then show ?thesis using disp_source.read_input [OF L, of a n d ri d'] by (simp add: poll_ops_def)
next
  case (read_holding a n rh)
  then show ?thesis using disp_source.read_holding [OF L, of a n d rh d'] by (simp add: poll_ops_def)
next
  case (write_reg c a v rw)
  then have "co_WriteHolding (command_ops E) a v (d, zero_Snapshot) = (rw, d', zero_Snapshot)" by (simp add: command_ops_def)
  from disp_commands.write_law [OF L this] command_writes_within [OF write_reg(1,2)] show ?thesis by (auto simp: wrote_def)
next
  case (modify_reg m rm)
  then have "co_ModifyHolding (command_ops E) AddrDevKeys2 (\<lambda>cur. Some (ApplyToRegister cur m)) (d, zero_Snapshot) = (rm, d', zero_Snapshot)"
    by (simp add: command_ops_def)
  from disp_commands.modify_law [OF L this] mode_within [of "disp_dev dev d" m] show ?thesis by (auto simp: wrote_def)
next
  case (dwell t rd w)
  then have "co_Wait (command_ops E) t (d, zero_Snapshot) = (rd, d', zero_Snapshot)" by (simp add: command_ops_def)
  from disp_commands.wait_law [OF L this] show ?thesis by simp
next
  case (clock rc w)
  then have "po_Now (poll_ops E) d = (rc, d')" by (simp add: poll_ops_def)
  from disp_source.now [OF L this] show ?thesis by simp
qed

end
