(* ===== verification/AppLaws.thy ===== *)
theory AppLaws
  imports App BusOps
begin

text \<open>
  The running application as a step relation: the poller's goroutines, the callbacks of the MQTT
  library, the availability ticker, the supervisor and the outside world, in any order. The lemmas lift
  the laws of the components to it. The locale \<open>poller_world\<close> is what a property of the world needs of
  the poller's environment to survive its goroutines; it is interpreted once per lifted property.
\<close>

subsection \<open>Frames\<close>

lemma world_frames [simp]:
  "aw_disp (on_mqtt f w) = aw_disp w" "aw_discovery (on_mqtt f w) = aw_discovery w"
  "aw_mqtt (on_mqtt f w) = f (aw_mqtt w)"
  "aw_mqtt (on_disp g w) = aw_mqtt w" "aw_discovery (on_disp g w) = aw_discovery w"
  "aw_disp (on_disp g w) = g (aw_disp w)"
  by (simp_all add: on_defs)

lemma polls_frames [simp]:
  "pr_world (ps_poller (on_world f s)) = f (pr_world (ps_poller s))"
  "pr_latest (ps_poller (on_world f s)) = pr_latest (ps_poller s)"
  "pr_subscribers (ps_poller (on_world f s)) = pr_subscribers (ps_poller s)"
  "ps_tier (on_world f s) = ps_tier s" "ps_events (on_world f s) = ps_events s"
  "ps_delivered (on_world f s) = ps_delivered s"
  by (simp_all add: on_defs)

lemma app_frames [simp]:
  "app_polls (on_polls g a) = g (app_polls a)"
  "ap_cfg (on_polls g a) = ap_cfg a" "ap_topics (on_polls g a) = ap_topics a"
  "ap_haStatus (on_polls g a) = ap_haStatus a" "ap_backoff (on_polls g a) = ap_backoff a"
  "ap_phase (on_polls g a) = ap_phase a"
  "am_onOnline (ap_avail (on_polls g a)) = am_onOnline (ap_avail a)"
  "am_onOffline (ap_avail (on_polls g a)) = am_onOffline (ap_avail a)"
  "am_isOffline (ap_avail (on_polls g a)) = am_isOffline (ap_avail a)"
  "am_threshold (ap_avail (on_polls g a)) = am_threshold (ap_avail a)"
  by (simp_all add: on_defs)

lemma callback_frames [simp]:
  "aw_disp (state_callback E topics m w) = aw_disp w"
  "aw_discovery (state_callback E topics m w) = aw_discovery w"
  "aw_disp (publish_discovery E fw w) = aw_disp w"
  by (simp_all add: state_callback_def publish_discovery_def split: prod.splits)

lemma env_frames [simp]:
  "aw_mqtt (snd (pe_now (app_poller_env E) w)) = aw_mqtt w"
  "aw_discovery (snd (pe_now (app_poller_env E) w)) = aw_discovery w"
  "aw_disp (snd (pe_now (app_poller_env E) w)) = snd (po_Now (poll_ops (ae_modbus E)) (aw_disp w))"
  "aw_mqtt (pe_metrics (app_poller_env E) f w) = aw_mqtt w"
  "aw_discovery (pe_metrics (app_poller_env E) f w) = aw_discovery w"
  "aw_disp (pe_metrics (app_poller_env E) f w) =
     (aw_disp w)\<lparr>ds_client := upd_metrics f (ds_client (aw_disp w))\<rparr>"
  "aw_mqtt (snd (app_poll E t w)) = aw_mqtt w" "aw_discovery (snd (app_poll E t w)) = aw_discovery w"
  "aw_disp (snd (app_poll E t w)) = snd (tier_poll (poll_ops (ae_modbus E)) t (aw_disp w))"
  by (simp_all add: app_poller_env_def app_poll_def case_prod_unfold)

subsection \<open>The steps\<close>

definition app_system :: "('m, 'q) App \<Rightarrow> 'm System" where
  "app_system a = \<lparr>sy_disp = aw_disp (app_world a), sy_backoff = ap_backoff a, sy_phase = ap_phase a\<rparr>"

definition set_system :: "'m System \<Rightarrow> ('m, 'q) App \<Rightarrow> ('m, 'q) App" where
  "set_system s a = on_polls (on_world (on_disp (\<lambda>_. sy_disp s))) (a\<lparr>ap_backoff := sy_backoff s, ap_phase := sy_phase s\<rparr>)"

text \<open>\<open>W\<close>: what the outside (the controller, its panel, the network, time) may do to the Modbus world.\<close>

text \<open>
  A poll and a message are steps of their own here; \<open>bus\<close> is one operation of a poll or a message that is
  under way, so that their parts can also run between the other steps (BusOps shows they have no others).
\<close>

inductive app_step :: "('m, 'q) AppEnv \<Rightarrow> ('m \<Rightarrow> 'm \<Rightarrow> bool) \<Rightarrow> ('m, 'q) App \<Rightarrow> ('m, 'q) App \<Rightarrow> bool"
  for E W where
  polled: "poll_step (app_poller_env E) (app_poll E) (app_polls a) s \<Longrightarrow> app_step E W a (on_polls (\<lambda>_. s) a)"
| mqtt: "app_step E W a (mqtt_event E e a)"
| bus: "bus_op (ae_modbus E) (aw_disp (app_world a)) d \<Longrightarrow> app_step E W a (on_polls (on_world (on_disp (\<lambda>_. d))) a)"
| ticked: "app_step E W a (a\<lparr>ap_avail := tick (app_clock E) (ap_avail a)\<rparr>)"
| supervised: "sup_step (ae_modbus E) (ae_oor E) (ae_rng E) (app_system a) s \<Longrightarrow> app_step E W a (set_system s a)"
| outside: "W (cl_world (ds_client (aw_disp (app_world a)))) w \<Longrightarrow>
    app_step E W a (on_polls (on_world (on_disp (\<lambda>d. d\<lparr>ds_client := (ds_client d)\<lparr>cl_world := w\<rparr>\<rparr>))) a)"

text \<open>What the ticks and the messages do to the dispatcher.\<close>

lemma ha_disp [simp]: "aw_disp (pr_world (ps_poller (ha_online E topics s))) = aw_disp (pr_world (ps_poller s))"
  by (simp add: ha_online_def Let_def)

subsection \<open>Properties of the world the poller keeps\<close>

locale poller_world =
  fixes PE :: "'w PollerEnv" and F :: "Tier \<Rightarrow> 'w \<Rightarrow> (go_error + Snapshot) \<times> 'w"
    and subs :: "(Snapshot \<Rightarrow> 'w \<Rightarrow> 'w) list" and D :: "Snapshot \<Rightarrow> bool" and Q :: "'w \<Rightarrow> bool"
  assumes now: "Q w \<Longrightarrow> Q (snd (pe_now PE w))"
    and metrics: "Q w \<Longrightarrow> flag_neutral f \<Longrightarrow> Q (pe_metrics PE f w)"
    and poll: "Q w \<Longrightarrow> Q (snd (F t w))"
    and deliver: "Q w \<Longrightarrow> D m \<Longrightarrow> cb \<in> set subs \<Longrightarrow> Q (cb m w)"
begin

lemma deliver_all: "Q w \<Longrightarrow> D m \<Longrightarrow> set cbs \<subseteq> set subs \<Longrightarrow> Q (fold (\<lambda>cb. cb m) cbs w)"
  by (induction cbs arbitrary: w) (auto intro: deliver)

lemma fetch: "Q (pr_world p) \<Longrightarrow> poll_fetch PE (F t) tier p = (r, p') \<Longrightarrow> Q (pr_world p')"
proof -
  assume q: "Q (pr_world p)" and f: "poll_fetch PE (F t) tier p = (r, p')"
  define w1 where "w1 = snd (pe_now PE (pr_world p))"
  obtain x w2 where x: "F t w1 = (x, w2)" by fastforce
  have w2: "Q w2" using poll [OF now [OF q], of t] by (simp add: x flip: w1_def)
  have m: "Q (pe_metrics PE (counter_inc k) w2)" for k by (rule metrics [OF w2]) (simp add: flag_neutral_def)
  from f have "pr_world p' = w2 \<or> (\<exists>k. pr_world p' = pe_metrics PE (counter_inc k) w2)"
    unfolding poll_fetch_def Let_def case_prod_unfold by (cases x) (auto simp: x simp flip: w1_def split: if_splits)
  with w2 m show ?thesis by auto
qed

lemma notify: "Q (pr_world p) \<Longrightarrow> D m \<Longrightarrow> pr_subscribers p = subs \<Longrightarrow> Q (pr_world (poll_notify PE tier m p))"
  by (auto simp: poll_notify_def case_prod_unfold Let_def flag_neutral_def intro!: metrics now deliver_all)

lemma stepped:
  assumes "poll_step PE F s s'" and "pr_subscribers (ps_poller s) = subs"
    and "\<And>t m. ps_tier s t = TMerged m \<Longrightarrow> D m" and "Q (pr_world (ps_poller s))"
  shows "Q (pr_world (ps_poller s'))"
  using assms
proof (induction rule: poll_step.induct)
  case (merged s t x m p)
  then show ?case by (auto simp: poll_merge_def Let_def)
qed (auto intro: fetch notify)

end

lemma poll_step_subs: "poll_step PE F s s' \<Longrightarrow> pr_subscribers (ps_poller s') = pr_subscribers (ps_poller s)"
  by (induction rule: poll_step.induct) (auto simp: poll_merge_def Let_def)

subsection \<open>The application under supervision\<close>

definition supervised_from ::
  "('m, 'q) AppEnv \<Rightarrow> ('m \<Rightarrow> RegFile) \<Rightarrow> 'm System \<Rightarrow> 'm Client Dispatcher \<Rightarrow> bool" where
  "supervised_from E dev s d \<longleftrightarrow> device_laws (ae_modbus E) dev
     \<and> sys_reach (ae_modbus E) (ae_oor E) (ae_rng E) s (s\<lparr>sy_disp := d\<rparr>)"

lemma supervised_call:
  assumes "supervised_from E dev s d" and "sys_step (ae_modbus E) (ae_oor E) (ae_rng E) (s\<lparr>sy_disp := d\<rparr>) (s\<lparr>sy_disp := d'\<rparr>)"
  shows "supervised_from E dev s d'"
  using assms sys_reach.step by (auto simp: supervised_from_def)

lemma supervised_world:
  assumes "supervised_from E dev s d" and "modbusConnectedFlag m = modbusConnectedFlag (cl_metrics (ds_client d))"
  shows "supervised_from E dev s (d\<lparr>ds_client := (ds_client d)\<lparr>cl_metrics := m, cl_world := w\<rparr>\<rparr>)"
  using supervised_call [OF assms(1)] sys_step.world [of m "s\<lparr>sy_disp := d\<rparr>" _ _ _ w] assms(2)
  by (simp add: set_client_def)

lemma supervised_time:
  "supervised_from E dev s d \<Longrightarrow> supervised_from E dev s (d\<lparr>ds_client := (ds_client d)\<lparr>cl_world := w\<rparr>\<rparr>)"
  using supervised_world [of E dev s d "cl_metrics (ds_client d)" w] by simp

interpretation sup_source: register_source "poll_ops (ae_modbus E)" "supervised_from E dev s" "disp_dev dev" for E dev s
proof
  fix d d' :: "'a Client Dispatcher" and a n r
  assume S: "supervised_from E dev s d"
  then have L: "device_laws (ae_modbus E) dev" by (simp add: supervised_from_def)
  show "supervised_from E dev s d' \<and> disp_dev dev d' = disp_dev dev d
      \<and> (\<forall>vs. r = Inr vs \<longrightarrow> vs = regs_from (rf_in (disp_dev dev d)) a n)"
    if b: "batch n" and c: "po_ReadInput (poll_ops (ae_modbus E)) a n d = (r, d')"
    using disp_source.read_input [OF L b c] supervised_call [OF S] c
      sys_step.read_input [of "ae_modbus E" a n "s\<lparr>sy_disp := d\<rparr>" r d' "ae_oor E" "ae_rng E"]
    by (simp add: poll_ops_def)
  show "supervised_from E dev s d' \<and> disp_dev dev d' = disp_dev dev d
      \<and> (\<forall>vs. r = Inr vs \<longrightarrow> vs = regs_from (rf_hold (disp_dev dev d)) a n)"
    if b: "batch n" and c: "po_ReadHolding (poll_ops (ae_modbus E)) a n d = (r, d')"
    using disp_source.read_holding [OF L b c] supervised_call [OF S] c
      sys_step.read_holding [of "ae_modbus E" a n "s\<lparr>sy_disp := d\<rparr>" r d' "ae_oor E" "ae_rng E"]
    by (simp add: poll_ops_def)
next
  fix d d' :: "'a Client Dispatcher" and t
  assume S: "supervised_from E dev s d" and n: "po_Now (poll_ops (ae_modbus E)) d = (t, d')"
  then have L: "device_laws (ae_modbus E) dev" by (simp add: supervised_from_def)
  from disp_source.now [OF L n] supervised_time [OF S] n
  show "supervised_from E dev s d' \<and> disp_dev dev d' = disp_dev dev d"
    by (auto simp: poll_ops_def Let_def case_prod_unfold)
qed

interpretation sup_commands: command_port "command_ops (ae_modbus E)" "\<lambda>(d, sn). supervised_from E dev s d"
  "\<lambda>(d, sn). disp_dev dev d" for E dev s
proof
  fix x x' :: "'a Client Dispatcher \<times> Snapshot" and a v e f t
  assume S: "case x of (d, sn) \<Rightarrow> supervised_from E dev s d"
  obtain d sn where x: "x = (d, sn)" by (cases x)
  obtain d' sn' where x': "x' = (d', sn')" by (cases x')
  have L: "device_laws (ae_modbus E) dev" and S': "supervised_from E dev s d" using S by (simp_all add: supervised_from_def x)
  show "(case x' of (d, sn) \<Rightarrow> supervised_from E dev s d)
      \<and> wrote a v (e = None) (case x of (d, sn) \<Rightarrow> disp_dev dev d) (case x' of (d, sn) \<Rightarrow> disp_dev dev d)"
    if c: "co_WriteHolding (command_ops (ae_modbus E)) a v x = (e, x')"
    using disp_commands.write_law [OF L c] supervised_call [OF S'] c
      sys_step.write_holding [of "ae_modbus E" a v "s\<lparr>sy_disp := d\<rparr>" e d' "ae_oor E" "ae_rng E"]
    by (auto simp: x x' command_ops_def split: prod.splits)
  show "(case x' of (d, sn) \<Rightarrow> supervised_from E dev s d)
      \<and> ((e \<noteq> None \<and> (case x' of (d, sn) \<Rightarrow> disp_dev dev d) = (case x of (d, sn) \<Rightarrow> disp_dev dev d))
        \<or> (\<exists>v. f (rf_hold (case x of (d, sn) \<Rightarrow> disp_dev dev d) a) = Some v
            \<and> wrote a v (e = None) (case x of (d, sn) \<Rightarrow> disp_dev dev d) (case x' of (d, sn) \<Rightarrow> disp_dev dev d)))"
    if c: "co_ModifyHolding (command_ops (ae_modbus E)) a f x = (e, x')"
    using disp_commands.modify_law [OF L c] supervised_call [OF S'] c
      sys_step.modify_holding [of "ae_modbus E" a f "s\<lparr>sy_disp := d\<rparr>" e d' "ae_oor E" "ae_rng E"]
    by (auto simp: x x' command_ops_def split: prod.splits)
  show "(case x' of (d, sn) \<Rightarrow> supervised_from E dev s d)
      \<and> (case x' of (d, sn) \<Rightarrow> disp_dev dev d) = (case x of (d, sn) \<Rightarrow> disp_dev dev d)"
    if c: "co_Wait (command_ops (ae_modbus E)) t x = (e, x')"
    using disp_commands.wait_law [OF L c] supervised_time [OF S'] c
    by (auto simp: x x' command_ops_def split: prod.splits)
qed

interpretation sup_world: poller_world "app_poller_env E" "app_poll E" subs "\<lambda>_. \<forall>cb \<in> set subs. \<forall>m w. aw_disp (cb m w) = aw_disp w"
  "\<lambda>w. supervised_from E dev s (aw_disp w)" for E subs dev s
proof
  fix w :: "('a, 'b) AppWorld" and f t m cb
  assume S: "supervised_from E dev s (aw_disp w)"
  obtain n d where "po_Now (poll_ops (ae_modbus E)) (aw_disp w) = (n, d)" by fastforce
  with sup_source.now [OF S this] show "supervised_from E dev s (aw_disp (snd (pe_now (app_poller_env E) w)))" by simp
  show "supervised_from E dev s (aw_disp (pe_metrics (app_poller_env E) f w))" if "flag_neutral f"
    using supervised_world [OF S, of "f (cl_metrics (ds_client (aw_disp w)))" "cl_world (ds_client (aw_disp w))"] that
    by (simp add: upd_metrics_def flag_neutral_def)
  obtain q d where q: "tier_poll (poll_ops (ae_modbus E)) t (aw_disp w) = (q, d)" by fastforce
  have "supervised_from E dev s d"
    using q by (cases t) (auto dest: sup_source.PollHot_dev [OF S] sup_source.PollMedium_dev [OF S]
        sup_source.PollSlow_dev [OF S])
  with q show "supervised_from E dev s (aw_disp (snd (app_poll E t w)))" by simp
qed simp

subsection \<open>The wiring is kept\<close>

definition wired :: "('m, 'q) AppEnv \<Rightarrow> ('m, 'q) App \<Rightarrow> bool" where
  "wired E a \<longleftrightarrow> pr_subscribers (ps_poller (app_polls a)) = [state_callback E (ap_topics a)]
     \<and> am_onOnline (ap_avail a) = Some (availability_callback E (ap_topics a) AvailabilityOnline)
     \<and> am_onOffline (ap_avail a) = Some (availability_callback E (ap_topics a) AvailabilityOffline)
     \<and> hs_onOnline (ap_haStatus a) = Some (ha_online E (ap_topics a))"

lemma ha_frames [simp]:
  "pr_subscribers (ps_poller (ha_online E topics s)) = pr_subscribers (ps_poller s)"
  "pr_latest (ps_poller (ha_online E topics s)) = pr_latest (ps_poller s)"
  "ps_tier (ha_online E topics s) = ps_tier s" "ps_events (ha_online E topics s) = ps_events s"
  "ps_delivered (ha_online E topics s) = ps_delivered s"
  by (simp_all add: ha_online_def Let_def)

lemma availability_frames [simp]:
  "pr_subscribers (ps_poller (availability_callback E topics p s)) = pr_subscribers (ps_poller s)"
  "pr_latest (ps_poller (availability_callback E topics p s)) = pr_latest (ps_poller s)"
  "ps_tier (availability_callback E topics p s) = ps_tier s"
  "ps_events (availability_callback E topics p s) = ps_events s"
  "ps_delivered (availability_callback E topics p s) = ps_delivered s"
  "aw_disp (pr_world (ps_poller (availability_callback E topics p s))) = aw_disp (pr_world (ps_poller s))"
  "aw_discovery (pr_world (ps_poller (availability_callback E topics p s))) = aw_discovery (pr_world (ps_poller s))"
  by (simp_all add: availability_callback_def)

lemma wired_world [simp]: "wired E (on_polls (on_world f) a) = wired E a"
  by (simp add: wired_def)

text \<open>What a message, a tick and the clock can do to the state of the poller.\<close>

lemma ha_handle_cases:
  assumes "wired E a"
  shows "ha_handle (ap_haStatus a) payload s = s \<or> ha_handle (ap_haStatus a) payload s = ha_online E (ap_topics a) s"
  using assms by (simp add: ha_handle_def wired_def Let_def)

lemma tick_world:
  "am_world (tick E a) = snd (av_now E (am_world a))
   \<or> (\<exists>f. Some f \<in> {am_onOnline a, am_onOffline a} \<and> am_world (tick E a) = f (snd (av_now E (am_world a))))"
proof -
  have "am_world (call_back g c) = am_world c \<or> (\<exists>f. g = Some f \<and> am_world (call_back g c) = f (am_world c))"
    for g and c :: "'a AvailabilityManager"
    by (cases g) (simp_all add: call_back_def)
  from this [of "am_onOnline a" "a\<lparr>am_isOffline := False, am_world := snd (av_now E (am_world a))\<rparr>"]
    this [of "am_onOffline a" "a\<lparr>am_isOffline := True, am_world := snd (av_now E (am_world a))\<rparr>"]
  show ?thesis unfolding tick_def Let_def case_prod_unfold by auto
qed

lemma tick_cases:
  assumes "wired E a" and "s = snd (av_now (app_clock E) (app_polls a))"
  shows "am_world (tick (app_clock E) (ap_avail a)) \<in> insert s ((\<lambda>p. availability_callback E (ap_topics a) p s) `
    {AvailabilityOnline, AvailabilityOffline})"
  using tick_world [of "app_clock E" "ap_avail a"] assms by (auto simp: wired_def)

lemma clock_frames [simp]:
  "pr_world (ps_poller (snd (av_now (app_clock E) s))) = snd (pe_now (app_poller_env E) (pr_world (ps_poller s)))"
  "pr_subscribers (ps_poller (snd (av_now (app_clock E) s))) = pr_subscribers (ps_poller s)"
  "pr_latest (ps_poller (snd (av_now (app_clock E) s))) = pr_latest (ps_poller s)"
  "ps_tier (snd (av_now (app_clock E) s)) = ps_tier s" "ps_events (snd (av_now (app_clock E) s)) = ps_events s"
  "ps_delivered (snd (av_now (app_clock E) s)) = ps_delivered s"
  by (simp_all add: app_clock_def case_prod_unfold)

lemma system_frames [simp]:
  "ap_topics (set_system s a) = ap_topics a" "ap_cfg (set_system s a) = ap_cfg a"
  "ap_haStatus (set_system s a) = ap_haStatus a" "aw_mqtt (app_world (set_system s a)) = aw_mqtt (app_world a)"
  "aw_discovery (app_world (set_system s a)) = aw_discovery (app_world a)"
  "aw_disp (app_world (set_system s a)) = sy_disp s" "app_system (set_system s a) = s"
  "pr_subscribers (ps_poller (app_polls (set_system s a))) = pr_subscribers (ps_poller (app_polls a))"
  "pr_latest (ps_poller (app_polls (set_system s a))) = pr_latest (ps_poller (app_polls a))"
  "ps_tier (app_polls (set_system s a)) = ps_tier (app_polls a)"
  "ps_events (app_polls (set_system s a)) = ps_events (app_polls a)"
  "ps_delivered (app_polls (set_system s a)) = ps_delivered (app_polls a)"
  "am_onOnline (ap_avail (set_system s a)) = am_onOnline (ap_avail a)"
  "am_onOffline (ap_avail (set_system s a)) = am_onOffline (ap_avail a)"
  "am_isOffline (ap_avail (set_system s a)) = am_isOffline (ap_avail a)"
  by (simp_all add: set_system_def on_polls_def app_system_def)

lemma message_frames [simp]:
  "ap_topics (app_message E h payload a) = ap_topics a" "ap_cfg (app_message E h payload a) = ap_cfg a"
  "ap_haStatus (app_message E h payload a) = ap_haStatus a"
  "ap_backoff (app_message E h payload a) = ap_backoff a" "ap_phase (app_message E h payload a) = ap_phase a"
  "am_onOnline (ap_avail (app_message E h payload a)) = am_onOnline (ap_avail a)"
  "am_onOffline (ap_avail (app_message E h payload a)) = am_onOffline (ap_avail a)"
  "am_isOffline (ap_avail (app_message E h payload a)) = am_isOffline (ap_avail a)"
  by (cases h; simp)+

lemma mqtt_event_frames [simp]:
  "ap_topics (mqtt_event E e a) = ap_topics a" "ap_cfg (mqtt_event E e a) = ap_cfg a"
  "ap_haStatus (mqtt_event E e a) = ap_haStatus a"
  "ap_backoff (mqtt_event E e a) = ap_backoff a" "ap_phase (mqtt_event E e a) = ap_phase a"
  "am_onOnline (ap_avail (mqtt_event E e a)) = am_onOnline (ap_avail a)"
  "am_onOffline (ap_avail (mqtt_event E e a)) = am_onOffline (ap_avail a)"
  "am_isOffline (ap_avail (mqtt_event E e a)) = am_isOffline (ap_avail a)"
  by (cases e; simp split: option.split)+

lemma mqtt_event_wired: "wired E a \<Longrightarrow> wired E (mqtt_event E e a)"
proof (cases e)
  case (Arrived topic payload)
  assume w: "wired E a"
  show ?thesis
  proof (cases "mqc_subs (aw_mqtt (app_world a)) topic")
    case (Some h)
    then show ?thesis
      using w ha_handle_cases [OF w, of payload "app_polls a"]
      by (cases h) (auto simp: Arrived wired_def)
  qed (use w in \<open>simp add: Arrived\<close>)
qed (simp_all add: wired_def)

lemma app_step_wired:
  "app_step E W a b \<Longrightarrow> wired E a \<Longrightarrow> wired E b \<and> ap_topics b = ap_topics a \<and> ap_cfg b = ap_cfg a"
proof (induction rule: app_step.induct)
  case (polled a s)
  then show ?case using poll_step_subs [OF polled(1)] by (simp add: wired_def)
next
  case (mqtt a e)
  then show ?case by (simp add: mqtt_event_wired)
next
  case (bus a d)
  then show ?case by (simp add: wired_def)
next
  case (ticked a)
  then show ?case using tick_cases [OF ticked HOL.refl] by (auto simp: wired_def)
next
  case (supervised a s)
  then show ?case by (simp add: wired_def)
next
  case (outside a w)
  then show ?case by (simp add: wired_def)
qed

subsection \<open>Every step of the application is a run of the supervised system\<close>

lemma supervised_message:
  assumes "wired E a" and "supervised_from E dev s (aw_disp (app_world a))"
  shows "supervised_from E dev s (aw_disp (app_world (mqtt_event E e a)))"
proof (cases e)
  case (Arrived topic payload)
  show ?thesis
  proof (cases "mqc_subs (aw_mqtt (app_world a)) topic")
    case (Some h)
    show ?thesis
    proof (cases h)
      case (CommandTopic k)
      let ?x = "(aw_disp (app_world a), Poller_Snapshot (ps_poller (app_polls a)))"
      from sup_commands.handler_within [of E dev s ?x k DefaultPowerOffPause payload] assms(2)
      show ?thesis by (auto simp: Arrived Some CommandTopic handle_message_def split: prod.splits)
    next
      case HAStatusTopic
      then show ?thesis
        using ha_handle_cases [OF assms(1), of payload "app_polls a"] assms(2) by (auto simp: Arrived Some)
    qed
  qed (use assms in \<open>simp add: Arrived\<close>)
qed (use assms in simp_all)

lemma supervised_bus_op:
  assumes "bus_op (ae_modbus E) d d'" and S: "supervised_from E dev s d"
  shows "supervised_from E dev s d'"
  using assms(1)
proof (cases rule: bus_op.cases)
  case (dwell t rd w)
  then show ?thesis using supervised_time [OF S] by simp
next
  case (clock rc w)
  then show ?thesis using supervised_time [OF S] by simp
qed (auto intro!: supervised_call [OF S] intro: sys_step.intros dest: sys_step.read_input [of _ _ _ "s\<lparr>sy_disp := d\<rparr>", simplified]
  sys_step.read_holding [of _ _ _ "s\<lparr>sy_disp := d\<rparr>", simplified] sys_step.write_holding [of _ _ _ "s\<lparr>sy_disp := d\<rparr>", simplified]
  sys_step.modify_holding [of _ _ _ "s\<lparr>sy_disp := d\<rparr>", simplified])

lemma app_step_supervised:
  assumes "app_step E W a b" and "wired E a" and "device_laws (ae_modbus E) dev"
  shows "sys_reach (ae_modbus E) (ae_oor E) (ae_rng E) (app_system a) (app_system b)"
proof -
  let ?s = "app_system a"
  have d: "?s\<lparr>sy_disp := aw_disp (app_world a)\<rparr> = ?s" by (simp add: app_system_def)
  have S: "supervised_from E dev ?s (aw_disp (app_world a))"
    using assms(3) by (simp add: supervised_from_def d sys_reach.refl)
  have r: "sys_reach (ae_modbus E) (ae_oor E) (ae_rng E) ?s (?s\<lparr>sy_disp := d'\<rparr>)" if "supervised_from E dev ?s d'" for d'
    using that by (simp add: supervised_from_def)
  from assms(1) show ?thesis
  proof (cases rule: app_step.cases)
    case (polled s)
    have "supervised_from E dev ?s (aw_disp (pr_world (ps_poller s)))"
      by (rule sup_world.stepped [OF polled(2) HOL.refl _ S]) (use assms(2) in \<open>auto simp: wired_def\<close>)
    from r [OF this] show ?thesis by (simp add: polled(1) app_system_def)
  next
    case (mqtt e)
    from r [OF supervised_message [OF assms(2) S, of e]] show ?thesis by (simp add: mqtt(1) app_system_def)
  next
    case (bus d)
    from r [OF supervised_bus_op [OF bus(2) S]] show ?thesis by (simp add: bus(1) app_system_def)
  next
    case ticked
    have "aw_disp (app_world b) = snd (po_Now (poll_ops (ae_modbus E)) (aw_disp (app_world a)))"
      using tick_cases [OF assms(2) HOL.refl] by (auto simp: ticked(1))
    moreover have "supervised_from E dev ?s (snd (po_Now (poll_ops (ae_modbus E)) (aw_disp (app_world a))))"
      using sup_source.now [OF S] by (meson prod.exhaust_sel)
    ultimately show ?thesis using r by (simp add: ticked(1) app_system_def)
  next
    case (supervised s)
    from sys_reach.step [OF sys_reach.refl sys_step.supervised [OF supervised(2)]] show ?thesis
      by (simp add: supervised(1))
  next
    case (outside w)
    from r [OF supervised_time [OF S, of w]] show ?thesis by (simp add: outside(1) app_system_def)
  qed
qed

lemma app_run_wired:
  "(app_step E W)\<^sup>*\<^sup>* a b \<Longrightarrow> wired E a \<Longrightarrow> wired E b \<and> ap_topics b = ap_topics a \<and> ap_cfg b = ap_cfg a"
  by (induction rule: rtranclp_induct) (auto dest: app_step_wired)

lemma app_run_supervised:
  assumes "(app_step E W)\<^sup>*\<^sup>* a b" and "wired E a" and "device_laws (ae_modbus E) dev"
  shows "sys_reach (ae_modbus E) (ae_oor E) (ae_rng E) (app_system a) (app_system b)"
  using assms(1)
proof (induction rule: rtranclp_induct)
  case base
  then show ?case by (simp add: sys_reach.refl)
next
  case (step b c)
  then show ?case
    using app_run_wired [OF step.hyps(1) assms(2)] app_step_supervised [OF step.hyps(2) _ assms(3)] sys_reach_trans by auto
qed

subsection \<open>Start-up\<close>

lemma New_parts:
  assumes "New E cfg mw qw = Some a"
  shows "wired E a \<and> ap_cfg a = cfg \<and> NewTopicBuilder (cf_HomeAssistant cfg) = Some (ap_topics a)
    \<and> app_system a = init_system (NewClient (cf_Modbus cfg) metrics0 mw) 3 (NewBackoffWithRand (cf_Reconnect cfg))
    \<and> aw_mqtt (app_world a) = NewMqttClient (cf_MQTT cfg) (ap_topics a) metrics0 qw
    \<and> aw_discovery (app_world a) = NewPublishDiscovery (NewBuilder (ap_topics a) (cf_HomeAssistant cfg))
    \<and> (\<exists>p. app_polls a = poll_start p \<and> pr_latest p = zero_Snapshot)
    \<and> hs_topic (ap_haStatus a) = haStatusTopic cfg \<and> am_isOffline (ap_avail a)
    \<and> am_threshold (ap_avail a) = pl_AvailabilityThreshold (cf_Polling cfg)"
proof -
  note parts = NewPoller_def NewCommandDispatcher_def NewHAStatusListener_def NewHealth_def
  show ?thesis
    using assms unfolding New_def parts commandFailureThreshold_def Let_def
    by (auto simp: wired_def Subscribe_def SetCallbacks_def NewAvailabilityManager_def poll_start_def
        app_system_def init_system_def split: option.splits if_splits)
qed

lemma Run_parts:
  assumes "Run E evs a = Some (Inr b)"
  obtains c bo where "supervisor_Start (ae_modbus E) (ae_oor E) (ae_rng E) (ds_client (aw_disp (app_world a)), ap_backoff a)
      = Some (Inr (c, bo))"
    and "boot_mqtt E evs (on_polls (on_world (on_disp (\<lambda>d. d\<lparr>ds_client := c\<rparr>))) (a\<lparr>ap_backoff := bo\<rparr>)) = Inr b"
  using assms by (auto simp: Run_def split: option.splits sum.splits prod.splits)

text \<open>The steps of the start-up after the connect that replace the MQTT client.\<close>

definition boot_calls ::
  "('m, 'q) AppEnv \<Rightarrow> ('m, 'q) App \<Rightarrow> ((AppHandler, 'q) MqttClient \<Rightarrow> go_error option \<times> (AppHandler, 'q) MqttClient) set" where
  "boot_calls E a =
     {CommandSubscriber_Start (\<lambda>t h. mq_Subscribe (ae_mqtt E) t (Some (CommandTopic h))) (ap_topics a),
      HAStatusListener_Start (\<lambda>t h. mq_Subscribe (ae_mqtt E) t (Some h)) HAStatusTopic (ap_haStatus a)}"

lemma boot_step_Inr:
  "boot_step what f a = Inr b \<longleftrightarrow> (\<exists>q. f (aw_mqtt (app_world a)) = (None, q) \<and> b = on_polls (on_world (on_mqtt (\<lambda>_. q))) a)"
  by (auto simp: boot_step_def split: prod.splits option.splits)

lemma mqtt_events_induct: "P a \<Longrightarrow> (\<And>e a. P a \<Longrightarrow> P (mqtt_event E e a)) \<Longrightarrow> P (mqtt_events E es a)"
  by (induction es arbitrary: a) (auto simp: mqtt_events_def)

lemma mqtt_events_frames [simp]:
  "ap_topics (mqtt_events E es a) = ap_topics a" "ap_haStatus (mqtt_events E es a) = ap_haStatus a"
  by (induction es arbitrary: a) (simp_all add: mqtt_events_def)

lemma boot_connected_invariant:
  assumes "boot_mqtt E evs a = Inr b" and connected: "\<And>a1. boot_step ''mqtt initial connect'' (mq_Connect (ae_mqtt E)) a = Inr a1 \<Longrightarrow> P a1"
    and event: "\<And>e a. P a \<Longrightarrow> P (mqtt_event E e a)"
    and discovery: "\<And>a. P a \<Longrightarrow> P (on_polls (on_world (publish_discovery E ''unknown'')) a)"
    and call: "\<And>f a q. f \<in> boot_calls E a \<Longrightarrow> f (aw_mqtt (app_world a)) = (None, q) \<Longrightarrow> P a
      \<Longrightarrow> P (on_polls (on_world (on_mqtt (\<lambda>_. q))) a)"
  shows "P b"
proof -
  have evs: "P x \<Longrightarrow> P (mqtt_events E es x)" for es x using mqtt_events_induct [where P = P] event by blast
  have step: "boot_step what f x = Inr y \<Longrightarrow> f \<in> boot_calls E x \<Longrightarrow> P x \<Longrightarrow> P y" for what f x y
    by (auto simp: boot_step_Inr intro: call)
  from assms(1) show ?thesis
    unfolding boot_mqtt_def case_sum_Inr Let_def
    by (auto intro!: evs discovery elim!: step dest!: connected simp: boot_calls_def)
qed

lemma boot_invariant:
  assumes "boot_mqtt E evs a = Inr b" and "P a"
    and event: "\<And>e a. P a \<Longrightarrow> P (mqtt_event E e a)"
    and discovery: "\<And>a. P a \<Longrightarrow> P (on_polls (on_world (publish_discovery E ''unknown'')) a)"
    and connect: "\<And>q. mq_Connect (ae_mqtt E) (aw_mqtt (app_world a)) = (None, q) \<Longrightarrow> P (on_polls (on_world (on_mqtt (\<lambda>_. q))) a)"
    and call: "\<And>f a q. f \<in> boot_calls E a \<Longrightarrow> f (aw_mqtt (app_world a)) = (None, q) \<Longrightarrow> P a
      \<Longrightarrow> P (on_polls (on_world (on_mqtt (\<lambda>_. q))) a)"
  shows "P b"
proof (rule boot_connected_invariant [OF assms(1)])
  fix a1 assume "boot_step ''mqtt initial connect'' (mq_Connect (ae_mqtt E)) a = Inr a1"
  then show "P a1" by (auto simp: boot_step_Inr connect)
qed (fact event discovery call)+

lemma boot_wired:
  assumes "boot_mqtt E evs a = Inr b" and "wired E a"
  shows "wired E b \<and> ap_topics b = ap_topics a \<and> ap_cfg b = ap_cfg a \<and> ap_haStatus b = ap_haStatus a"
  by (rule boot_invariant [OF assms(1), where P = "\<lambda>x. wired E x \<and> ap_topics x = ap_topics a \<and> ap_cfg x = ap_cfg a
        \<and> ap_haStatus x = ap_haStatus a"])
    (use assms(2) in \<open>simp_all add: mqtt_event_wired\<close>)

lemma boot_supervised:
  assumes "boot_mqtt E evs a = Inr b" and "wired E a" and "device_laws (ae_modbus E) dev"
  shows "sys_reach (ae_modbus E) (ae_oor E) (ae_rng E) (app_system a) (app_system b)"
proof -
  let ?s = "app_system a"
  have "?s\<lparr>sy_disp := aw_disp (app_world a)\<rparr> = ?s" by (simp add: app_system_def)
  then have S: "supervised_from E dev ?s (aw_disp (app_world a))"
    using assms(3) by (simp add: supervised_from_def sys_reach.refl)
  have "wired E b \<and> supervised_from E dev ?s (aw_disp (app_world b)) \<and> ap_backoff b = ap_backoff a \<and> ap_phase b = ap_phase a"
    by (rule boot_invariant [OF assms(1), where P = "\<lambda>x. wired E x \<and> supervised_from E dev ?s (aw_disp (app_world x))
          \<and> ap_backoff x = ap_backoff a \<and> ap_phase x = ap_phase a"])
      (use assms(2) S in \<open>simp_all add: mqtt_event_wired supervised_message\<close>)
  then show ?thesis by (simp add: supervised_from_def app_system_def)
qed

text \<open>The application from its constructor to any later state.\<close>

lemma app_supervised:
  assumes "device_laws (ae_modbus E) dev" and "New E cfg mw qw = Some a0" and "Run E evs a0 = Some (Inr a)"
    and "(app_step E W)\<^sup>*\<^sup>* a b"
  obtains c bo where "supervisor_Start (ae_modbus E) (ae_oor E) (ae_rng E)
      (NewClient (cf_Modbus cfg) metrics0 mw, NewBackoffWithRand (cf_Reconnect cfg)) = Some (Inr (c, bo))"
    and "sys_reach (ae_modbus E) (ae_oor E) (ae_rng E) (init_system c 3 bo) (app_system b)"
proof -
  obtain c bo where r: "supervisor_Start (ae_modbus E) (ae_oor E) (ae_rng E)
      (ds_client (aw_disp (app_world a0)), ap_backoff a0) = Some (Inr (c, bo))"
    "boot_mqtt E evs (on_polls (on_world (on_disp (\<lambda>d. d\<lparr>ds_client := c\<rparr>))) (a0\<lparr>ap_backoff := bo\<rparr>)) = Inr a"
    by (rule Run_parts [OF assms(3)])
  let ?a = "on_polls (on_world (on_disp (\<lambda>d. d\<lparr>ds_client := c\<rparr>))) (a0\<lparr>ap_backoff := bo\<rparr>)"
  have n: "wired E a0" "app_system a0 = init_system (NewClient (cf_Modbus cfg) metrics0 mw) 3 (NewBackoffWithRand (cf_Reconnect cfg))"
    using New_parts [OF assms(2)] by auto
  have w: "wired E ?a" using n(1) by (simp add: wired_def on_polls_def)
  have s: "app_system ?a = init_system c 3 bo"
    using n(2) by (simp add: app_system_def init_system_def on_polls_def)
  have "ds_client (aw_disp (app_world a0)) = NewClient (cf_Modbus cfg) metrics0 mw"
    "ap_backoff a0 = NewBackoffWithRand (cf_Reconnect cfg)"
    using n(2) by (simp_all add: app_system_def init_system_def)
  moreover have "sys_reach (ae_modbus E) (ae_oor E) (ae_rng E) (init_system c 3 bo) (app_system b)"
    using boot_supervised [OF r(2) w assms(1)] boot_wired [OF r(2) w] app_run_supervised [OF assms(4) _ assms(1)]
      sys_reach_trans by (auto simp: s)
  ultimately show ?thesis using r(1) that by simp
qed

end
