(* ===== verification/AppMessages.thy ===== *)
theory AppMessages
  imports AppLaws
begin

text \<open>
  What the application tells the broker: every message it publishes is accounted for by the state of
  the poller (\<open>account\<close>). The lemmas are about any interleaving of the steps of theory AppLaws.
\<close>

subsection \<open>The MQTT client under publications\<close>

definition mq_same :: "('h, 'w) MqttClient \<Rightarrow> ('h, 'w) MqttClient \<Rightarrow> bool" where
  "mq_same q q' \<longleftrightarrow> mqc_cfg q' = mqc_cfg q \<and> mqc_topics q' = mqc_topics q \<and> mqc_client q' = mqc_client q
     \<and> mqc_subs q' = mqc_subs q \<and> mqc_connected q' = mqc_connected q"

lemma mq_same_refl [simp]: "mq_same q q"
  by (simp add: mq_same_def)

lemma mq_same_trans: "mq_same q r \<Longrightarrow> mq_same r s \<Longrightarrow> mq_same q s"
  by (simp add: mq_same_def)

lemma subseq_set_mono: "subseq xs ys \<Longrightarrow> set xs \<subseteq> set ys"
  by (induction rule: list_emb.induct) auto

lemma mq_Publish_same: "mq_Publish M t p r q = (e, q') \<Longrightarrow> mq_same q q'"
  by (auto simp: mq_Publish_def mq_same_def Let_def split: if_splits prod.splits token.splits option.splits)

lemma publish_all_same: "publish_all (mq_Publish M) ms q = (es, q') \<Longrightarrow> mq_same q q'"
proof (induction ms arbitrary: q es)
  case (Cons m ms)
  obtain l t p where m: "m = (l, t, p)" by (cases m)
  obtain e q1 where 1: "mq_Publish M t p True q = (e, q1)" by fastforce
  obtain fs q2 where 2: "publish_all (mq_Publish M) ms q1 = (fs, q2)" by fastforce
  have q: "q2 = q'" using Cons.prems by (auto simp: m 1 2 split: option.splits)
  from mq_same_trans [OF mq_Publish_same [OF 1] Cons.IH [OF 2 [unfolded q]]] show ?case .
qed simp

lemma published_resubscribe:
  "log_law M lg \<Longrightarrow> published (lg (fold (resubscribe M subs q) order w)) = published (lg w)"
  by (induction order arbitrary: w) (auto simp: resubscribe_def log_law_def split: option.splits)

subsection \<open>The messages the application can account for\<close>

definition firmwares :: "(Tier \<times> Snapshot) list \<Rightarrow> string set" where
  "firmwares evs = insert ''unknown'' ((\<lambda>m. Firmware_String (sn_Firmware m)) ` past evs)"

definition account :: "TopicBuilder \<Rightarrow> Builder \<Rightarrow> (Tier \<times> Snapshot) list \<Rightarrow> (string \<times> string \<times> bool) set" where
  "account topics b evs =
     {(Topic_Availability topics, AvailabilityOnline, True), (Topic_Availability topics, AvailabilityOffline, True)}
     \<union> (\<Union>fw \<in> firmwares evs. set (configs_sent b fw)) \<union> (\<Union>m \<in> past evs. set (messages_of topics m))"

lemma account_mono: "account topics b evs \<subseteq> account topics b (evs @ [e])"
  using past_snoc [of evs e] unfolding account_def firmwares_def by blast

definition said :: "('q \<Rightarrow> AppHandler broker_event list) \<Rightarrow> ('m, 'q) AppWorld \<Rightarrow> (string \<times> string \<times> bool) list" where
  "said lg w = published (lg (mqc_world (aw_mqtt w)))"

text \<open>\<open>speaks\<close>: the messages so far are in \<open>X\<close>, and the client still has its topics.\<close>

definition speaks ::
  "('m, 'q) AppEnv \<Rightarrow> ('q \<Rightarrow> AppHandler broker_event list) \<Rightarrow> TopicBuilder \<Rightarrow> Builder \<Rightarrow>
     (string \<times> string \<times> bool) set \<Rightarrow> ('m, 'q) AppWorld \<Rightarrow> bool" where
  "speaks E lg topics b X w \<longleftrightarrow> log_law (ae_mqtt E) lg \<and> mqc_topics (aw_mqtt w) = topics
     \<and> pd_builder (aw_discovery w) = b \<and> set (said lg w) \<subseteq> X"

lemma speaks_mono: "speaks E lg topics b X w \<Longrightarrow> X \<subseteq> Y \<Longrightarrow> speaks E lg topics b Y w"
  by (auto simp: speaks_def)

lemma speaks_frames [simp]:
  "speaks E lg topics b X (on_disp g w) = speaks E lg topics b X w"
  "speaks E lg topics b X (snd (pe_now (app_poller_env E) w)) = speaks E lg topics b X w"
  "speaks E lg topics b X (pe_metrics (app_poller_env E) f w) = speaks E lg topics b X w"
  "speaks E lg topics b X (snd (app_poll E t w)) = speaks E lg topics b X w"
  by (simp_all add: speaks_def said_def)

text \<open>What each callback adds to the messages.\<close>

lemma state_said:
  assumes "log_law (ae_mqtt E) lg"
  shows "\<exists>l. said lg (state_callback E topics m w) = said lg w @ l \<and> set l \<subseteq> set (messages_of topics m)"
proof -
  obtain es q where p: "publish_all (mq_Publish (ae_mqtt E)) (map state_labelled (buildMessages topics m)) (aw_mqtt w) = (es, q)"
    by fastforce
  obtain l where "published (lg (mqc_world q)) = published (lg (mqc_world (aw_mqtt w))) @ l" "subseq l (messages_of topics m)"
    using mqtt_pub.publish_all_sent [OF assms p] by (auto simp: messages_of_def)
  then show ?thesis
    using subseq_set_mono by (auto simp: said_def state_callback_def PublishState_Apply_def p)
qed

lemma availability_said:
  assumes "log_law (ae_mqtt E) lg"
  shows "\<exists>l. said lg (pr_world (ps_poller (availability_callback E topics p s))) = said lg (pr_world (ps_poller s)) @ l
    \<and> set l \<subseteq> {(Topic_Availability topics, p, True)}"
proof -
  let ?w = "pr_world (ps_poller s)"
  obtain e q where m: "mq_Publish (ae_mqtt E) (Topic_Availability topics) p True (aw_mqtt ?w) = (e, q)" by fastforce
  obtain l where "published (lg (mqc_world q)) = published (lg (mqc_world (aw_mqtt ?w))) @ l"
    "set l \<subseteq> {(Topic_Availability topics, p, True)}"
    using mqtt_pub.pub_law [OF assms m] by fastforce
  then show ?thesis by (auto simp: said_def availability_callback_def m)
qed

lemma discovery_said:
  assumes "log_law (ae_mqtt E) lg"
  shows "pd_builder (aw_discovery (publish_discovery E fw w)) = pd_builder (aw_discovery w)
    \<and> (\<exists>l. said lg (publish_discovery E fw w) = said lg w @ l
        \<and> set l \<subseteq> set (configs_sent (pd_builder (aw_discovery w)) fw))"
proof -
  obtain e p q where d: "PublishDiscovery_Publish (mq_Publish (ae_mqtt E)) fw (aw_discovery w) (aw_mqtt w) = (e, p, q)"
    by (rule prod_cases3)
  from Publish_sends [OF assms d] show ?thesis
    using subseq_set_mono by (fastforce simp: publish_discovery_def said_def d)
qed

lemma state_same: "mq_same (aw_mqtt w) (aw_mqtt (state_callback E topics m w))"
  unfolding state_callback_def PublishState_Apply_def
  by (auto split: prod.splits dest: publish_all_same)

lemma discovery_same: "mq_same (aw_mqtt w) (aw_mqtt (publish_discovery E fw w))"
  unfolding publish_discovery_def PublishDiscovery_Publish_def
  by (auto split: prod.splits sum.splits dest: publish_all_same)

lemma availability_same:
  "mq_same (aw_mqtt (pr_world (ps_poller s))) (aw_mqtt (pr_world (ps_poller (availability_callback E topics p s))))"
  unfolding availability_callback_def polls_frames world_frames by (metis mq_Publish_same prod.collapse)

text \<open>So each callback keeps \<open>speaks\<close>, for a set that holds its messages.\<close>

lemma speaks_more:
  assumes "speaks E lg topics b X w" and "mq_same (aw_mqtt w) (aw_mqtt w')"
    and "pd_builder (aw_discovery w') = pd_builder (aw_discovery w)"
    and "\<exists>l. said lg w' = said lg w @ l \<and> set l \<subseteq> Y" and "Y \<subseteq> X"
  shows "speaks E lg topics b X w'"
proof -
  obtain l where l: "said lg w' = said lg w @ l" "set l \<subseteq> X" using assms(4,5) by blast
  show ?thesis using assms(1-3) l(2) unfolding speaks_def mq_same_def l(1) by simp
qed

lemma speaks_law: "speaks E lg topics b X w \<Longrightarrow> log_law (ae_mqtt E) lg"
  by (simp add: speaks_def)

lemma speaks_state:
  assumes "speaks E lg topics b X w" and "set (messages_of topics' m) \<subseteq> X"
  shows "speaks E lg topics b X (state_callback E topics' m w)"
  by (rule speaks_more [OF assms(1) state_same _ state_said [OF speaks_law [OF assms(1)]] assms(2)]) simp

lemma speaks_availability:
  assumes "speaks E lg topics b X (pr_world (ps_poller s))" and "(Topic_Availability topics', p, True) \<in> X"
  shows "speaks E lg topics b X (pr_world (ps_poller (availability_callback E topics' p s)))"
  by (rule speaks_more [OF assms(1) availability_same _ availability_said [OF speaks_law [OF assms(1)]]])
    (use assms(2) in simp_all)

lemma speaks_discovery:
  assumes "speaks E lg topics b X w" and "set (configs_sent b fw) \<subseteq> X"
  shows "speaks E lg topics b X (publish_discovery E fw w)"
proof -
  have "pd_builder (aw_discovery w) = b" using assms(1) by (simp add: speaks_def)
  then show ?thesis
    using speaks_more [OF assms(1) discovery_same _ _ assms(2)] discovery_said [OF speaks_law [OF assms(1)], of fw w] by simp
qed

lemma onConnect_said:
  assumes "log_law M lg"
  shows "published (lg (mqc_world (onConnect M order q))) = published (lg (mqc_world q))
    @ (if mqc_client q then [(Topic_Availability (mqc_topics q), AvailabilityOnline, True)] else [])"
  using assms published_resubscribe [OF assms]
  by (auto simp: onConnect_def Let_def case_prod_unfold log_law_def)

lemma onConnect_frame [simp]:
  "mqc_topics (onConnect M order q) = mqc_topics q" "mqc_subs (onConnect M order q) = mqc_subs q"
  "mqc_client (onConnect M order q) = mqc_client q" "mqc_connected (onConnect M order q)"
  by (simp_all add: onConnect_def Let_def case_prod_unfold)

lemma onConnectionLost_frame [simp]:
  "mqc_topics (onConnectionLost q) = mqc_topics q" "mqc_subs (onConnectionLost q) = mqc_subs q"
  "mqc_client (onConnectionLost q) = mqc_client q" "mqc_world (onConnectionLost q) = mqc_world q"
  by (simp_all add: onConnectionLost_def)

interpretation speak_world: poller_world "app_poller_env E" "app_poll E" "[state_callback E topics']"
  "\<lambda>m. set (messages_of topics' m) \<subseteq> X" "speaks E lg topics b X" for E topics' X lg topics b
  by unfold_locales (auto intro: speaks_state)

lemma speaks_connect:
  assumes "speaks E lg topics b X w" and "(Topic_Availability topics, AvailabilityOnline, True) \<in> X"
  shows "speaks E lg topics b X (on_mqtt (onConnect (ae_mqtt E) order) w)"
  using assms onConnect_said [OF speaks_law [OF assms(1)]] by (auto simp: speaks_def said_def)

text \<open>\<open>covers\<close>: a set of messages that contains what the callbacks may say in a state with these polls.\<close>

definition covers :: "TopicBuilder \<Rightarrow> Builder \<Rightarrow> (Tier \<times> Snapshot) list \<Rightarrow> (string \<times> string \<times> bool) set \<Rightarrow> bool" where
  "covers topics b evs X \<longleftrightarrow> (Topic_Availability topics, AvailabilityOnline, True) \<in> X
     \<and> (\<forall>fw \<in> firmwares evs. set (configs_sent b fw) \<subseteq> X) \<and> (\<forall>m \<in> past evs. set (messages_of topics m) \<subseteq> X)"

lemma covers_account: "covers topics b evs (account topics b evs)"
  by (auto simp: covers_def account_def)

lemma speaks_ha:
  assumes "speaks E lg topics b X (pr_world (ps_poller s))" and "poll_inv s" and c: "covers topics b (ps_events s) X"
  shows "speaks E lg topics b X (pr_world (ps_poller (ha_online E topics s)))"
proof -
  let ?m = "Poller_Snapshot (ps_poller s)" and ?w = "pr_world (ps_poller s)"
  have m: "?m \<in> past (ps_events s)" using assms(2) by (simp add: poll_inv_def Poller_Snapshot_def)
  define fw where "fw = (if IsZero (sn_PolledAt ?m) then ''unknown'' else Firmware_String (sn_Firmware ?m))"
  have "fw \<in> firmwares (ps_events s)" using m by (auto simp: firmwares_def fw_def)
  then have d: "speaks E lg topics b X (publish_discovery E fw ?w)"
    using c by (intro speaks_discovery [OF assms(1)]) (auto simp: covers_def)
  have "set (messages_of topics ?m) \<subseteq> X" using c m by (auto simp: covers_def)
  from speaks_state [OF d this] d show ?thesis
    by (cases "IsZero (sn_PolledAt ?m)") (simp_all add: ha_online_def Let_def fw_def)
qed

lemma poll_inv_frames [simp]:
  "poll_inv (on_world f s) = poll_inv s" "poll_inv (ha_online E topics s) = poll_inv s"
  "poll_inv (availability_callback E topics p s) = poll_inv s"
  "poll_inv (snd (av_now (app_clock E) s)) = poll_inv s"
  "poll_inv (app_polls (set_system y a)) = poll_inv (app_polls a)"
  by (simp_all add: poll_inv_def)

text \<open>A call of the library: what it leaves alone, and what it says.\<close>

lemma mqtt_event_cases:
  assumes "wired E a"
  obtains order where "e = LinkUp order"
  | "e = LinkDown"
  | g where "app_polls (mqtt_event E e a) = on_world (on_disp g) (app_polls a)"
  | "app_polls (mqtt_event E e a) = ha_online E (ap_topics a) (app_polls a)"
  | "mqtt_event E e a = a"
proof (cases e)
  case (Arrived topic payload)
  show ?thesis
  proof (cases "mqc_subs (aw_mqtt (app_world a)) topic")
    case (Some h)
    show ?thesis
    proof (cases h)
      case (CommandTopic k)
      show ?thesis by (rule that(3)) (simp add: Arrived Some CommandTopic)
    next
      case HAStatusTopic
      have e: "mqtt_event E e a = on_polls (ha_handle (ap_haStatus a) payload) a" by (simp add: Arrived Some HAStatusTopic)
      from ha_handle_cases [OF assms, of payload "app_polls a"] show ?thesis
      proof
        assume "ha_handle (ap_haStatus a) payload (app_polls a) = app_polls a"
        then have "mqtt_event E e a = a" unfolding e by (simp add: on_polls_def)
        then show ?thesis by (rule that(5))
      next
        assume "ha_handle (ap_haStatus a) payload (app_polls a) = ha_online E (ap_topics a) (app_polls a)"
        then have "app_polls (mqtt_event E e a) = ha_online E (ap_topics a) (app_polls a)" unfolding e by simp
        then show ?thesis by (rule that(4))
      qed
    qed
  next
    case None
    show ?thesis by (rule that(5)) (simp add: Arrived None)
  qed
next
  case (LinkUp order)
  then show ?thesis by (rule that(1))
next
  case LinkDown
  then show ?thesis by (rule that(2))
qed

lemma mqtt_event_polls:
  assumes "wired E a"
  shows "poll_inv (app_polls (mqtt_event E e a)) = poll_inv (app_polls a)
    \<and> ps_events (app_polls (mqtt_event E e a)) = ps_events (app_polls a)
    \<and> pr_latest (ps_poller (app_polls (mqtt_event E e a))) = pr_latest (ps_poller (app_polls a))"
  by (rule mqtt_event_cases [OF assms, of e]) simp_all

lemma mqtt_event_speaks:
  assumes "wired E a" and "poll_inv (app_polls a)" and s: "speaks E lg (ap_topics a) b X (app_world a)"
    and c: "covers (ap_topics a) b (ps_events (app_polls a)) X"
  shows "speaks E lg (ap_topics a) b X (app_world (mqtt_event E e a))"
proof (rule mqtt_event_cases [OF assms(1), of e])
  fix order assume "e = LinkUp order"
  then show ?thesis using speaks_connect [OF s] c by (simp add: covers_def)
next
  assume "e = LinkDown"
  then show ?thesis using s by (simp add: speaks_def said_def)
next
  assume "app_polls (mqtt_event E e a) = ha_online E (ap_topics a) (app_polls a)"
  then show ?thesis using speaks_ha [OF s assms(2) c] by simp
qed (use s in simp_all)

lemma poll_step_events:
  "poll_step PE F s s' \<Longrightarrow> ps_events s' = ps_events s \<or> (\<exists>e. ps_events s' = ps_events s @ [e])"
  by (induction rule: poll_step.induct) auto

lemma polled_speaks:
  assumes "poll_step (app_poller_env E) (app_poll E) (app_polls a) s" and "wired E a" and "poll_inv (app_polls a)"
    and "speaks E lg (ap_topics a) b X (app_world a)" and "covers (ap_topics a) b (ps_events (app_polls a)) X"
  shows "speaks E lg (ap_topics a) b X (pr_world (ps_poller s))"
proof (rule speak_world.stepped [OF assms(1) _ _ assms(4)])
  show "pr_subscribers (ps_poller (app_polls a)) = [state_callback E (ap_topics a)]" using assms(2) by (simp add: wired_def)
  show "set (messages_of (ap_topics a) m) \<subseteq> X" if "ps_tier (app_polls a) t = TMerged m" for t m
  proof -
    have "m \<in> past (ps_events (app_polls a))" using assms(3) that by (auto simp: poll_inv_def)
    then show ?thesis using assms(5) by (simp add: covers_def)
  qed
qed

subsection \<open>The account is kept\<close>

definition app_builder :: "('m, 'q) App \<Rightarrow> Builder" where
  "app_builder a = NewBuilder (ap_topics a) (cf_HomeAssistant (ap_cfg a))"

definition app_account :: "('m, 'q) App \<Rightarrow> (string \<times> string \<times> bool) set" where
  "app_account a = account (ap_topics a) (app_builder a) (ps_events (app_polls a))"

definition accounted :: "('m, 'q) AppEnv \<Rightarrow> ('q \<Rightarrow> AppHandler broker_event list) \<Rightarrow> ('m, 'q) App \<Rightarrow> bool" where
  "accounted E lg a \<longleftrightarrow> wired E a \<and> poll_inv (app_polls a)
     \<and> speaks E lg (ap_topics a) (app_builder a) (app_account a) (app_world a)"

lemma availability_accounted [simp]:
  "(Topic_Availability (ap_topics a), AvailabilityOnline, True) \<in> app_account a"
  "(Topic_Availability (ap_topics a), AvailabilityOffline, True) \<in> app_account a"
  by (simp_all add: app_account_def account_def)

lemma accounted_frame:
  assumes "accounted E lg a" and "wired E b" and "ap_topics b = ap_topics a" and "ap_cfg b = ap_cfg a"
    and "poll_inv (app_polls b) = poll_inv (app_polls a)" and "ps_events (app_polls b) = ps_events (app_polls a)"
    and "speaks E lg (ap_topics a) (app_builder a) (app_account a) (app_world b)"
  shows "accounted E lg b"
  using assms by (simp add: accounted_def app_builder_def app_account_def)

lemma mqtt_event_accounted: "accounted E lg a \<Longrightarrow> accounted E lg (mqtt_event E e a)"
proof (rule accounted_frame)
  assume a: "accounted E lg a"
  then have i: "wired E a" "poll_inv (app_polls a)"
    "speaks E lg (ap_topics a) (app_builder a) (app_account a) (app_world a)" by (simp_all add: accounted_def)
  show "wired E (mqtt_event E e a)" by (rule mqtt_event_wired [OF i(1)])
  show "speaks E lg (ap_topics a) (app_builder a) (app_account a) (app_world (mqtt_event E e a))"
    by (rule mqtt_event_speaks [OF i]) (simp add: app_account_def covers_account)
  show "poll_inv (app_polls (mqtt_event E e a)) = poll_inv (app_polls a)"
    "ps_events (app_polls (mqtt_event E e a)) = ps_events (app_polls a)"
    using mqtt_event_polls [OF i(1)] by simp_all
qed simp_all

lemma polled_accounted:
  assumes "accounted E lg a" and "poll_step (app_poller_env E) (app_poll E) (app_polls a) s"
  shows "accounted E lg (on_polls (\<lambda>_. s) a)"
proof -
  note i = assms(1) [unfolded accounted_def]
  let ?X = "account (ap_topics a) (app_builder a) (ps_events s)"
  have "app_account a \<subseteq> ?X"
    using poll_step_events [OF assms(2)] account_mono by (fastforce simp: app_account_def)
  moreover have "speaks E lg (ap_topics a) (app_builder a) (app_account a) (pr_world (ps_poller s))"
    using polled_speaks [OF assms(2)] i covers_account by (simp add: app_account_def)
  ultimately have "speaks E lg (ap_topics a) (app_builder a) ?X (pr_world (ps_poller s))" using speaks_mono by blast
  moreover have "wired E (on_polls (\<lambda>_. s) a)"
    using i poll_step_subs [OF assms(2)] by (simp add: wired_def)
  ultimately show ?thesis
    using i poll_step_inv [OF assms(2)] by (simp add: accounted_def app_account_def app_builder_def)
qed

lemma ticked_accounted:
  assumes "accounted E lg a"
  shows "accounted E lg (a\<lparr>ap_avail := tick (app_clock E) (ap_avail a)\<rparr>)"
proof -
  note i = assms [unfolded accounted_def]
  then have w: "wired E a" by simp
  define n where "n = snd (av_now (app_clock E) (app_polls a))"
  have n: "speaks E lg (ap_topics a) (app_builder a) (app_account a) (pr_world (ps_poller n))" using i by (simp add: n_def)
  have "speaks E lg (ap_topics a) (app_builder a) (app_account a)
      (pr_world (ps_poller (am_world (tick (app_clock E) (ap_avail a)))))"
    using tick_cases [OF w n_def] n speaks_availability [OF n] by auto
  moreover have "poll_inv (am_world (tick (app_clock E) (ap_avail a))) = poll_inv (app_polls a)"
    "ps_events (am_world (tick (app_clock E) (ap_avail a))) = ps_events (app_polls a)"
    using tick_cases [OF w n_def] by (auto simp: n_def)
  moreover have "wired E (a\<lparr>ap_avail := tick (app_clock E) (ap_avail a)\<rparr>)"
    using app_step_wired [OF app_step.ticked w] by simp
  ultimately show ?thesis by (intro accounted_frame [OF assms]) simp_all
qed

lemma app_step_accounted: "app_step E W a b \<Longrightarrow> accounted E lg a \<Longrightarrow> accounted E lg b"
proof (induction rule: app_step.induct)
  case (polled a s)
  then show ?case by (simp add: polled_accounted)
next
  case (mqtt a e)
  then show ?case by (rule mqtt_event_accounted)
next
  case (bus a d)
  show ?case by (rule accounted_frame [OF bus(2)]) (use bus(2) in \<open>simp_all add: accounted_def\<close>)
next
  case (ticked a)
  then show ?case by (rule ticked_accounted)
next
  case (supervised a s)
  have "wired E (set_system s a)" using supervised by (simp add: accounted_def wired_def)
  then show ?case
    by (intro accounted_frame [OF supervised(2)]) (use supervised(2) in \<open>simp_all add: accounted_def speaks_def said_def\<close>)
next
  case (outside a w)
  show ?case by (rule accounted_frame [OF outside(2)]) (use outside(2) in \<open>simp_all add: accounted_def\<close>)
qed

lemma app_run_accounted: "(app_step E W)\<^sup>*\<^sup>* a b \<Longrightarrow> accounted E lg a \<Longrightarrow> accounted E lg b"
  by (induction rule: rtranclp_induct) (auto intro: app_step_accounted)

end
