(* ===== verification/AppGuarantees.thy ===== *)
theory AppGuarantees
  imports AppMessages
begin

text \<open>
  From the constructor to any later state: the start-up keeps the account of the messages, registers the
  five subscriptions, and announces the device before the first poll; what the registers of the
  controller can become; what a birth message of Home Assistant and the shutdown make the application do.
\<close>

subsection \<open>Start-up and the broker\<close>

lemma mq_Subscribe_frame:
  "mq_Subscribe M t h q = (e, q') \<Longrightarrow> mqc_topics q' = mqc_topics q \<and> mqc_client q' = mqc_client q \<and> mqc_connected q' = mqc_connected q
     \<and> (log_law M lg \<longrightarrow> published (lg (mqc_world q')) = published (lg (mqc_world q)))"
  by (auto simp: mq_Subscribe_def log_law_def Let_def case_prod_unfold split: option.splits if_splits token.splits)

lemma subscribe_all_frame:
  "subscribe_all (\<lambda>t h. mq_Subscribe M t (Some (w h))) b hs q = (e, q') \<Longrightarrow>
    mqc_topics q' = mqc_topics q \<and> mqc_client q' = mqc_client q \<and> mqc_connected q' = mqc_connected q
    \<and> (log_law M lg \<longrightarrow> published (lg (mqc_world q')) = published (lg (mqc_world q)))"
proof (induction hs arbitrary: q)
  case (Cons oh hs)
  obtain oid h where oh: "oh = (oid, h)" by (cases oh)
  obtain x q1 where 1: "mq_Subscribe M (Topic_Command b oid) (Some (w h)) q = (x, q1)" by fastforce
  from mq_Subscribe_frame [OF 1, of lg] Cons show ?case by (auto simp: oh 1 split: option.splits)
qed simp

lemma boot_call_said:
  assumes "f \<in> boot_calls E a" and "f q = (None, q')"
  shows "mqc_topics q' = mqc_topics q \<and> mqc_client q' = mqc_client q \<and> mqc_connected q' = mqc_connected q
    \<and> (log_law (ae_mqtt E) lg \<longrightarrow> published (lg (mqc_world q')) = published (lg (mqc_world q)))"
proof -
  consider "f = CommandSubscriber_Start (\<lambda>t h. mq_Subscribe (ae_mqtt E) t (Some (CommandTopic h))) (ap_topics a)"
    | "f = HAStatusListener_Start (\<lambda>t h. mq_Subscribe (ae_mqtt E) t (Some h)) HAStatusTopic (ap_haStatus a)"
    using assms(1) by (auto simp: boot_calls_def)
  then show ?thesis
  proof cases
    case 1
    with assms(2) show ?thesis
      using subscribe_all_frame [of "ae_mqtt E" CommandTopic "ap_topics a" subscriptions q None q' lg]
      by (simp add: CommandSubscriber_Start_def)
  next
    case 2
    with assms(2) show ?thesis
      by (auto simp: HAStatusListener_Start_def split: prod.splits option.splits
          dest: mq_Subscribe_frame [where lg = lg])
  qed
qed

lemma mq_Connect_said:
  "mq_Connect M q = (e, q') \<Longrightarrow> mqc_topics q' = mqc_topics q \<and> mqc_client q' \<and> mqc_connected q' = mqc_connected q
     \<and> (log_law M lg \<longrightarrow> lg (mqc_world q') = lg (mqc_world q))"
  by (auto simp: mq_Connect_def log_law_def Let_def case_prod_unfold split: token.splits option.splits)

lemma boot_speaks:
  assumes "boot_mqtt E evs a = Inr b" and "wired E a" and "poll_inv (app_polls a)"
    and "speaks E lg (ap_topics a) B X (app_world a)" and "covers (ap_topics a) B (ps_events (app_polls a)) X"
  shows "poll_inv (app_polls b) \<and> ps_events (app_polls b) = ps_events (app_polls a)
    \<and> pr_latest (ps_poller (app_polls b)) = pr_latest (ps_poller (app_polls a))
    \<and> speaks E lg (ap_topics a) B X (app_world b)"
proof -
  let ?P = "\<lambda>x. wired E x \<and> ap_topics x = ap_topics a \<and> poll_inv (app_polls x) \<and> ps_events (app_polls x) = ps_events (app_polls a)
    \<and> pr_latest (ps_poller (app_polls x)) = pr_latest (ps_poller (app_polls a))
    \<and> speaks E lg (ap_topics a) B X (app_world x)"
  have L: "log_law (ae_mqtt E) lg" using assms(4) by (simp add: speaks_def)
  have "?P b"
  proof (rule boot_invariant [OF assms(1), where P = ?P])
    show "?P a" using assms by simp
    show "?P (mqtt_event E e x)" if "?P x" for e x
      using that mqtt_event_polls [of E x e] mqtt_event_speaks [of E x lg B X e] assms(5)
      by (simp add: mqtt_event_wired)
    have "''unknown'' \<in> firmwares (ps_events (app_polls a))" by (simp add: firmwares_def)
    then have "set (configs_sent B ''unknown'') \<subseteq> X" using assms(5) by (simp add: covers_def)
    then show "?P (on_polls (on_world (publish_discovery E ''unknown'')) x)" if "?P x" for x
      using that speaks_discovery [of E lg "ap_topics a" B X "app_world x" "''unknown''"] by simp
    show "?P (on_polls (on_world (on_mqtt (\<lambda>_. q))) a)" if "mq_Connect (ae_mqtt E) (aw_mqtt (app_world a)) = (None, q)" for q
      using mq_Connect_said [OF that, of lg] L assms by (simp add: speaks_def said_def)
    show "?P (on_polls (on_world (on_mqtt (\<lambda>_. q))) x)"
      if "f \<in> boot_calls E x" "f (aw_mqtt (app_world x)) = (None, q)" "?P x" for f x q
      using boot_call_said [OF that(1,2), of lg] L that(3) by (simp add: speaks_def said_def)
  qed
  then show ?thesis by simp
qed

lemma start_polls: "pr_latest p = zero_Snapshot \<Longrightarrow> poll_inv (poll_start p) \<and> ps_events (poll_start p) = []"
  by (simp add: poll_inv_start) (simp add: poll_start_def)

text \<open>The state in which \<open>Run\<close> begins with the MQTT side.\<close>

lemma Run_boot:
  assumes "New E cfg mw qw = Some a0" and "Run E evs a0 = Some (Inr a)"
  obtains a1 where "boot_mqtt E evs a1 = Inr a" and "wired E a1" and "ap_cfg a1 = cfg"
    and "NewTopicBuilder (cf_HomeAssistant cfg) = Some (ap_topics a1)"
    and "aw_mqtt (app_world a1) = NewMqttClient (cf_MQTT cfg) (ap_topics a1) metrics0 qw"
    and "pd_builder (aw_discovery (app_world a1)) = NewBuilder (ap_topics a1) (cf_HomeAssistant cfg)"
    and "poll_inv (app_polls a1)" and "ps_events (app_polls a1) = []"
    and "hs_topic (ap_haStatus a1) = haStatusTopic cfg" and "am_isOffline (ap_avail a1)"
proof -
  obtain c bo where b: "boot_mqtt E evs (on_polls (on_world (on_disp (\<lambda>d. d\<lparr>ds_client := c\<rparr>))) (a0\<lparr>ap_backoff := bo\<rparr>)) = Inr a"
    by (rule Run_parts [OF assms(2)])
  have w: "wired E (a0\<lparr>ap_backoff := bo\<rparr>) = wired E a0" by (simp add: wired_def)
  note n = New_parts [OF assms(1)]
  obtain p where p: "app_polls a0 = poll_start p" "pr_latest p = zero_Snapshot" using n by blast
  show ?thesis
    by (rule that [OF b]) (use n p start_polls [OF p(2)] in \<open>simp_all add: w NewPublishDiscovery_def\<close>)
qed

lemma Run_speaks:
  assumes "New E cfg mw qw = Some a0" and "Run E evs a0 = Some (Inr a)" and "log_law (ae_mqtt E) lg"
    and "published (lg qw) = []" and "covers (ap_topics a) (app_builder a) [] X"
  shows "wired E a \<and> ap_cfg a = cfg \<and> NewTopicBuilder (cf_HomeAssistant cfg) = Some (ap_topics a)
    \<and> poll_inv (app_polls a) \<and> ps_events (app_polls a) = [] \<and> speaks E lg (ap_topics a) (app_builder a) X (app_world a)"
proof -
  obtain a1 where b: "boot_mqtt E evs a1 = Inr a" "wired E a1" "ap_cfg a1 = cfg"
    "NewTopicBuilder (cf_HomeAssistant cfg) = Some (ap_topics a1)"
    "aw_mqtt (app_world a1) = NewMqttClient (cf_MQTT cfg) (ap_topics a1) metrics0 qw"
    "pd_builder (aw_discovery (app_world a1)) = NewBuilder (ap_topics a1) (cf_HomeAssistant cfg)"
    "poll_inv (app_polls a1)" "ps_events (app_polls a1) = []"
    by (rule Run_boot [OF assms(1,2)])
  note k = boot_wired [OF b(1,2)]
  have B: "app_builder a = NewBuilder (ap_topics a1) (cf_HomeAssistant cfg)" using k b(3) by (simp add: app_builder_def)
  have "speaks E lg (ap_topics a1) (app_builder a) X (app_world a1)"
    using b assms(3,4) by (simp add: speaks_def said_def NewMqttClient_def B)
  from boot_speaks [OF b(1,2,7) this] k assms(5) b show ?thesis by simp
qed

lemma Run_accounted:
  assumes "New E cfg mw qw = Some a0" and "Run E evs a0 = Some (Inr a)" and "log_law (ae_mqtt E) lg"
    and "published (lg qw) = []"
  shows "accounted E lg a \<and> ap_cfg a = cfg \<and> NewTopicBuilder (cf_HomeAssistant cfg) = Some (ap_topics a)"
  using Run_speaks [OF assms covers_account] by (simp add: accounted_def app_account_def)

subsection \<open>The five subscriptions\<close>

definition app_subs :: "TopicBuilder \<Rightarrow> string \<Rightarrow> string \<rightharpoonup> AppHandler" where
  "app_subs topics status =
     (Map.empty(map (\<lambda>(oid, h). Topic_Command topics oid) subscriptions [\<mapsto>]
        map (\<lambda>(oid, h). CommandTopic h) subscriptions))(status \<mapsto> HAStatusTopic)"

definition subs_kept :: "(AppHandler, 'q) MqttClient \<Rightarrow> (AppHandler, 'q) MqttClient \<Rightarrow> bool" where
  "subs_kept q q' \<longleftrightarrow> mqc_subs q' = mqc_subs q \<and> mqc_client q' = mqc_client q \<and> mqc_topics q' = mqc_topics q"

lemma same_subs: "mq_same q q' \<Longrightarrow> subs_kept q q'"
  by (simp add: mq_same_def subs_kept_def)

lemma subs_kept_trans: "subs_kept q r \<Longrightarrow> subs_kept r s \<Longrightarrow> subs_kept q s"
  by (simp add: subs_kept_def)

lemma ha_same: "mq_same (aw_mqtt (pr_world (ps_poller s))) (aw_mqtt (pr_world (ps_poller (ha_online E topics s))))"
proof -
  define fw where "fw = (if IsZero (sn_PolledAt (Poller_Snapshot (ps_poller s))) then ''unknown''
    else Firmware_String (sn_Firmware (Poller_Snapshot (ps_poller s))))"
  let ?w = "pr_world (ps_poller s)"
  have "mq_same (aw_mqtt ?w) (aw_mqtt (publish_discovery E fw ?w))" by (rule discovery_same)
  moreover have "mq_same (aw_mqtt (publish_discovery E fw ?w))
      (aw_mqtt (state_callback E topics (Poller_Snapshot (ps_poller s)) (publish_discovery E fw ?w)))" by (rule state_same)
  ultimately show ?thesis using mq_same_trans by (auto simp: ha_online_def Let_def fw_def)
qed

interpretation same_world: poller_world "app_poller_env E" "app_poll E" "[state_callback E topics]" "\<lambda>_. True"
  "\<lambda>w. mq_same q (aw_mqtt w)" for E topics q
  by unfold_locales (auto intro: mq_same_trans [OF _ state_same])

lemma mqtt_event_subs:
  assumes "wired E a"
  shows "subs_kept (aw_mqtt (app_world a)) (aw_mqtt (app_world (mqtt_event E e a)))"
proof (rule mqtt_event_cases [OF assms, of e])
  assume "app_polls (mqtt_event E e a) = ha_online E (ap_topics a) (app_polls a)"
  then show ?thesis using same_subs [OF ha_same] by simp
qed (simp_all add: subs_kept_def)

lemma app_step_subs:
  "app_step E W a b \<Longrightarrow> wired E a \<Longrightarrow> subs_kept (aw_mqtt (app_world a)) (aw_mqtt (app_world b))"
proof (induction rule: app_step.induct)
  case (polled a s)
  then have "mq_same (aw_mqtt (app_world a)) (aw_mqtt (pr_world (ps_poller s)))"
    by (intro same_world.stepped [OF polled(1)]) (simp_all add: wired_def)
  then show ?case using same_subs by simp
next
  case (mqtt a e)
  then show ?case by (rule mqtt_event_subs)
next
  case (ticked a)
  define n where "n = snd (av_now (app_clock E) (app_polls a))"
  have "aw_mqtt (pr_world (ps_poller n)) = aw_mqtt (app_world a)" by (simp add: n_def)
  then have "mq_same (aw_mqtt (app_world a)) (aw_mqtt (pr_world (ps_poller (am_world (tick (app_clock E) (ap_avail a))))))"
    using tick_cases [OF ticked n_def] availability_same [of n E "ap_topics a"] by auto
  then show ?case using same_subs by simp
qed (simp_all add: subs_kept_def)

lemma app_run_subs:
  assumes "(app_step E W)\<^sup>*\<^sup>* a b" and "wired E a"
  shows "wired E b \<and> subs_kept (aw_mqtt (app_world a)) (aw_mqtt (app_world b))"
  using assms(1)
proof (induction rule: rtranclp_induct)
  case (step b c)
  then show ?case
    using subs_kept_trans [OF _ app_step_subs [OF step.hyps(2)]] app_step_wired [OF step.hyps(2)] by blast
qed (use assms(2) in \<open>simp add: subs_kept_def\<close>)

lemma mqtt_events_subs:
  assumes "wired E a"
  shows "wired E (mqtt_events E es a) \<and> subs_kept (aw_mqtt (app_world a)) (aw_mqtt (app_world (mqtt_events E es a)))"
proof (rule mqtt_events_induct [where P = "\<lambda>x. wired E x \<and> subs_kept (aw_mqtt (app_world a)) (aw_mqtt (app_world x))"])
  show "wired E a \<and> subs_kept (aw_mqtt (app_world a)) (aw_mqtt (app_world a))"
    using assms by (simp add: subs_kept_def)
  show "wired E (mqtt_event E e x) \<and> subs_kept (aw_mqtt (app_world a)) (aw_mqtt (app_world (mqtt_event E e x)))"
    if "wired E x \<and> subs_kept (aw_mqtt (app_world a)) (aw_mqtt (app_world x))" for e x
    using that subs_kept_trans [OF _ mqtt_event_subs] mqtt_event_wired by blast
qed

lemma boot_subs:
  assumes "boot_mqtt E evs a = Inr b" and "wired E a" and "mqc_subs (aw_mqtt (app_world a)) = Map.empty"
  shows "mqc_subs (aw_mqtt (app_world b)) = app_subs (ap_topics a) (hs_topic (ap_haStatus a)) \<and> mqc_client (aw_mqtt (app_world b))"
proof -
  let ?M = "ae_mqtt E"
  obtain a1 a2 a3 a4 where 1: "boot_step ''mqtt initial connect'' (mq_Connect ?M) a = Inr a1"
    and a2: "a2 = on_polls (on_world (publish_discovery E ''unknown'')) (mqtt_events E (evs 0) a1)"
    and 3: "boot_step ''command subscriber start'' (CommandSubscriber_Start
        (\<lambda>t h. mq_Subscribe ?M t (Some (CommandTopic h))) (ap_topics a2)) (mqtt_events E (evs 1) a2) = Inr a3"
    and 4: "boot_step ''ha status listener start'' (HAStatusListener_Start (\<lambda>t h. mq_Subscribe ?M t (Some h))
        HAStatusTopic (ap_haStatus a3)) (mqtt_events E (evs 2) a3) = Inr a4"
    and b: "b = mqtt_events E (evs 3) a4"
    using assms(1) unfolding boot_mqtt_def case_sum_Inr Let_def by auto
  define q where "q x = aw_mqtt (app_world x)" for x :: "('a, 'b) App"
  note bs = boot_step_Inr [THEN iffD1]
  have w1: "wired E a1" "mqc_subs (q a1) = Map.empty" "mqc_client (q a1)" "ap_topics a1 = ap_topics a" "ap_haStatus a1 = ap_haStatus a"
    using bs [OF 1] assms(2,3)
    by (auto simp: q_def mq_Connect_def Let_def case_prod_unfold split: token.splits option.splits)
  have w2: "wired E a2" "mqc_subs (q a2) = Map.empty" "mqc_client (q a2)" "ap_topics a2 = ap_topics a" "ap_haStatus a2 = ap_haStatus a"
    using mqtt_events_subs [OF w1(1), of "evs 0"] w1 discovery_same [of _ E "''unknown''"]
    by (simp_all add: a2 q_def subs_kept_def mq_same_def)
  note e2 = mqtt_events_subs [OF w2(1), of "evs 1"]
  obtain q3 where q3: "CommandSubscriber_Start (\<lambda>t h. mq_Subscribe ?M t (Some (CommandTopic h))) (ap_topics a)
      (q (mqtt_events E (evs 1) a2)) = (None, q3)" "a3 = on_polls (on_world (on_mqtt (\<lambda>_. q3))) (mqtt_events E (evs 1) a2)"
    using bs [OF 3] w2(4) by (auto simp: q_def)
  note s3 = subscribe_all_subs [OF q3(1) [unfolded CommandSubscriber_Start_def]]
  note e3 = mqtt_events_subs [of E a3 "evs 2"]
  obtain q4 where q4: "mq_Subscribe ?M (hs_topic (ap_haStatus a)) (Some HAStatusTopic) (q (mqtt_events E (evs 2) a3)) = (None, q4)"
    "a4 = on_polls (on_world (on_mqtt (\<lambda>_. q4))) (mqtt_events E (evs 2) a3)"
    using bs [OF 4] w2(5) by (auto simp: q_def q3(2) HAStatusListener_Start_def split: prod.splits option.splits)
  note s4 = mq_Subscribe_subs [OF q4(1)]
  note e4 = mqtt_events_subs [of E a4 "evs 3"]
  have w3: "wired E a3" using e2 by (simp add: q3(2))
  then have w4: "wired E a4" using e3 by (simp add: q4(2))
  have "mqc_client q3"
    using subscribe_all_frame [OF q3(1) [unfolded CommandSubscriber_Start_def]] e2 w2(3) by (simp add: q_def subs_kept_def)
  then have "mqc_client q4"
    using mq_Subscribe_frame [OF q4(1)] e3 [OF w3] by (simp add: q_def q3(2) subs_kept_def)
  then show ?thesis
    using e2 e3 [OF w3] e4 [OF w4] s3 s4 w2(2) by (simp add: b q_def app_subs_def subs_kept_def q3(2) q4(2))
qed

subsection \<open>Before the first poll\<close>

text \<open>The retained message of a topic is the last one.\<close>

definition retained_value :: "(string \<times> string \<times> bool) list \<Rightarrow> string \<Rightarrow> string option" where
  "retained_value msgs t =
     (let ms = filter (\<lambda>(t', p, r). t' = t \<and> r) msgs in if ms = [] then None else Some (fst (snd (last ms))))"

lemma retained_snoc [simp]:
  "retained_value (msgs @ [(t', p, r)]) t = (if t' = t \<and> r then Some p else retained_value msgs t)"
  by (simp add: retained_value_def)

lemma retained_only:
  assumes "(t, p, True) \<in> set msgs" and "\<forall>p' r. (t, p', r) \<in> set msgs \<longrightarrow> p' = p"
  shows "retained_value msgs t = Some p"
proof -
  let ?ms = "filter (\<lambda>(t', p, r). t' = t \<and> r) msgs"
  have ms: "?ms \<noteq> []" using assms(1) by (auto simp: filter_empty_conv)
  obtain t' p' r where l: "last ?ms = (t', p', r)" by (cases "last ?ms")
  have "(t', p', r) \<in> set ?ms" using last_in_set [OF ms] by (simp only: l)
  then have "p' = p" using assms(2) by auto
  then have "fst (snd (last ?ms)) = p" by (simp only: l fst_conv snd_conv)
  with ms show ?thesis by (simp add: retained_value_def)
qed

definition only_online :: "TopicBuilder \<Rightarrow> (string \<times> string \<times> bool) set" where
  "only_online topics = {(t, p, r). t = Topic_Availability topics \<longrightarrow> p = AvailabilityOnline}"

lemma configs_not_availability: "(t, p, r) \<in> set (configs_sent b fw) \<Longrightarrow> t \<noteq> Topic_Availability topics"
proof -
  have g: "last (Topic_Discovery x c o') = CHR ''g''" for x c o' by (simp add: topic_defs)
  have y: "last (Topic_Availability topics) = CHR ''y''" by (simp add: topic_defs)
  assume "(t, p, r) \<in> set (configs_sent b fw)"
  then obtain x c o' where "t = Topic_Discovery x c o'" by (auto simp: configs_sent_def message_of_def)
  then have "last t = CHR ''g''" by (simp only: g)
  with y show "t \<noteq> Topic_Availability topics" by auto
qed

lemma messages_not_availability: "(t, p, r) \<in> set (messages_of topics m) \<Longrightarrow> t \<noteq> Topic_Availability topics"
  by (auto simp: messages_of_def buildMessages_def state_msg_def)

lemma covers_only_online: "covers topics b evs (only_online topics)"
  using configs_not_availability messages_not_availability by (fastforce simp: covers_def only_online_def)

text \<open>\<open>announced_up\<close>: a client that is connected has announced the device.\<close>

definition announced_up :: "('q \<Rightarrow> AppHandler broker_event list) \<Rightarrow> TopicBuilder \<Rightarrow> ('m, 'q) AppWorld \<Rightarrow> bool" where
  "announced_up lg topics w \<longleftrightarrow> mqc_client (aw_mqtt w)
     \<and> (mqc_connected (aw_mqtt w) \<longrightarrow> (Topic_Availability topics, AvailabilityOnline, True) \<in> set (said lg w))"

lemma announced_same:
  "announced_up lg topics w \<Longrightarrow> mq_same (aw_mqtt w) (aw_mqtt w') \<Longrightarrow> set (said lg w) \<subseteq> set (said lg w')
     \<Longrightarrow> announced_up lg topics w'"
  by (auto simp: announced_up_def mq_same_def)

text \<open>\<open>silent\<close>: no poll has succeeded, and the manager has had no reason to speak.\<close>

definition silent :: "('m, 'q) AppEnv \<Rightarrow> ('q \<Rightarrow> AppHandler broker_event list) \<Rightarrow> ('m, 'q) App \<Rightarrow> bool" where
  "silent E lg a \<longleftrightarrow> wired E a \<and> poll_inv (app_polls a) \<and> am_isOffline (ap_avail a)
     \<and> speaks E lg (ap_topics a) (app_builder a) (only_online (ap_topics a)) (app_world a)
     \<and> announced_up lg (ap_topics a) (app_world a)"

lemma app_step_events:
  "app_step E W a b \<Longrightarrow> wired E a \<Longrightarrow> ps_events (app_polls b) = [] \<Longrightarrow> ps_events (app_polls a) = []"
proof (induction rule: app_step.induct)
  case (polled a s)
  then show ?case using poll_step_events [OF polled(1)] by auto
next
  case (mqtt a e)
  then show ?case using mqtt_event_polls [OF mqtt(1), of e] by simp
next
  case (ticked a)
  then show ?case using tick_cases [OF ticked(1) HOL.refl] by auto
qed simp_all

lemma unpolled_latest: "poll_inv s \<Longrightarrow> ps_events s = [] \<Longrightarrow> Poller_Snapshot (ps_poller s) = zero_Snapshot"
  by (simp add: poll_inv_def Poller_Snapshot_def merge_all_def)

lemma unpolled_tick:
  assumes "av_snapshot E (am_world a) = zero_Snapshot" and "am_isOffline a"
  shows "tick E a = a\<lparr>am_world := snd (av_now E (am_world a))\<rparr>"
  using assms by (simp add: tick_def case_prod_unfold zero_Snapshot_def IsZero_def)

interpretation announced_world: poller_world "app_poller_env E" "app_poll E" "[state_callback E topics']" "\<lambda>_. True"
  "\<lambda>w. log_law (ae_mqtt E) lg \<and> announced_up lg topics w" for E topics' topics lg
proof
  fix w :: "('a, 'b) AppWorld" and m :: Snapshot and cb
  assume "log_law (ae_mqtt E) lg \<and> announced_up lg topics w" and "cb \<in> set [state_callback E topics']"
  with state_said [of E lg topics' m w] show "log_law (ae_mqtt E) lg \<and> announced_up lg topics (cb m w)"
    using announced_same [OF _ state_same] by fastforce
qed (simp_all add: announced_up_def said_def)

lemma discovery_announced:
  "log_law (ae_mqtt E) lg \<Longrightarrow> announced_up lg topics w \<Longrightarrow> announced_up lg topics (publish_discovery E fw w)"
  using discovery_said [of E lg fw w] announced_same [OF _ discovery_same] by fastforce

lemma state_announced:
  "log_law (ae_mqtt E) lg \<Longrightarrow> announced_up lg topics w \<Longrightarrow> announced_up lg topics (state_callback E topics' m w)"
  using state_said [of E lg topics' m w] announced_same [OF _ state_same] by fastforce

lemma mqtt_event_announced:
  assumes "wired E a" and "log_law (ae_mqtt E) lg" and "announced_up lg (ap_topics a) (app_world a)"
    and "mqc_topics (aw_mqtt (app_world a)) = ap_topics a"
  shows "announced_up lg (ap_topics a) (app_world (mqtt_event E e a))"
proof (rule mqtt_event_cases [OF assms(1), of e])
  fix order assume "e = LinkUp order"
  then show ?thesis using assms(3,4) onConnect_said [OF assms(2)] by (simp add: announced_up_def said_def)
next
  assume "e = LinkDown"
  then show ?thesis using assms(3) by (simp add: announced_up_def onConnectionLost_def)
next
  assume "app_polls (mqtt_event E e a) = ha_online E (ap_topics a) (app_polls a)"
  then show ?thesis
    using discovery_announced [OF assms(2,3)] state_announced [OF assms(2)] by (simp add: ha_online_def Let_def)
qed (use assms(3) in \<open>simp_all add: announced_up_def said_def\<close>)

lemma app_step_silent:
  "app_step E W a b \<Longrightarrow> ps_events (app_polls b) = [] \<Longrightarrow> silent E lg a \<Longrightarrow> silent E lg b"
proof (induction rule: app_step.induct)
  case (polled a s)
  note i = polled(3) [unfolded silent_def]
  have w: "wired E (on_polls (\<lambda>_. s) a)" using app_step_wired [OF app_step.polled [OF polled(1)]] i by blast
  have "speaks E lg (ap_topics a) (app_builder a) (only_online (ap_topics a)) (pr_world (ps_poller s))"
    using polled_speaks [OF polled(1)] i covers_only_online by simp
  moreover have "log_law (ae_mqtt E) lg \<and> announced_up lg (ap_topics a) (pr_world (ps_poller s))"
    by (rule announced_world.stepped [OF polled(1), where topics' = "ap_topics a"])
      (use i speaks_law in \<open>auto simp: wired_def\<close>)
  ultimately show ?case using i w poll_step_inv [OF polled(1)] by (simp add: silent_def app_builder_def)
next
  case (mqtt a e)
  from mqtt(2) have i: "wired E a" "poll_inv (app_polls a)" "am_isOffline (ap_avail a)"
    "speaks E lg (ap_topics a) (app_builder a) (only_online (ap_topics a)) (app_world a)"
    "announced_up lg (ap_topics a) (app_world a)"
    by (simp_all add: silent_def)
  have "speaks E lg (ap_topics a) (app_builder a) (only_online (ap_topics a)) (app_world (mqtt_event E e a))"
    by (rule mqtt_event_speaks [OF i(1,2,4) covers_only_online])
  moreover have "announced_up lg (ap_topics a) (app_world (mqtt_event E e a))"
    by (rule mqtt_event_announced [OF i(1) speaks_law [OF i(4)] i(5)]) (use i(4) in \<open>simp add: speaks_def\<close>)
  ultimately show ?case
    using i mqtt_event_polls [OF i(1)] mqtt_event_wired [OF i(1)] by (simp add: silent_def app_builder_def)
next
  case (ticked a)
  from ticked(2) have i: "wired E a" "poll_inv (app_polls a)" "am_isOffline (ap_avail a)" by (simp_all add: silent_def)
  have "ps_events (app_polls a) = []" using app_step_events [OF app_step.ticked i(1) ticked(1)] .
  then have "av_snapshot (app_clock E) (app_polls a) = zero_Snapshot"
    using unpolled_latest [OF i(2)] by (simp add: app_clock_def)
  note t = unpolled_tick [OF this i(3)]
  have "wired E (a\<lparr>ap_avail := tick (app_clock E) (ap_avail a)\<rparr>)" using app_step_wired [OF app_step.ticked i(1)] by simp
  then show ?case using ticked(2) by (simp add: silent_def t app_builder_def said_def announced_up_def)
next
  case (supervised a s)
  then have "wired E (set_system s a)" by (simp add: silent_def wired_def)
  then show ?case using supervised(3) by (simp add: silent_def speaks_def said_def app_builder_def announced_up_def)
next
  case (outside a w)
  then show ?case by (simp add: silent_def app_builder_def said_def announced_up_def)
next
  case (bus a d)
  then show ?case by (simp add: silent_def app_builder_def said_def announced_up_def)
qed

lemma app_run_silent:
  assumes "(app_step E W)\<^sup>*\<^sup>* a b" and "silent E lg a" and "ps_events (app_polls b) = []"
  shows "silent E lg b"
  using assms(1,3)
proof (induction rule: rtranclp_induct)
  case (step b c)
  have "wired E b" using app_run_subs [OF step.hyps(1)] assms(2) by (simp add: silent_def)
  from step.IH [OF app_step_events [OF step.hyps(2) this step.prems]] show ?case
    by (rule app_step_silent [OF step.hyps(2) step.prems])
qed (use assms(2) in simp)

lemma Run_silent:
  assumes "New E cfg mw qw = Some a0" and "Run E evs a0 = Some (Inr a)" and "log_law (ae_mqtt E) lg"
    and "published (lg qw) = []"
  shows "silent E lg a"
proof -
  obtain a1 where b: "boot_mqtt E evs a1 = Inr a" "wired E a1"
    "aw_mqtt (app_world a1) = NewMqttClient (cf_MQTT cfg) (ap_topics a1) metrics0 qw" "am_isOffline (ap_avail a1)"
    by (rule Run_boot [OF assms(1,2)])
  let ?P = "\<lambda>x. wired E x \<and> ap_topics x = ap_topics a1 \<and> mqc_topics (aw_mqtt (app_world x)) = ap_topics a1
    \<and> am_isOffline (ap_avail x) \<and> announced_up lg (ap_topics a1) (app_world x)"
  have "?P a"
  proof (rule boot_connected_invariant [OF b(1), where P = ?P])
    fix x assume x: "boot_step ''mqtt initial connect'' (mq_Connect (ae_mqtt E)) a1 = Inr x"
    then show "?P x"
      using b mq_Connect_said [of "ae_mqtt E" "aw_mqtt (app_world a1)" None _ lg]
      by (auto simp: boot_step_Inr announced_up_def NewMqttClient_def)
  next
    fix e x assume "?P x"
    then show "?P (mqtt_event E e x)"
      using mqtt_event_wired [of E x e] mqtt_event_announced [OF _ assms(3), of x e] mqtt_event_subs [of E x e]
      by (simp add: subs_kept_def)
  next
    fix x assume "?P x"
    then show "?P (on_polls (on_world (publish_discovery E ''unknown'')) x)"
      using discovery_announced [OF assms(3)] discovery_same [of "app_world x" E "''unknown''"] by (simp add: mq_same_def)
  next
    fix f x q assume "f \<in> boot_calls E x" "f (aw_mqtt (app_world x)) = (None, q)" and "?P x"
    then show "?P (on_polls (on_world (on_mqtt (\<lambda>_. q))) x)"
      using boot_call_said [of f E x "aw_mqtt (app_world x)" q lg] assms(3) by (simp add: announced_up_def said_def)
  qed
  then show ?thesis using Run_speaks [OF assms covers_only_online] boot_wired [OF b(1,2)] by (simp add: silent_def)
qed

subsection \<open>A birth message of Home Assistant\<close>

lemma state_up:
  assumes "mq_up (ae_mqtt E) lg up (aw_mqtt w)"
  shows "said lg (state_callback E topics m w) = said lg w @ messages_of topics m
    \<and> mq_up (ae_mqtt E) lg up (aw_mqtt (state_callback E topics m w))"
  using mqtt_live.publish_all_up [OF assms, of "map state_labelled (buildMessages topics m)"]
  by (auto simp: said_def state_callback_def PublishState_Apply_def messages_of_def)

lemma discovery_up:
  assumes "mq_up (ae_mqtt E) lg up (aw_mqtt w)"
  shows "said lg (publish_discovery E fw w) = said lg w @ configs_sent (pd_builder (aw_discovery w)) fw
    \<and> mq_up (ae_mqtt E) lg up (aw_mqtt (publish_discovery E fw w))"
  using PublishDiscovery_up [OF assms, of fw "aw_discovery w"]
  by (auto simp: said_def publish_discovery_def)

lemma ha_online_up:
  assumes "mq_up (ae_mqtt E) lg up (aw_mqtt (pr_world (ps_poller s)))" and "m = Poller_Snapshot (ps_poller s)"
  shows "said lg (pr_world (ps_poller (ha_online E topics s))) = said lg (pr_world (ps_poller s))
    @ configs_sent (pd_builder (aw_discovery (pr_world (ps_poller s))))
        (if IsZero (sn_PolledAt m) then ''unknown'' else Firmware_String (sn_Firmware m))
    @ (if IsZero (sn_PolledAt m) then [] else messages_of topics m)"
proof -
  let ?w = "pr_world (ps_poller s)"
  define fw where "fw = (if IsZero (sn_PolledAt m) then ''unknown'' else Firmware_String (sn_Firmware m))"
  note d = discovery_up [OF assms(1), of fw]
  from state_up [OF d [THEN conjunct2], of topics m] d show ?thesis
    by (simp add: ha_online_def Let_def fw_def assms(2) split: if_splits)
qed

lemma app_subs_status: "app_subs topics status status = Some HAStatusTopic"
  by (simp add: app_subs_def)

lemma Run_subs:
  assumes "New E cfg mw qw = Some a0" and "Run E evs a0 = Some (Inr a)" and "(app_step E W)\<^sup>*\<^sup>* a b"
  shows "wired E b \<and> ap_topics b = ap_topics a \<and> mqc_client (aw_mqtt (app_world b))
    \<and> mqc_subs (aw_mqtt (app_world b)) = app_subs (ap_topics b) (haStatusTopic cfg)"
proof -
  obtain a1 where b: "boot_mqtt E evs a1 = Inr a" "wired E a1"
    "aw_mqtt (app_world a1) = NewMqttClient (cf_MQTT cfg) (ap_topics a1) metrics0 qw" "hs_topic (ap_haStatus a1) = haStatusTopic cfg"
    by (rule Run_boot [OF assms(1,2)])
  have "mqc_subs (aw_mqtt (app_world a1)) = Map.empty" by (simp add: b(3) NewMqttClient_def)
  from boot_subs [OF b(1,2) this] boot_wired [OF b(1,2)]
  have a: "wired E a" "ap_topics a = ap_topics a1" "mqc_client (aw_mqtt (app_world a))"
    "mqc_subs (aw_mqtt (app_world a)) = app_subs (ap_topics a1) (haStatusTopic cfg)"
    by (simp_all add: b(4))
  then show ?thesis
    using app_run_subs [OF assms(3) a(1)] app_run_wired [OF assms(3) a(1)] by (simp add: subs_kept_def)
qed

subsection \<open>Shutdown\<close>

lemma shutdown_said:
  assumes "log_law (ae_mqtt E) lg" and "mqc_client (aw_mqtt (app_world a))"
  shows "said lg (app_world (shutdown E a)) = said lg (app_world a)
      @ (if mqc_connected (aw_mqtt (app_world a))
         then [(Topic_Availability (mqc_topics (aw_mqtt (app_world a))), AvailabilityOffline, True)] else [])
    \<and> \<not> mqc_connected (aw_mqtt (app_world (shutdown E a)))
    \<and> \<not> Connected (ds_client (aw_disp (app_world (shutdown E a))))"
proof -
  let ?c = "ds_client (aw_disp (app_world a))"
  have "\<not> Connected (snd (ForceClose (ae_modbus E) ?c))"
    using ForceClose_down [of "ae_modbus E" ?c "fst (ForceClose (ae_modbus E) ?c)" "snd (ForceClose (ae_modbus E) ?c)"]
    by (simp add: Connected_def)
  then show ?thesis
    using assms by (simp add: shutdown_def said_def mq_Disconnect_def Let_def case_prod_unfold log_law_def)
qed

subsection \<open>The registers of the controller\<close>

lemma sup_step_dev:
  assumes "sup_step M oor rng s t" and L: "device_laws M dev" and "quiet rng dev"
  shows "disp_dev dev (sy_disp t) = disp_dev dev (sy_disp s)"
proof -
  have q: "dev (snd (rng w)) = dev w" "dev (snd (me_close M h w)) = dev w" "dev (snd (me_dial M cfg w)) = dev w" for w h cfg
    using assms(2,3) by (simp_all add: device_laws_def quiet_def)
  have delay: "client_dev dev c' = client_dev dev c" if "sv_delay oor rng (c, b) = (dl, c', b')" for c b dl c' b'
    using that q(1) by (auto simp: sv_delay_def Let_def case_prod_unfold split: if_splits)
  have close: "client_dev dev c' = client_dev dev c" if "ForceClose M c = (e, c')" for c e c'
    using that q(2) by (auto simp: ForceClose_def Let_def upd_metrics_def split: if_splits option.splits)
  have connect: "client_dev dev c' = client_dev dev c" if "Connect M c = (e, c')" for c e c'
    using that q(3) [of "cl_cfg c" "cl_world c"]
    by (auto simp: Connect_def upd_metrics_def simp del: WrapError.simps split: if_splits prod.splits sum.splits)
  have attempt: "client_dev dev c' = client_dev dev c" if "sv_attempt M (c, b) = (ok, c', b')" for c b ok c' b'
    using that by (auto simp: sv_attempt_def upd_metrics_def split: prod.splits option.splits dest: connect)
  from assms(1) show ?thesis
  proof (induction rule: sup_step.induct)
    case (force_close s err c dl c' b')
    then show ?case using close [OF force_close(2)] delay [OF force_close(3)] by (simp add: set_client_def disp_dev_def)
  next
    case (reconnected s dl c b)
    then show ?case using attempt [OF reconnected(2)] by (simp add: set_client_def disp_dev_def)
  next
    case (reconnect_failed s dl c b dl' c' b')
    then show ?case
      using attempt [OF reconnect_failed(2)] delay [OF reconnect_failed(3)] by (simp add: set_client_def disp_dev_def)
  qed (simp_all add: disp_dev_def)
qed

definition app_dev :: "('m \<Rightarrow> RegFile) \<Rightarrow> ('m, 'q) App \<Rightarrow> RegFile" where
  "app_dev dev a = disp_dev dev (aw_disp (app_world a))"

interpretation regs_world: poller_world "app_poller_env E" "app_poll E" "[state_callback E topics]" "\<lambda>_. True"
  "\<lambda>w. device_laws (ae_modbus E) dev \<and> disp_dev dev (aw_disp w) = r" for E topics dev r
proof
  fix w :: "('a, 'b) AppWorld" and t
  assume a: "device_laws (ae_modbus E) dev \<and> disp_dev dev (aw_disp w) = r"
  then have L: "device_laws (ae_modbus E) dev" by simp
  obtain n d where "po_Now (poll_ops (ae_modbus E)) (aw_disp w) = (n, d)" by fastforce
  with disp_source.now [OF L this] a show "device_laws (ae_modbus E) dev \<and> disp_dev dev (aw_disp (snd (pe_now (app_poller_env E) w))) = r"
    by simp
  obtain q d' where q: "tier_poll (poll_ops (ae_modbus E)) t (aw_disp w) = (q, d')" by fastforce
  have "disp_dev dev d' = disp_dev dev (aw_disp w)"
    using q by (cases t) (auto dest: disp_source.PollHot_dev [OF L] disp_source.PollMedium_dev [OF L]
        disp_source.PollSlow_dev [OF L])
  with q a show "device_laws (ae_modbus E) dev \<and> disp_dev dev (aw_disp (snd (app_poll E t w))) = r" by simp
qed (simp_all add: disp_dev_def upd_metrics_def)

lemma mqtt_event_within:
  assumes "wired E a" and "device_laws (ae_modbus E) dev"
  shows "within_limits (app_dev dev a) (app_dev dev (mqtt_event E e a))"
proof (cases e)
  case (Arrived topic payload)
  show ?thesis
  proof (cases "mqc_subs (aw_mqtt (app_world a)) topic")
    case (Some h)
    show ?thesis
    proof (cases h)
      case (CommandTopic k)
      then show ?thesis using handle_message_within [OF assms(2)] by (simp add: app_dev_def Arrived Some)
    next
      case HAStatusTopic
      then show ?thesis
        using ha_handle_cases [OF assms(1), of payload "app_polls a"] by (auto simp: app_dev_def Arrived Some)
    qed
  qed (simp add: Arrived)
qed (simp_all add: app_dev_def)

lemma app_step_within:
  assumes "app_step E W a b" and "wired E a" and L: "device_laws (ae_modbus E) dev" and "quiet (ae_rng E) dev"
  shows "within_limits (app_dev dev a) (app_dev dev b) \<or>
    (\<exists>w w'. W w w' \<and> app_dev dev a = dev w \<and> app_dev dev b = dev w')"
  using assms(1)
proof (cases rule: app_step.cases)
  case (polled s)
  have "device_laws (ae_modbus E) dev \<and> disp_dev dev (aw_disp (pr_world (ps_poller s))) = app_dev dev a"
    by (rule regs_world.stepped [OF polled(2), where topics = "ap_topics a"])
      (use assms(2) L in \<open>simp_all add: wired_def app_dev_def\<close>)
  then show ?thesis by (simp add: polled(1) app_dev_def)
next
  case (mqtt e)
  then show ?thesis using mqtt_event_within [OF assms(2) L] by simp
next
  case (bus d)
  then show ?thesis using bus_op_within [OF bus(2) L] by (simp add: app_dev_def)
next
  case ticked
  have "aw_disp (app_world b) = snd (po_Now (poll_ops (ae_modbus E)) (aw_disp (app_world a)))"
    using tick_cases [OF assms(2) HOL.refl] by (auto simp: ticked(1))
  then have "app_dev dev b = app_dev dev a"
    using disp_source.now [OF L] unfolding app_dev_def by (metis prod.collapse)
  then show ?thesis by simp
next
  case (supervised s)
  then show ?thesis using sup_step_dev [OF supervised(2) L assms(4)] by (simp add: app_dev_def app_system_def)
next
  case (outside w)
  then show ?thesis by (auto simp: app_dev_def disp_dev_def)
qed

lemma app_run_within:
  assumes "(app_step E W)\<^sup>*\<^sup>* a b" and "wired E a" and "device_laws (ae_modbus E) dev" and "quiet (ae_rng E) dev"
    and R: "\<And>r r'. within_limits r r' \<Longrightarrow> R r r'" "\<And>w w'. W w w' \<Longrightarrow> R (dev w) (dev w')" "transp R"
  shows "R (app_dev dev a) (app_dev dev b)"
  using assms(1)
proof (induction rule: rtranclp_induct)
  case base
  then show ?case using R(1) by simp
next
  case (step b c)
  have "wired E b" using app_run_wired [OF step.hyps(1) assms(2)] by simp
  from app_step_within [OF step.hyps(2) this assms(3,4)] have "R (app_dev dev b) (app_dev dev c)" using R(1,2) by auto
  then show ?case using step.IH R(3) by (auto elim: transpE)
qed

subsection \<open>A run with a simulated controller and broker\<close>

definition sim_app_env :: "(World, AppHandler broker_event list) AppEnv" where
  "sim_app_env = \<lparr>ae_modbus = sim_env, ae_mqtt = sim_broker, ae_ctxErr = (\<lambda>_. None), ae_rng = sim_rng, ae_oor = oor_amd64\<rparr>"

text \<open>The library calls \<open>onConnect\<close> after everything is registered.\<close>

definition sim_events :: "nat \<Rightarrow> MqttEvent list" where
  "sim_events k = (if k = 3 then [LinkUp []] else [])"

lemma New_Some:
  assumes "ha_DiscoveryPrefix (cf_HomeAssistant cfg) \<noteq> []" and "ha_DevicePrefix (cf_HomeAssistant cfg) \<noteq> []"
    and "0 < pl_HotInterval (cf_Polling cfg)" and "0 < pl_MediumInterval (cf_Polling cfg)" and "0 < pl_SlowInterval (cf_Polling cfg)"
  shows "\<exists>a. New E cfg mw qw = Some a"
  using assms by (simp add: New_def NewTopicBuilder_def NewCommandDispatcher_def NewPoller_def poller_config_def
      commandFailureThreshold_def NewHAStatusListener_def haStatusTopic_def NewHealth_def readinessThreshold_def Second_def)

lemma sim_supervisor:
  "\<exists>c b. supervisor_Start sim_env oor_amd64 sim_rng (NewClient cfg metrics0 (sim_world r []), bo) = Some (Inr (c, b))
     \<and> usable (\<lambda>w. wd_script w = []) c \<and> client_dev wd_dev c = r"
  by (simp add: supervisor_Start_def initialConnect.simps sv_attempt_def Connect_def NewClient_def
      Device.sim_defs sim_world_def usable_def)

lemma boot_step_ok:
  assumes "\<exists>q. f (aw_mqtt (app_world a)) = (None, q)"
  obtains b where "boot_step what f a = Inr b"
  using assms by (auto simp: boot_step_Inr)

lemma sim_boot:
  "\<exists>x. boot_mqtt sim_app_env sim_events a = Inr (mqtt_event sim_app_env (LinkUp []) x)
     \<and> aw_disp (app_world x) = aw_disp (app_world a)"
proof -
  have none [simp]: "mqtt_events E (sim_events k) x = (if k = 3 then mqtt_event E (LinkUp []) x else x)"
    for E :: "('m, 'q) AppEnv" and x k
    by (simp add: mqtt_events_def sim_events_def)
  let ?M = "ae_mqtt sim_app_env"
  have sub: "\<exists>q'. mq_Subscribe ?M t (Some h) q = (None, q')" for t h q
    using sim_subscribe_ok [of t h q] by (simp add: sim_app_env_def)
  obtain a1 where 1: "boot_step ''mqtt initial connect'' (mq_Connect ?M) a = Inr a1"
    by (rule boot_step_ok [of "mq_Connect ?M" a "''mqtt initial connect''"])
      (auto simp: mq_Connect_def sim_app_env_def sim_broker_def)
  define a2 where "a2 = on_polls (on_world (publish_discovery sim_app_env ''unknown'')) a1"
  obtain a3 where 3: "boot_step ''command subscriber start'' (CommandSubscriber_Start
      (\<lambda>t h. mq_Subscribe ?M t (Some (CommandTopic h))) (ap_topics a2)) a2 = Inr a3"
    by (rule boot_step_ok [where what = "''command subscriber start''" and a = a2 and f = "CommandSubscriber_Start
          (\<lambda>t h. mq_Subscribe ?M t (Some (CommandTopic h))) (ap_topics a2)"])
      (use subscribe_all_ok [of "\<lambda>t h. mq_Subscribe ?M t (Some (CommandTopic h))", OF sub]
        in \<open>auto simp: CommandSubscriber_Start_def\<close>)
  obtain a4 where 4: "boot_step ''ha status listener start'' (HAStatusListener_Start (\<lambda>t h. mq_Subscribe ?M t (Some h))
      HAStatusTopic (ap_haStatus a3)) a3 = Inr a4"
  proof (rule boot_step_ok [where what = "''ha status listener start''" and a = a3 and f = "HAStatusListener_Start
        (\<lambda>t h. mq_Subscribe ?M t (Some h)) HAStatusTopic (ap_haStatus a3)"])
    obtain q where "mq_Subscribe ?M (hs_topic (ap_haStatus a3)) (Some HAStatusTopic) (aw_mqtt (app_world a3)) = (None, q)"
      using sub by blast
    then show "\<exists>q. HAStatusListener_Start (\<lambda>t h. mq_Subscribe ?M t (Some h)) HAStatusTopic (ap_haStatus a3)
        (aw_mqtt (app_world a3)) = (None, q)"
      by (simp add: HAStatusListener_Start_def)
  qed
  have "aw_disp (app_world a4) = aw_disp (app_world a)" using 1 3 4 by (auto simp: boot_step_Inr a2_def)
  with 1 3 4 show ?thesis by (auto simp: boot_mqtt_def case_sum_Inr a2_def Let_def)
qed

lemma sim_app:
  "\<exists>a0 a. New sim_app_env default_config (sim_world r []) [] = Some a0
     \<and> Run sim_app_env sim_events a0 = Some (Inr a) \<and> mqc_connected (aw_mqtt (app_world a))
     \<and> disp_up (ae_modbus sim_app_env) wd_dev (\<lambda>w. wd_script w = []) (aw_disp (app_world a)) \<and> app_dev wd_dev a = r"
proof -
  obtain a0 where n: "New sim_app_env default_config (sim_world r []) [] = Some a0"
    using New_Some [of default_config sim_app_env "sim_world r []" "[]"] by (auto simp: default_config_def Second_def)
  have "ds_client (aw_disp (app_world a0)) = NewClient (cf_Modbus default_config) metrics0 (sim_world r [])"
    using New_parts [OF n] by (simp add: app_system_def init_system_def)
  then obtain c b where s: "supervisor_Start (ae_modbus sim_app_env) (ae_oor sim_app_env) (ae_rng sim_app_env)
      (ds_client (aw_disp (app_world a0)), ap_backoff a0) = Some (Inr (c, b))"
    and u: "usable (\<lambda>w. wd_script w = []) c" "client_dev wd_dev c = r"
    using sim_supervisor [of "cf_Modbus default_config" r "ap_backoff a0"] by (auto simp: sim_app_env_def)
  obtain x where x: "boot_mqtt sim_app_env sim_events (on_polls (on_world (on_disp (\<lambda>d. d\<lparr>ds_client := c\<rparr>)))
      (a0\<lparr>ap_backoff := b\<rparr>)) = Inr (mqtt_event sim_app_env (LinkUp []) x)"
    "ds_client (aw_disp (app_world x)) = c"
    using sim_boot [of "on_polls (on_world (on_disp (\<lambda>d. d\<lparr>ds_client := c\<rparr>))) (a0\<lparr>ap_backoff := b\<rparr>)"] by auto
  have "Run sim_app_env sim_events a0 = Some (Inr (mqtt_event sim_app_env (LinkUp []) x))"
    by (simp add: Run_def s x)
  moreover have "disp_up (ae_modbus sim_app_env) wd_dev (\<lambda>w. wd_script w = []) (aw_disp (app_world x))"
    using u(1) by (simp add: disp_up_def sim_app_env_def sim_device_laws sim_responsive x)
  ultimately show ?thesis using n u(2) x by (auto simp: app_dev_def disp_dev_def)
qed

lemma sim_app_laws: "log_law (ae_mqtt sim_app_env) id" "device_laws (ae_modbus sim_app_env) wd_dev"
  "quiet (ae_rng sim_app_env) wd_dev"
  by (simp_all add: sim_app_env_def sim_broker_law sim_device_laws quiet_def sim_rng_def)

lemma sim_app_quiet:
  assumes "New sim_app_env default_config (sim_world r []) [] = Some a0" and "Run sim_app_env sim_events a0 = Some (Inr a)"
  shows "mq_up (ae_mqtt sim_app_env) id (\<lambda>_. True) (aw_mqtt (app_world a))" "Poller_Snapshot (ps_poller (app_polls a)) = zero_Snapshot"
proof -
  have p: "published (id []) = []" by (simp add: published_def)
  have "mqc_connected (aw_mqtt (app_world a))" using sim_app [of r] assms by auto
  moreover have "mqc_client (aw_mqtt (app_world a))" using Run_subs [OF assms rtranclp.rtrancl_refl] by simp
  moreover have "fst (qe_publish (ae_mqtt sim_app_env) t q x y w) = Completed None" for t q x y w
    by (simp add: sim_app_env_def sim_broker_def)
  ultimately show "mq_up (ae_mqtt sim_app_env) id (\<lambda>_. True) (aw_mqtt (app_world a))"
    using sim_app_laws(1) by (simp only: mq_up_def simp_thms)
  have "ps_events (app_polls a) = []" "poll_inv (app_polls a)"
    using Run_speaks [OF assms sim_app_laws(1) p covers_account] by simp_all
  then show "Poller_Snapshot (ps_poller (app_polls a)) = zero_Snapshot" by (intro unpolled_latest)
qed

end
