(* ===== verification/SharedBus.thy ===== *)
theory SharedBus
  imports AppGuarantees
begin

text \<open>
  Polls on a shared bus. The three reads of a poll are three operations on the client; between any two
  of them the other tiers, the commands and the supervisor may use it. \<open>interrupted\<close> runs a poll with
  such traffic in the gaps. The result is still a view of one moment: a poll takes effect at its last
  read, which is why the application treats it as one step.
\<close>

subsection \<open>A poll with traffic in its gaps\<close>

text \<open>Before each call of the poll the next function of the list runs: what others do meanwhile.\<close>

fun interrupt :: "'s \<times> ('s \<Rightarrow> 's) list \<Rightarrow> 's \<times> ('s \<Rightarrow> 's) list" where
  "interrupt (s, []) = (s, [])"
| "interrupt (s, f # fs) = (f s, fs)"

definition interrupted :: "'s PollOps \<Rightarrow> ('s \<times> ('s \<Rightarrow> 's) list) PollOps" where
  "interrupted P =
     \<lparr>po_ReadInput = (\<lambda>a n q. case interrupt q of (s, fs) \<Rightarrow> (case po_ReadInput P a n s of (r, s') \<Rightarrow> (r, s', fs))),
      po_ReadHolding = (\<lambda>a n q. case interrupt q of (s, fs) \<Rightarrow> (case po_ReadHolding P a n s of (r, s') \<Rightarrow> (r, s', fs))),
      po_Now = (\<lambda>q. case interrupt q of (s, fs) \<Rightarrow> (case po_Now P s of (t, s') \<Rightarrow> (t, s', fs)))\<rparr>"

text \<open>The others: what runs in a gap is a sequence of operations \<open>Q\<close>.\<close>

definition others :: "('s \<Rightarrow> 's \<Rightarrow> bool) \<Rightarrow> ('s \<Rightarrow> 's) list \<Rightarrow> bool" where
  "others Q fs \<longleftrightarrow> (\<forall>f \<in> set fs. \<forall>s. Q\<^sup>*\<^sup>* s (f s))"

lemma interrupted_nothing:
  "po_ReadInput (interrupted P) a n (s, []) = (case po_ReadInput P a n s of (r, s') \<Rightarrow> (r, s', []))"
  "po_ReadHolding (interrupted P) a n (s, []) = (case po_ReadHolding P a n s of (r, s') \<Rightarrow> (r, s', []))"
  "po_Now (interrupted P) (s, []) = (case po_Now P s of (t, s') \<Rightarrow> (t, s', []))"
  by (simp_all add: interrupted_def)

text \<open>
  The interface of a shared source: \<open>Q\<close> is one operation of anybody. The input registers belong to the
  controller, so no operation changes them.
\<close>

locale shared_source = register_source P ok dev
  for P :: "'s PollOps" and ok :: "'s \<Rightarrow> bool" and dev :: "'s \<Rightarrow> RegFile" +
  fixes Q :: "'s \<Rightarrow> 's \<Rightarrow> bool"
  assumes traffic: "ok s \<Longrightarrow> Q s s' \<Longrightarrow> ok s' \<and> rf_in (dev s') = rf_in (dev s)"
    and own_input: "batch n \<Longrightarrow> po_ReadInput P a n s = (r, s') \<Longrightarrow> Q s s'"
    and own_holding: "batch n \<Longrightarrow> po_ReadHolding P a n s = (r, s') \<Longrightarrow> Q s s'"
    and own_now: "po_Now P s = (t, s') \<Longrightarrow> Q s s'"
begin

lemma traffic_star: "Q\<^sup>*\<^sup>* s s' \<Longrightarrow> ok s \<Longrightarrow> ok s' \<and> rf_in (dev s') = rf_in (dev s)"
  by (induction rule: rtranclp_induct) (use traffic in \<open>auto\<close>)

lemma interrupt_traffic:
  "others Q fs \<Longrightarrow> interrupt (s, fs) = (m, fs') \<Longrightarrow> Q\<^sup>*\<^sup>* s m \<and> others Q fs'"
  by (cases fs) (auto simp: others_def)

lemma input_between:
  assumes "others Q fs" and "ok s" and b: "batch n" and "poll_read l k (po_ReadInput (interrupted P) a n) (s, fs) = (r, s', fs')"
  shows "Q\<^sup>*\<^sup>* s s' \<and> others Q fs' \<and> (\<forall>vs. r = Inr vs \<longrightarrow> vs = regs_from (rf_in (dev s)) a n)"
proof -
  obtain m gs where i: "interrupt (s, fs) = (m, gs)" by (cases "interrupt (s, fs)")
  obtain x u where x: "po_ReadInput P a n m = (x, u)" by (cases "po_ReadInput P a n m")
  have su: "s' = u" "fs' = gs" "\<forall>vs. r = Inr vs \<longrightarrow> x = Inr vs"
    using assms(4) by (auto simp: poll_read_def interrupted_def i x split: sum.splits if_splits)
  note t = interrupt_traffic [OF assms(1) i]
  note m = traffic_star [OF conjunct1 [OF t] assms(2)]
  have "Q\<^sup>*\<^sup>* s u" using t own_input [OF b x] by (auto intro: rtranclp.rtrancl_into_rtrancl)
  then show ?thesis using t m read_input [OF conjunct1 [OF m] b x] su by simp
qed

lemma holding_between:
  assumes "others Q fs" and "ok s" and b: "batch n" and "poll_read l k (po_ReadHolding (interrupted P) a n) (s, fs) = (r, s', fs')"
  shows "\<exists>m. Q\<^sup>*\<^sup>* s m \<and> Q\<^sup>*\<^sup>* m s' \<and> others Q fs' \<and> (\<forall>vs. r = Inr vs \<longrightarrow> vs = regs_from (rf_hold (dev m)) a n)"
proof -
  obtain m gs where i: "interrupt (s, fs) = (m, gs)" by (cases "interrupt (s, fs)")
  obtain x u where x: "po_ReadHolding P a n m = (x, u)" by (cases "po_ReadHolding P a n m")
  have su: "s' = u" "fs' = gs" "\<forall>vs. r = Inr vs \<longrightarrow> x = Inr vs"
    using assms(4) by (auto simp: poll_read_def interrupted_def i x split: sum.splits if_splits)
  note t = interrupt_traffic [OF assms(1) i]
  note m = traffic_star [OF conjunct1 [OF t] assms(2)]
  from t own_holding [OF b x] read_holding [OF conjunct1 [OF m] b x] su show ?thesis by (intro exI [of _ m]) auto
qed

lemma poll_moment:
  assumes "others Q fs" and "ok s" and b: "batch n1" "batch n2" "batch n3"
    and "stamp_poll (interrupted P) mk (three_reads (poll_read l1 k1 (po_ReadInput (interrupted P) a1 n1))
      (poll_read l2 k2 (po_ReadInput (interrupted P) a2 n2)) (poll_read l3 k3 (po_ReadHolding (interrupted P) a3 n3)) (s, fs))
      = (Inr snap, s', fs')"
  shows "\<exists>m t. Q\<^sup>*\<^sup>* s m \<and> Q\<^sup>*\<^sup>* m s' \<and> snap = mk (regs_from (rf_in (dev m)) a1 n1)
      (regs_from (rf_in (dev m)) a2 n2) (regs_from (rf_hold (dev m)) a3 n3) t"
proof -
  obtain r1 s1 f1 where 1: "poll_read l1 k1 (po_ReadInput (interrupted P) a1 n1) (s, fs) = (r1, s1, f1)" by (rule prod_cases3)
  obtain r2 s2 f2 where 2: "poll_read l2 k2 (po_ReadInput (interrupted P) a2 n2) (s1, f1) = (r2, s2, f2)" by (rule prod_cases3)
  obtain r3 s3 f3 where 3: "poll_read l3 k3 (po_ReadHolding (interrupted P) a3 n3) (s2, f2) = (r3, s3, f3)" by (rule prod_cases3)
  obtain u f4 where 4: "interrupt (s3, f3) = (u, f4)" by (cases "interrupt (s3, f3)")
  obtain t v where 5: "po_Now P u = (t, v)" by (cases "po_Now P u")
  note i1 = input_between [OF assms(1,2) b(1) 1]
  then have o1: "Q\<^sup>*\<^sup>* s s1" "others Q f1" by simp_all
  note s1 = traffic_star [OF o1(1) assms(2)]
  note i2 = input_between [OF o1(2) conjunct1 [OF s1] b(2) 2]
  then have o2: "Q\<^sup>*\<^sup>* s1 s2" "others Q f2" by simp_all
  note s2 = traffic_star [OF o2(1) conjunct1 [OF s1]]
  obtain m where m: "Q\<^sup>*\<^sup>* s2 m" "Q\<^sup>*\<^sup>* m s3" "others Q f3"
      "\<forall>vs. r3 = Inr vs \<longrightarrow> vs = regs_from (rf_hold (dev m)) a3 n3"
    using holding_between [OF o2(2) conjunct1 [OF s2] b(3) 3] by blast
  have in_m: "rf_in (dev m) = rf_in (dev s)" "rf_in (dev s1) = rf_in (dev s)"
    using traffic_star [OF m(1)] s1 s2 by simp_all
  obtain x y z where r: "r1 = Inr x" "r2 = Inr y" "r3 = Inr z"
    using assms(6) by (cases r1; cases r2; cases r3) (auto simp: three_reads_def stamp_poll_def 1 2 3)
  have "po_Now (interrupted P) (s3, f3) = (t, v, f4)" by (simp add: interrupted_def 4 5)
  then have "snap = mk x y z t" "s' = v"
    using assms(6) by (simp_all add: three_reads_def stamp_poll_def 1 2 3 r)
  moreover have "Q\<^sup>*\<^sup>* s m" using o1(1) o2(1) m(1) by (meson rtranclp_trans)
  moreover have "Q\<^sup>*\<^sup>* m v" using m(2) interrupt_traffic [OF m(3) 4] own_now [OF 5] by (meson rtranclp.rtrancl_into_rtrancl rtranclp_trans)
  ultimately show ?thesis using i1 i2 m(4) in_m r by (intro exI [of _ m] exI [of _ t]) simp
qed

lemma PollHot_moment:
  assumes "others Q fs" and "ok s" and "PollHot (interrupted P) (s, fs) = (Inr snap, s', fs')"
  shows "\<exists>m. Q\<^sup>*\<^sup>* s m \<and> Q\<^sup>*\<^sup>* m s' \<and> snap = hot_view (dev m) (sn_PolledAt snap)"
  using poll_moment [OF assms(1,2) _ _ _ assms(3) [unfolded PollHot_def]] by (force simp: batch_def maxRegistersPerRead_def hot_snapshot_view hot_view_def)

lemma PollMedium_moment:
  assumes "others Q fs" and "ok s" and "PollMedium (interrupted P) (s, fs) = (Inr snap, s', fs')"
  shows "\<exists>m. Q\<^sup>*\<^sup>* s m \<and> Q\<^sup>*\<^sup>* m s' \<and> snap = medium_view (dev m) (sn_PolledAt snap)"
  using poll_moment [OF assms(1,2) _ _ _ assms(3) [unfolded PollMedium_def]] by (force simp: batch_def maxRegistersPerRead_def medium_snapshot_view medium_view_def)

lemma PollSlow_moment:
  assumes "others Q fs" and "ok s" and "PollSlow (interrupted P) (s, fs) = (Inr snap, s', fs')"
  shows "\<exists>m. Q\<^sup>*\<^sup>* s m \<and> Q\<^sup>*\<^sup>* m s' \<and> snap = slow_view (dev m) (sn_PolledAt snap)"
  using poll_moment [OF assms(1,2) _ _ _ assms(3) [unfolded PollSlow_def]] by (force simp: batch_def maxRegistersPerRead_def slow_snapshot_view slow_view_def)

end

subsection \<open>The dispatcher as a shared source\<close>

inductive bus_traffic ::
  "'w ModbusEnv \<Rightarrow> (f64 \<Rightarrow> int) \<Rightarrow> ('w \<Rightarrow> f64 \<times> 'w) \<Rightarrow> 'w Client Dispatcher \<Rightarrow> 'w Client Dispatcher \<Rightarrow> bool"
  for E oor rng where
  operation: "bus_op E d d' \<Longrightarrow> bus_traffic E oor rng d d'"
| supervision: "sup_step E oor rng s t \<Longrightarrow> bus_traffic E oor rng (sy_disp s) (sy_disp t)"

lemma bus_traffic_inputs:
  assumes "bus_traffic E oor rng d d'" and "device_laws E dev" and "quiet rng dev"
  shows "rf_in (disp_dev dev d') = rf_in (disp_dev dev d)"
  using assms(1)
proof (cases rule: bus_traffic.cases)
  case operation
  then show ?thesis using bus_op_within [OF _ assms(2)] by (simp add: within_limits_def)
next
  case (supervision s t)
  then show ?thesis using sup_step_dev [OF _ assms(2,3)] by simp
qed

interpretation disp_shared: shared_source "poll_ops E" "\<lambda>_. device_laws E dev \<and> quiet rng dev" "disp_dev dev" "bus_traffic E oor rng"
  for E dev rng oor
proof
  fix s s' :: "'a Client Dispatcher" and a n r
  assume L: "device_laws E dev \<and> quiet rng dev"
  note D = conjunct1 [OF L]
  show "(device_laws E dev \<and> quiet rng dev) \<and> disp_dev dev s' = disp_dev dev s
      \<and> (\<forall>vs. r = Inr vs \<longrightarrow> vs = regs_from (rf_in (disp_dev dev s)) a n)" if "batch n" "po_ReadInput (poll_ops E) a n s = (r, s')"
    using disp_source.read_input [OF D that] L by simp
  show "(device_laws E dev \<and> quiet rng dev) \<and> disp_dev dev s' = disp_dev dev s
      \<and> (\<forall>vs. r = Inr vs \<longrightarrow> vs = regs_from (rf_hold (disp_dev dev s)) a n)" if "batch n" "po_ReadHolding (poll_ops E) a n s = (r, s')"
    using disp_source.read_holding [OF D that] L by simp
  show "(device_laws E dev \<and> quiet rng dev) \<and> disp_dev dev s' = disp_dev dev s" if "po_Now (poll_ops E) s = (t, s')" for t
    using disp_source.now [OF D that] L by simp
  show "(device_laws E dev \<and> quiet rng dev) \<and> rf_in (disp_dev dev s') = rf_in (disp_dev dev s)" if "bus_traffic E oor rng s s'"
    using bus_traffic_inputs [OF that D conjunct2 [OF L]] L by simp
next
  fix s s' :: "'a Client Dispatcher" and a n r t
  show "bus_traffic E oor rng s s'" if "batch n" "po_ReadInput (poll_ops E) a n s = (r, s')"
    using that by (intro bus_traffic.operation bus_op.read_input) (simp_all add: poll_ops_def)
  show "bus_traffic E oor rng s s'" if "batch n" "po_ReadHolding (poll_ops E) a n s = (r, s')"
    using that by (intro bus_traffic.operation bus_op.read_holding) (simp_all add: poll_ops_def)
  show "bus_traffic E oor rng s s'" if n: "po_Now (poll_ops E) s = (t, s')"
    using n bus_op.clock [of E s "fst (me_now E (cl_world (ds_client s)))" "snd (me_now E (cl_world (ds_client s)))"]
    by (auto simp: poll_ops_def Let_def case_prod_unfold intro: bus_traffic.operation)
qed

subsection \<open>Polls that succeed in spite of the traffic\<close>

lemma poll_read_interrupted:
  assumes "interrupt (s, fs) = (m, gs)"
  shows "poll_read l k (po_ReadInput (interrupted P) a n) (s, fs) = (case poll_read l k (po_ReadInput P a n) m of (r, u) \<Rightarrow> (r, u, gs))"
    and "poll_read l k (po_ReadHolding (interrupted P) a n) (s, fs) = (case poll_read l k (po_ReadHolding P a n) m of (r, u) \<Rightarrow> (r, u, gs))"
  by (auto simp: poll_read_def interrupted_def assms split: prod.split sum.split)

context responsive_source
begin

lemma interrupt_up:
  assumes "\<forall>f \<in> set fs. \<forall>s. up s \<longrightarrow> up (f s)" and "up s" and "interrupt (s, fs) = (m, gs)"
  shows "up m \<and> (\<forall>f \<in> set gs. \<forall>s. up s \<longrightarrow> up (f s))"
  using assms by (cases fs) auto

lemma PollHot_interrupted_up:
  assumes fs: "\<forall>f \<in> set fs. \<forall>s. up s \<longrightarrow> up (f s)" and "up s"
  shows "\<exists>snap s' gs. PollHot (interrupted P) (s, fs) = (Inr snap, s', gs)"
proof -
  obtain m1 f1 where i1: "interrupt (s, fs) = (m1, f1)" by (cases "interrupt (s, fs)")
  note u1 = interrupt_up [OF fs assms(2) i1]
  obtain s1 where r1: "poll_read ''poll_hot read i2..i18'' 17 (po_ReadInput P 2 17) m1 = (Inr (regs_from (rf_in (dev m1)) 2 17), s1)"
    and "up s1" by (rule poll_input_up [OF conjunct1 [OF u1], of 17 17]) (simp_all add: batch_def maxRegistersPerRead_def)
  obtain m2 f2 where i2: "interrupt (s1, f1) = (m2, f2)" by (cases "interrupt (s1, f1)")
  note u2 = interrupt_up [OF conjunct2 [OF u1] \<open>up s1\<close> i2]
  obtain s2 where r2: "poll_read ''poll_hot read i25..i30'' 6 (po_ReadInput P 25 6) m2 = (Inr (regs_from (rf_in (dev m2)) 25 6), s2)"
    and "up s2" by (rule poll_input_up [OF conjunct1 [OF u2], of 6 6]) (simp_all add: batch_def maxRegistersPerRead_def)
  obtain m3 f3 where i3: "interrupt (s2, f2) = (m3, f3)" by (cases "interrupt (s2, f2)")
  note u3 = interrupt_up [OF conjunct2 [OF u2] \<open>up s2\<close> i3]
  obtain s3 where r3: "poll_read ''poll_hot read h31..h32'' 2 (po_ReadHolding P 31 2) m3 = (Inr (regs_from (rf_hold (dev m3)) 31 2), s3)"
    by (rule poll_holding_up [OF conjunct1 [OF u3], of 2 2]) (simp_all add: batch_def maxRegistersPerRead_def)
  show ?thesis
    by (simp add: PollHot_def three_reads_def stamp_poll_def poll_read_interrupted [OF i1] poll_read_interrupted [OF i2]
        poll_read_interrupted [OF i3] r1 r2 r3 case_prod_unfold)
qed

end

text \<open>A command that sets the fan in the gap before the last read.\<close>

definition fan_command :: "World Client Dispatcher \<Rightarrow> World Client Dispatcher" where
  "fan_command d = snd (ds_WriteHolding (client_port sim_env) AddrFanTarget1 5 d)"

lemma fan_command_traffic: "others (bus_traffic sim_env oor rng) [id, id, fan_command]"
proof -
  have "bus_op sim_env d (fan_command d)" for d
    unfolding fan_command_def
    by (rule bus_op.write_reg [of "SetFanCommand \<lparr>fs_value = 5\<rparr>" _ _ _ _ "fst (ds_WriteHolding (client_port sim_env) AddrFanTarget1 5 d)"])
      (simp_all add: valid_fan_def FanSpeed_Value_def fanSpeedMin_def fanSpeedMax_def)
  then show ?thesis by (simp add: others_def bus_traffic.operation r_into_rtranclp)
qed

lemma fan_command_up: "disp_up sim_env wd_dev (\<lambda>w. wd_script w = []) d \<Longrightarrow> disp_up sim_env wd_dev (\<lambda>w. wd_script w = []) (fan_command d)"
proof -
  assume u: "disp_up sim_env wd_dev (\<lambda>w. wd_script w = []) d"
  then obtain c where "WriteHolding sim_env AddrFanTarget1 5 (ds_client d) = (None, c)" "usable (\<lambda>w. wd_script w = []) c"
    using WriteHolding_usable [OF sim_responsive] unfolding disp_up_def by blast
  with u show ?thesis by (simp add: fan_command_def disp_up_def ds_WriteHolding_def client_port_def)
qed

subsection \<open>Properties\<close>



end
