(* ===== verification/CommandLoop.thy ===== *)
theory CommandLoop
  imports AppGuarantees
begin

text \<open>
  The loop from a command message through the controller and a poll back to the broker, for the running
  application while the controller answers and the broker acknowledges.
\<close>

subsection \<open>A message reaches its handler\<close>

lemma app_subs_command:
  "app_subs topics (haStatusTopic cfg) (Topic_Command topics ''target_temperature'') = Some (CommandTopic TargetTemperatureHandler)"
  "app_subs topics (haStatusTopic cfg) (Topic_Command topics ''fan_target'') = Some (CommandTopic FanTargetHandler)"
proof -
  have "Topic_Command topics (oid @ [c]) \<noteq> haStatusTopic cfg" if "c \<noteq> CHR ''s''" for oid c
  proof
    assume e: "Topic_Command topics (oid @ [c]) = haStatusTopic cfg"
    have "last (Topic_Command topics (oid @ [c])) = c" by (simp add: topic_defs)
    moreover have "last (haStatusTopic cfg) = CHR ''s''" by (simp add: haStatusTopic_def)
    ultimately show False using that by (simp add: e)
  qed
  from this [of "CHR ''e''" "''target_temperatur''"] this [of "CHR ''t''" "''fan_targe''"]
  show "app_subs topics (haStatusTopic cfg) (Topic_Command topics ''target_temperature'') = Some (CommandTopic TargetTemperatureHandler)"
    "app_subs topics (haStatusTopic cfg) (Topic_Command topics ''fan_target'') = Some (CommandTopic FanTargetHandler)"
    by (simp_all add: app_subs_def subscriptions_def)
qed

lemma arrived_command:
  assumes "mqc_subs (aw_mqtt (app_world a)) topic = Some (CommandTopic h)"
  shows "app_polls (mqtt_event E (Arrived topic payload) a) = on_world (on_disp (handle_message (ae_modbus E) DefaultPowerOffPause
    (h, payload, Poller_Snapshot (ps_poller (app_polls a))))) (app_polls a)"
  by (simp add: assms)

subsection \<open>A poll of the hot tier\<close>

abbreviation hot_poll :: "('m, 'q) AppEnv \<Rightarrow> ('m, 'q) AppWorld Poller \<Rightarrow> ('m, 'q) AppWorld Poller" where
  "hot_poll E \<equiv> doPoll (app_poller_env E) (app_poll E HotTier) (tier_merge HotTier) (tier_name HotTier)"

lemma hot_poll_up:
  assumes "disp_up (ae_modbus E) dev up (aw_disp (pr_world p))" and r: "r = disp_dev dev (aw_disp (pr_world p))"
    and "pr_subscribers p = [state_callback E topics]" and "mq_up (ae_mqtt E) lg acks (aw_mqtt (pr_world p))"
  shows "\<exists>t. said lg (pr_world (hot_poll E p)) = said lg (pr_world p) @ messages_of topics (MergeHot (pr_latest p) (hot_view r t))
    \<and> disp_dev dev (aw_disp (pr_world (hot_poll E p))) = r"
proof -
  have L: "device_laws (ae_modbus E) dev" using assms(1) by (simp add: disp_up_def)
  obtain t0 w1 where w1: "pe_now (app_poller_env E) (pr_world p) = (t0, w1)" by fastforce
  obtain n d1 where d1: "po_Now (poll_ops (ae_modbus E)) (aw_disp (pr_world p)) = (n, d1)" by fastforce
  have a1: "aw_disp w1 = d1" "aw_mqtt w1 = aw_mqtt (pr_world p)"
    using env_frames(1,3) [of E "pr_world p"] by (simp_all add: w1 d1)
  have u1: "disp_up (ae_modbus E) dev up d1" "disp_dev dev d1 = r"
    using disp_live.up_now [OF assms(1) d1] disp_source.now [OF L d1] by (simp_all add: r)
  obtain t d2 where p2: "PollHot (poll_ops (ae_modbus E)) d1 = (Inr (hot_view r t), d2)" "disp_dev dev d2 = r"
    using disp_live.PollHot_up [OF u1(1)] u1(2) by auto
  define w2 where "w2 = w1\<lparr>aw_disp := d2\<rparr>"
  have f: "poll_fetch (app_poller_env E) (app_poll E HotTier) ''hot'' p = (Some (hot_view r t), p\<lparr>pr_world := w2\<rparr>)"
    by (simp add: poll_fetch_def w1 app_poll_def a1 p2 w2_def)
  have q: "mq_up (ae_mqtt E) lg acks (aw_mqtt w2)" "said lg w2 = said lg (pr_world p)"
    using assms(4) by (simp_all add: w2_def a1 said_def)
  have n: "disp_dev dev (snd (po_Now (poll_ops (ae_modbus E)) d)) = disp_dev dev d" for d
    using disp_source.now [OF L] by (metis prod.collapse)
  have m: "disp_dev dev (d\<lparr>ds_client := upd_metrics g (ds_client d)\<rparr>) = disp_dev dev d" for d :: "'a Client Dispatcher" and g
    by (simp add: disp_dev_def upd_metrics_def)
  have "said lg (snd (pe_now (app_poller_env E) w)) = said lg w" "said lg (pe_metrics (app_poller_env E) g w) = said lg w" for g w
    by (simp_all add: said_def)
  then show ?thesis
    using state_up [OF q(1), of topics "MergeHot (pr_latest p) (hot_view r t)"] p2(2) q(2)
    by (intro exI [of _ t]) (simp add: doPoll_def f poll_merge_def poll_notify_def Let_def case_prod_unfold assms(3) n m w2_def)
qed

subsection \<open>What the broker keeps\<close>

lemma retained_append: "retained_value (xs @ ys) t = (case retained_value ys t of None \<Rightarrow> retained_value xs t | Some p \<Rightarrow> Some p)"
  by (simp add: retained_value_def Let_def)

lemma retained_messages: "retained_value (xs @ messages_of topics m) (Topic_State topics ''target_temperature'')
      = Some (formatTemperature (sn_TargetTemp m))"
  "retained_value (xs @ messages_of topics m) (Topic_State topics ''fan_target'') = Some (fmt_u16 (sn_FanTarget1 m))"
  unfolding retained_append by (simp_all add: retained_value_def messages_of_def buildMessages_def state_msg_def)

end
