(* ===== verification/Settled.thy ===== *)
theory Settled
  imports AppGuarantees
begin

text \<open>
  A settled connection stays settled: once it is open, no trigger is pending and the supervisor waits, then
  as long as the controller answers nothing the application does can lose it, for every operation succeeds
  and so no trigger is raised. Together with \<open>reconnect_livelock\<close> (Livelock) this says what a recovery hinges on:
  one moment at which the connection is open and no trigger is left over.
\<close>

subsection \<open>The dispatcher\<close>

definition calm_disp :: "'w ModbusEnv \<Rightarrow> ('w \<Rightarrow> RegFile) \<Rightarrow> ('w \<Rightarrow> bool) \<Rightarrow> 'w Client Dispatcher \<Rightarrow> bool" where
  "calm_disp E dev up d \<longleftrightarrow> disp_up E dev up d \<and> \<not> ds_pending d"

lemma calm_success: "disp_up E dev up d \<Longrightarrow> usable up c \<Longrightarrow> \<not> ds_pending d \<Longrightarrow>
    calm_disp E dev up (recordOutcome None (d\<lparr>ds_client := c\<rparr>))"
  by (simp add: calm_disp_def disp_up_def recordOutcome_def)

lemma bus_op_calm:
  assumes "bus_op E d d'" and "calm_disp E dev up d"
  shows "calm_disp E dev up d'"
proof -
  have D: "disp_up E dev up d" "\<not> ds_pending d" and L: "device_laws E dev" and R: "responsive E up"
    and U: "usable up (ds_client d)"
    using assms(2) by (simp_all add: calm_disp_def disp_up_def)
  note calm = calm_success [OF D(1) _ D(2)]
  from assms(1) show ?thesis
  proof (cases rule: bus_op.cases)
    case (read_input n a ri)
    have n: "n \<noteq> 0" "n \<le> maxRegistersPerRead" using read_input(1) by (simp_all add: batch_def)
    obtain c where "ReadInput E a n (ds_client d) = (Inr (regs_from (rf_in (client_dev dev (ds_client d))) a n), c)" "usable up c"
      by (rule ReadInput_usable [OF L R U n])
    with calm [of c] read_input(2) show ?thesis by (simp add: ds_ops client_port_def Let_def)
  next
    case (read_holding n a rh)
    have n: "n \<noteq> 0" "n \<le> maxRegistersPerRead" using read_holding(1) by (simp_all add: batch_def)
    obtain c where "ReadHolding E a n (ds_client d) = (Inr (regs_from (rf_hold (client_dev dev (ds_client d))) a n), c)" "usable up c"
      by (rule ReadHolding_usable [OF L R U n])
    with calm [of c] read_holding(2) show ?thesis by (simp add: ds_ops client_port_def Let_def)
  next
    case (write_reg c a v rw)
    obtain c where "WriteHolding E a v (ds_client d) = (None, c)" "usable up c" by (rule WriteHolding_usable [OF R U])
    with calm [of c] write_reg(3) show ?thesis by (simp add: ds_ops client_port_def Let_def)
  next
    case (modify_reg m rm)
    obtain c where "ModifyHolding E AddrDevKeys2 (\<lambda>cur. Some (ApplyToRegister cur m)) (ds_client d) = (None, c)" "usable up c"
      by (rule ModifyHolding_usable [OF L R U HOL.refl])
    with calm [of c] modify_reg show ?thesis by (simp add: ds_ops client_port_def Let_def)
  next
    case (dwell t rd w)
    have "up (cl_world (ds_client d))" using U by (simp add: usable_def)
    then have "up w" using R dwell(2) unfolding responsive_def by (metis snd_conv)
    with assms(2) show ?thesis by (simp add: dwell(1) calm_disp_def disp_up_def usable_def)
  next
    case (clock rc w)
    have "up (cl_world (ds_client d))" using U by (simp add: usable_def)
    then have "up w" using R clock(2) unfolding responsive_def by (metis snd_conv)
    with assms(2) show ?thesis by (simp add: clock(1) calm_disp_def disp_up_def usable_def)
  qed
qed

lemma bus_ops_calm: "(bus_op E)\<^sup>*\<^sup>* d d' \<Longrightarrow> calm_disp E dev up d \<Longrightarrow> calm_disp E dev up d'"
  by (induction rule: rtranclp_induct) (auto intro: bus_op_calm)

lemma now_calm: "calm_disp E dev up d \<Longrightarrow> calm_disp E dev up (snd (po_Now (poll_ops E) d))"
  by (simp add: poll_ops_def Let_def case_prod_unfold calm_disp_def disp_up_def usable_def responsive_def)

lemma tier_poll_calm: "calm_disp E dev up d \<Longrightarrow> calm_disp E dev up (snd (tier_poll (poll_ops E) t d))"
proof -
  assume d: "calm_disp E dev up d"
  then have L: "device_laws E dev" by (simp add: calm_disp_def disp_up_def)
  obtain q d' where q: "tier_poll (poll_ops E) t d = (q, d')" by fastforce
  with poll_is_bus_ops [OF L, of d q d'] have "(bus_op E)\<^sup>*\<^sup>* d d'" by (cases t) simp_all
  from bus_ops_calm [OF this d] q show ?thesis by simp
qed

subsection \<open>The application\<close>

definition settled :: "('m, 'q) AppEnv \<Rightarrow> ('m \<Rightarrow> RegFile) \<Rightarrow> ('m \<Rightarrow> bool) \<Rightarrow> ('m, 'q) App \<Rightarrow> bool" where
  "settled E dev up a \<longleftrightarrow> calm_disp (ae_modbus E) dev up (aw_disp (app_world a)) \<and> ap_phase a = PhWaiting"

interpretation calm_world: poller_world "app_poller_env E" "app_poll E" "[state_callback E topics]" "\<lambda>_. True"
  "\<lambda>w. calm_disp (ae_modbus E) dev up (aw_disp w)" for E topics dev up
proof
  fix w :: "('a, 'b) AppWorld" and f :: "Metrics \<Rightarrow> Metrics"
  assume c: "calm_disp (ae_modbus E) dev up (aw_disp w)"
  then show "calm_disp (ae_modbus E) dev up (aw_disp (snd (pe_now (app_poller_env E) w)))" by (simp add: now_calm)
  show "calm_disp (ae_modbus E) dev up (aw_disp (pe_metrics (app_poller_env E) f w))"
    using c by (simp add: calm_disp_def disp_up_def)
  show "calm_disp (ae_modbus E) dev up (aw_disp (snd (app_poll E t w)))" for t
    using tier_poll_calm [OF c, of t] by (simp add: app_poll_def case_prod_unfold)
qed simp_all

lemma mqtt_event_calm:
  assumes "wired E a" and c: "calm_disp (ae_modbus E) dev up (aw_disp (app_world a))"
  shows "calm_disp (ae_modbus E) dev up (aw_disp (app_world (mqtt_event E e a)))"
proof (cases e)
  case (Arrived topic payload)
  show ?thesis
  proof (cases "mqc_subs (aw_mqtt (app_world a)) topic")
    case (Some h)
    show ?thesis
    proof (cases h)
      case (CommandTopic k)
      then show ?thesis using bus_ops_calm [OF message_is_bus_ops c] by (simp add: Arrived Some)
    next
      case HAStatusTopic
      then show ?thesis
        using ha_handle_cases [OF assms(1), of payload "app_polls a"] c by (auto simp: Arrived Some)
    qed
  qed (simp add: Arrived c)
qed (simp_all add: c)

lemma app_step_settled:
  assumes "app_step E W a b" and w: "wired E a" and s: "settled E dev up a"
    and u: "up (cl_world (ds_client (aw_disp (app_world b))))" and run: "ap_phase b \<noteq> PhStopped"
  shows "settled E dev up b"
proof -
  have c: "calm_disp (ae_modbus E) dev up (aw_disp (app_world a))" and p: "ap_phase a = PhWaiting"
    using s by (simp_all add: settled_def)
  from assms(1) show ?thesis
  proof (cases rule: app_step.cases)
    case (polled x)
    have "calm_disp (ae_modbus E) dev up (aw_disp (pr_world (ps_poller x)))"
      by (rule calm_world.stepped [OF polled(2), where topics = "ap_topics a"]) (use w c in \<open>simp_all add: wired_def\<close>)
    then show ?thesis by (simp add: polled(1) settled_def p)
  next
    case (mqtt e)
    then show ?thesis using mqtt_event_calm [OF w c] by (simp add: settled_def p)
  next
    case (bus d)
    then show ?thesis using bus_op_calm [OF bus(2) c] by (simp add: settled_def p)
  next
    case ticked
    have "aw_disp (app_world b) = snd (po_Now (poll_ops (ae_modbus E)) (aw_disp (app_world a)))"
      using tick_cases [OF w HOL.refl] by (auto simp: ticked(1))
    then show ?thesis using now_calm [OF c] by (simp add: settled_def p ticked(1))
  next
    case (supervised x)
    from supervised(2) show ?thesis
      using p c run by (cases rule: sup_step.cases)
        (auto simp: supervised(1) app_system_def set_system_def calm_disp_def on_polls_def)
  next
    case (outside v)
    have "cl_connected (ds_client (aw_disp (app_world a)))" using c by (simp add: calm_disp_def disp_up_def usable_def)
    with c u show ?thesis by (simp add: outside(1) settled_def p calm_disp_def disp_up_def usable_def)
  qed
qed

subsection \<open>The simulated application is settled when it starts\<close>

lemma Run_waiting:
  assumes "New E cfg mw qw = Some a0" and "Run E evs a0 = Some (Inr a)"
  shows "ap_phase a = PhWaiting"
proof -
  obtain c bo where b: "boot_mqtt E evs (on_polls (on_world (on_disp (\<lambda>d. d\<lparr>ds_client := c\<rparr>))) (a0\<lparr>ap_backoff := bo\<rparr>)) = Inr a"
    by (rule Run_parts [OF assms(2)])
  show ?thesis
    by (rule boot_invariant [OF b, where P = "\<lambda>x. ap_phase x = PhWaiting"])
      (use New_parts [OF assms(1)] in \<open>simp_all add: app_system_def init_system_def\<close>)
qed

lemma sim_app_settled:
  assumes n: "New sim_app_env default_config (sim_world r []) [] = Some a0" and "Run sim_app_env sim_events a0 = Some (Inr a)"
    and up: "disp_up (ae_modbus sim_app_env) wd_dev up (aw_disp (app_world a))"
  shows "settled sim_app_env wd_dev up a"
proof -
  obtain c bo where b: "boot_mqtt sim_app_env sim_events
      (on_polls (on_world (on_disp (\<lambda>d. d\<lparr>ds_client := c\<rparr>))) (a0\<lparr>ap_backoff := bo\<rparr>)) = Inr a"
    by (rule Run_parts [OF assms(2)])
  from sim_boot [of "on_polls (on_world (on_disp (\<lambda>d. d\<lparr>ds_client := c\<rparr>))) (a0\<lparr>ap_backoff := bo\<rparr>)"] b
  have "ds_pending (aw_disp (app_world a)) = ds_pending (aw_disp (app_world a0))" by auto
  moreover have "\<not> ds_pending (aw_disp (app_world a0))"
    using New_parts [OF n] by (simp add: app_system_def init_system_def)
  ultimately show ?thesis using up Run_waiting [OF assms(1,2)] by (simp add: settled_def calm_disp_def)
qed

end
