(* ===== verification/Convergence.thy ===== *)
theory Convergence
  imports CommandLoop Settled
begin

text \<open>
  Eventual consistency. In an endless run of the application the tier goroutines take turns. When from
  some moment on the controller answers and its registers stand still, while the broker acknowledges,
  the broker ends up keeping, on every state topic, the payload of the controller's registers, and it
  keeps them from then on. The first half is about turns of the goroutines only, the second lifts it
  to the steps of the application.
\<close>

subsection \<open>Turns of the tier goroutines\<close>

text \<open>
  The turn of a tier: it fetches a partial snapshot (one that is \<open>good\<close>), merges the one it holds, or
  hands out the merged one.
\<close>

definition tier_turn :: "(Tier \<Rightarrow> Snapshot \<Rightarrow> bool) \<Rightarrow> Tier \<Rightarrow> 'w PollSystem \<Rightarrow> 'w PollSystem \<Rightarrow> bool" where
  "tier_turn good t s s' \<longleftrightarrow>
     (case ps_tier s t of
        TIdle \<Rightarrow> \<exists>x. good t x \<and> ps_tier s' = (ps_tier s)(t := TFetched x) \<and> ps_events s' = ps_events s
      | TFetched x \<Rightarrow> ps_tier s' = (ps_tier s)(t := TMerged (merge_all (ps_events s'))) \<and> ps_events s' = ps_events s @ [(t, x)]
      | TMerged m \<Rightarrow> ps_tier s' = (ps_tier s)(t := TIdle) \<and> ps_events s' = ps_events s)"

definition same_polls :: "'w PollSystem \<Rightarrow> 'w PollSystem \<Rightarrow> bool" where
  "same_polls s s' \<longleftrightarrow> ps_tier s' = ps_tier s \<and> ps_events s' = ps_events s"

definition turns :: "(Tier \<Rightarrow> Snapshot \<Rightarrow> bool) \<Rightarrow> nat \<Rightarrow> (nat \<Rightarrow> 'w PollSystem) \<Rightarrow> bool" where
  "turns good k \<sigma> \<longleftrightarrow>
     (\<forall>i \<ge> k. same_polls (\<sigma> i) (\<sigma> (Suc i)) \<or> (\<exists>t. tier_turn good t (\<sigma> i) (\<sigma> (Suc i))))
     \<and> (\<forall>t. \<forall>i \<ge> k. \<exists>j \<ge> i. tier_turn good t (\<sigma> j) (\<sigma> (Suc j)))"

lemma turnsD:
  assumes "turns good k \<sigma>" and "k \<le> i"
  shows "same_polls (\<sigma> i) (\<sigma> (Suc i)) \<or> (\<exists>t. tier_turn good t (\<sigma> i) (\<sigma> (Suc i)))"
    and "\<exists>j \<ge> i. tier_turn good t (\<sigma> j) (\<sigma> (Suc j))"
  using assms unfolding turns_def by blast+

text \<open>Three kinds of turns, in a cycle.\<close>

fun turn_kind :: "TierState \<Rightarrow> nat" where
  "turn_kind TIdle = 0"
| "turn_kind (TFetched x) = 1"
| "turn_kind (TMerged m) = 2"

lemma turn_kind_simps:
  "turn_kind q = 0 \<longleftrightarrow> q = TIdle" "turn_kind q = 1 \<longleftrightarrow> (\<exists>x. q = TFetched x)" "turn_kind q = 2 \<longleftrightarrow> (\<exists>m. q = TMerged m)"
  by (cases q; simp)+

lemma tier_turn_next:
  "tier_turn good t s s' \<Longrightarrow> turn_kind (ps_tier s' t) = (turn_kind (ps_tier s t) + 1) mod 3"
  by (auto simp: tier_turn_def split: TierState.splits)

lemma tier_turn_other: "tier_turn good u s s' \<Longrightarrow> u \<noteq> t \<Longrightarrow> ps_tier s' t = ps_tier s t"
  by (auto simp: tier_turn_def split: TierState.splits)

lemma next_turn:
  assumes T: "turns good k \<sigma>" and i: "k \<le> i"
  shows "\<exists>j \<ge> i. ps_tier (\<sigma> j) t = ps_tier (\<sigma> i) t \<and> tier_turn good t (\<sigma> j) (\<sigma> (Suc j))"
proof -
  define j where "j = (LEAST j. i \<le> j \<and> tier_turn good t (\<sigma> j) (\<sigma> (Suc j)))"
  have "i \<le> j \<and> tier_turn good t (\<sigma> j) (\<sigma> (Suc j))"
    unfolding j_def by (rule LeastI_ex) (use turnsD(2) [OF T i] in blast)
  then have j: "i \<le> j" "tier_turn good t (\<sigma> j) (\<sigma> (Suc j))" by simp_all
  have before: "\<not> tier_turn good t (\<sigma> n) (\<sigma> (Suc n))" if "i \<le> n" "n < j" for n
    using not_less_Least [of n "\<lambda>j. i \<le> j \<and> tier_turn good t (\<sigma> j) (\<sigma> (Suc j))"] that by (simp add: j_def)
  have "n \<le> j \<longrightarrow> ps_tier (\<sigma> n) t = ps_tier (\<sigma> i) t" if "i \<le> n" for n
    using that
  proof (induction n rule: dec_induct)
    case (step n)
    show ?case
    proof
      assume "Suc n \<le> j"
      then have n: "\<not> tier_turn good t (\<sigma> n) (\<sigma> (Suc n))" "ps_tier (\<sigma> n) t = ps_tier (\<sigma> i) t"
        using before [of n] step by simp_all
      have "ps_tier (\<sigma> (Suc n)) t = ps_tier (\<sigma> n) t"
        using turnsD(1) [OF T order_trans [OF i step.hyps(1)]]
      proof
        assume "\<exists>u. tier_turn good u (\<sigma> n) (\<sigma> (Suc n))"
        then obtain u where u: "tier_turn good u (\<sigma> n) (\<sigma> (Suc n))" by blast
        with n(1) have "u \<noteq> t" by blast
        with u show ?thesis by (rule tier_turn_other)
      qed (simp add: same_polls_def)
      with n(2) show "ps_tier (\<sigma> (Suc n)) t = ps_tier (\<sigma> i) t" by simp
    qed
  qed simp
  with j show ?thesis by blast
qed

lemma turn_of_kind:
  assumes T: "turns good k \<sigma>" and "k \<le> i" and c: "c < 3"
  shows "\<exists>j \<ge> i. turn_kind (ps_tier (\<sigma> j) t) = c \<and> tier_turn good t (\<sigma> j) (\<sigma> (Suc j))"
proof -
  have "\<exists>j \<ge> i. turn_kind (ps_tier (\<sigma> j) t) = (turn_kind (ps_tier (\<sigma> i) t) + n) mod 3 \<and> tier_turn good t (\<sigma> j) (\<sigma> (Suc j))" for n
  proof (induction n)
    case 0
    have "turn_kind (ps_tier (\<sigma> i) t) < 3" by (cases "ps_tier (\<sigma> i) t") simp_all
    with next_turn [OF assms(1,2), of t] show ?case by force
  next
    case (Suc n)
    then obtain j where j: "i \<le> j" "turn_kind (ps_tier (\<sigma> j) t) = (turn_kind (ps_tier (\<sigma> i) t) + n) mod 3"
      "tier_turn good t (\<sigma> j) (\<sigma> (Suc j))" by blast
    have "k \<le> Suc j" using assms(2) j(1) by simp
    from next_turn [OF T this, of t] obtain j' where j': "Suc j \<le> j'" "ps_tier (\<sigma> j') t = ps_tier (\<sigma> (Suc j)) t"
      "tier_turn good t (\<sigma> j') (\<sigma> (Suc j'))" by blast
    have "turn_kind (ps_tier (\<sigma> j') t) = (turn_kind (ps_tier (\<sigma> i) t) + Suc n) mod 3"
      using tier_turn_next [OF j(3)] by (simp add: j'(2) j(2) mod_Suc_eq)
    with j' j(1) show ?case by (intro exI [of _ j']) simp
  qed
  from this [of "c + 3 - turn_kind (ps_tier (\<sigma> i) t)"] show ?thesis
    using c by (cases "ps_tier (\<sigma> i) t") (simp_all add: mod_if)
qed

lemma turn_of:
  assumes "turns good k \<sigma>" and "k \<le> i"
  shows "\<exists>j \<ge> i. ps_tier (\<sigma> j) t = TIdle \<and> tier_turn good t (\<sigma> j) (\<sigma> (Suc j))"
    and "\<exists>j \<ge> i. \<exists>x. ps_tier (\<sigma> j) t = TFetched x \<and> tier_turn good t (\<sigma> j) (\<sigma> (Suc j))"
    and "\<exists>j \<ge> i. \<exists>m. ps_tier (\<sigma> j) t = TMerged m \<and> tier_turn good t (\<sigma> j) (\<sigma> (Suc j))"
  using turn_of_kind [OF assms, of 0 t] turn_of_kind [OF assms, of 1 t] turn_of_kind [OF assms, of 2 t]
  unfolding turn_kind_simps by auto

subsection \<open>What settles\<close>

lemma stays:
  assumes "\<And>j. K \<le> j \<Longrightarrow> I j \<Longrightarrow> I (Suc j)" and "I i" and "K \<le> i" and "i \<le> j"
  shows "I j"
  using assms(4) by (induction j rule: dec_induct) (use assms in auto)

lemma all_tiers:
  assumes "\<And>t. \<exists>K \<ge> k. \<forall>j \<ge> K. I t j"
  shows "\<exists>K \<ge> (k :: nat). \<forall>t :: Tier. \<forall>j \<ge> K. I t j"
proof -
  obtain K where K: "\<And>t. k \<le> K t \<and> (\<forall>j \<ge> K t. I t j)" using assms by metis
  have "I t j" if "max (K HotTier) (max (K MediumTier) (K SlowTier)) \<le> j" for t j
    using K [of t] that by (cases t) auto
  with K [of HotTier] show ?thesis by (intro exI [of _ "max (K HotTier) (max (K MediumTier) (K SlowTier))"]) auto
qed

lemma fetched_settles:
  assumes T: "turns good k \<sigma>"
  shows "\<exists>K \<ge> k. \<forall>j \<ge> K. \<forall>x. ps_tier (\<sigma> j) t = TFetched x \<longrightarrow> good t x"
proof -
  obtain i where i: "k \<le> i" "ps_tier (\<sigma> i) t = TIdle" using turn_of(1) [OF T order_refl] by blast
  have step: "\<forall>x. ps_tier (\<sigma> (Suc j)) t = TFetched x \<longrightarrow> good t x"
    if "k \<le> j" "\<forall>x. ps_tier (\<sigma> j) t = TFetched x \<longrightarrow> good t x" for j
    using turnsD(1) [OF T that(1)]
  proof
    assume "\<exists>u. tier_turn good u (\<sigma> j) (\<sigma> (Suc j))"
    then obtain u where u: "tier_turn good u (\<sigma> j) (\<sigma> (Suc j))" by blast
    show ?thesis
    proof (cases "u = t")
      case True
      with u show ?thesis by (auto simp: tier_turn_def split: TierState.splits)
    qed (use tier_turn_other [OF u] that(2) in simp)
  qed (use that(2) in \<open>simp add: same_polls_def\<close>)
  show ?thesis
  proof (intro exI [of _ i] conjI allI impI)
    fix j x assume j: "i \<le> j" "ps_tier (\<sigma> j) t = TFetched x"
    have "\<forall>x. ps_tier (\<sigma> j) t = TFetched x \<longrightarrow> good t x"
      by (rule stays [where K = k and I = "\<lambda>j. \<forall>x. ps_tier (\<sigma> j) t = TFetched x \<longrightarrow> good t x" and i = i])
        (erule (1) step, simp add: i(2), rule i(1), rule j(1))
    with j(2) show "good t x" by blast
  qed (rule i(1))
qed

lemma tier_turn_events:
  "tier_turn good u s s' \<Longrightarrow> ps_events s' = ps_events s \<or> (\<exists>x. ps_tier s u = TFetched x \<and> ps_events s' = ps_events s @ [(u, x)])"
  by (auto simp: tier_turn_def split: TierState.splits)

lemma partial_settles:
  assumes T: "turns good k \<sigma>"
  shows "\<exists>K \<ge> k. \<forall>j \<ge> K. good t (last_partial t (ps_events (\<sigma> j)))"
proof -
  obtain L where L: "k \<le> L" "\<forall>j \<ge> L. \<forall>x. ps_tier (\<sigma> j) t = TFetched x \<longrightarrow> good t x"
    using fetched_settles [OF T] by blast
  obtain i x where i: "L \<le> i" "tier_turn good t (\<sigma> i) (\<sigma> (Suc i))" and x: "ps_tier (\<sigma> i) t = TFetched x"
    using turn_of(2) [OF T L(1)] by blast
  have start: "good t (last_partial t (ps_events (\<sigma> (Suc i))))"
    using i x L(2) by (simp add: tier_turn_def)
  have step: "good t (last_partial t (ps_events (\<sigma> (Suc j))))"
    if "L \<le> j" "good t (last_partial t (ps_events (\<sigma> j)))" for j
    using turnsD(1) [OF T order_trans [OF L(1) that(1)]]
  proof
    assume "\<exists>u. tier_turn good u (\<sigma> j) (\<sigma> (Suc j))"
    then obtain u where "tier_turn good u (\<sigma> j) (\<sigma> (Suc j))" by blast
    from tier_turn_events [OF this] show ?thesis using that L(2) by auto
  qed (use that(2) in \<open>simp add: same_polls_def\<close>)
  have "good t (last_partial t (ps_events (\<sigma> j)))" if "Suc i \<le> j" for j
    by (rule stays [where K = L and I = "\<lambda>j. good t (last_partial t (ps_events (\<sigma> j)))" and i = "Suc i"])
      (erule (1) step, rule start, use i(1) that in simp_all)
  with L(1) i(1) show ?thesis by (intro exI [of _ "Suc i"]) auto
qed

text \<open>A snapshot assembled from good partial snapshots of all tiers.\<close>

definition good_merge :: "(Tier \<Rightarrow> Snapshot \<Rightarrow> bool) \<Rightarrow> Snapshot \<Rightarrow> bool" where
  "good_merge good m \<longleftrightarrow> (\<exists>evs. m = merge_all evs \<and> (\<forall>t. good t (last_partial t evs)))"

lemma merged_settles:
  assumes T: "turns good k \<sigma>"
  shows "\<exists>K \<ge> k. \<forall>j \<ge> K. good_merge good (merge_all (ps_events (\<sigma> j)))
    \<and> (\<forall>t m. ps_tier (\<sigma> j) t = TMerged m \<longrightarrow> good_merge good m)"
proof -
  obtain L where L: "k \<le> L" "\<forall>t. \<forall>j \<ge> L. good t (last_partial t (ps_events (\<sigma> j)))"
    using all_tiers [where I = "\<lambda>t j. good t (last_partial t (ps_events (\<sigma> j)))", OF partial_settles [OF T]] by blast
  have latest: "good_merge good (merge_all (ps_events (\<sigma> j)))" if "L \<le> j" for j
    using L(2) that unfolding good_merge_def by blast
  have step: "\<forall>m. ps_tier (\<sigma> (Suc j)) t = TMerged m \<longrightarrow> good_merge good m"
    if "L \<le> j" "\<forall>m. ps_tier (\<sigma> j) t = TMerged m \<longrightarrow> good_merge good m" for j t
    using turnsD(1) [OF T order_trans [OF L(1) that(1)]]
  proof
    assume "\<exists>u. tier_turn good u (\<sigma> j) (\<sigma> (Suc j))"
    then obtain u where u: "tier_turn good u (\<sigma> j) (\<sigma> (Suc j))" by blast
    show ?thesis
    proof (cases "u = t")
      case True
      with u latest [of "Suc j"] that(1) show ?thesis by (auto simp: tier_turn_def split: TierState.splits)
    qed (use tier_turn_other [OF u] that(2) in simp)
  qed (use that(2) in \<open>simp add: same_polls_def\<close>)
  have "\<exists>K \<ge> L. \<forall>j \<ge> K. \<forall>m. ps_tier (\<sigma> j) t = TMerged m \<longrightarrow> good_merge good m" for t
  proof -
    obtain i where i: "L \<le> i" "ps_tier (\<sigma> i) t = TIdle"
      using turn_of(1) [OF T L(1)] by blast
    have "\<forall>m. ps_tier (\<sigma> j) t = TMerged m \<longrightarrow> good_merge good m" if "i \<le> j" for j
      by (rule stays [where K = L and I = "\<lambda>j. \<forall>m. ps_tier (\<sigma> j) t = TMerged m \<longrightarrow> good_merge good m" and i = i])
        (erule (1) step, simp add: i(2), rule i(1), rule that)
    with i(1) show ?thesis by blast
  qed
  from all_tiers [where I = "\<lambda>t j. \<forall>m. ps_tier (\<sigma> j) t = TMerged m \<longrightarrow> good_merge good m", OF this]
  obtain K where K: "L \<le> K" "\<forall>t. \<forall>j \<ge> K. \<forall>m. ps_tier (\<sigma> j) t = TMerged m \<longrightarrow> good_merge good m" by blast
  with L(1) latest show ?thesis by (intro exI [of _ K]) auto
qed

subsection \<open>Turns in the application\<close>

definition tier_move :: "'w PollerEnv \<Rightarrow> (Tier \<Rightarrow> 'w \<Rightarrow> (go_error + Snapshot) \<times> 'w) \<Rightarrow> Tier \<Rightarrow> 'w PollSystem \<Rightarrow> 'w PollSystem" where
  "tier_move E F t s =
     (case ps_tier s t of
        TIdle \<Rightarrow> (case poll_fetch E (F t) (tier_name t) (ps_poller s) of
            (None, p) \<Rightarrow> s\<lparr>ps_poller := p\<rparr>
          | (Some x, p) \<Rightarrow> s\<lparr>ps_poller := p, ps_tier := (ps_tier s)(t := TFetched x)\<rparr>)
      | TFetched x \<Rightarrow> (case poll_merge (tier_merge t) x (ps_poller s) of
            (m, p) \<Rightarrow> s\<lparr>ps_poller := p, ps_tier := (ps_tier s)(t := TMerged m), ps_events := ps_events s @ [(t, x)]\<rparr>)
      | TMerged m \<Rightarrow> s\<lparr>ps_poller := poll_notify E (tier_name t) m (ps_poller s), ps_tier := (ps_tier s)(t := TIdle),
            ps_delivered := ps_delivered s @ [m]\<rparr>)"

lemma poll_step_move: "poll_step E F s s' \<longleftrightarrow> (\<exists>t. s' = tier_move E F t s)"
proof
  show "\<exists>t. s' = tier_move E F t s" if "poll_step E F s s'"
    using that
  proof (induction rule: poll_step.induct)
    case (fetched s t x p)
    then show ?case by (intro exI [of _ t]) (simp add: tier_move_def)
  next
    case (failed s t p)
    then show ?case by (intro exI [of _ t]) (simp add: tier_move_def)
  next
    case (merged s t x m p)
    then show ?case by (intro exI [of _ t]) (simp add: tier_move_def)
  next
    case (notified s t m p)
    then show ?case by (intro exI [of _ t]) (simp add: tier_move_def)
  qed
  show "poll_step E F s s'" if moved: "\<exists>t. s' = tier_move E F t s"
  proof -
    obtain t where t: "s' = tier_move E F t s" using moved by blast
    show ?thesis
    proof (cases "ps_tier s t")
      case TIdle
      obtain r p where "poll_fetch E (F t) (tier_name t) (ps_poller s) = (r, p)" by fastforce
      then show ?thesis using TIdle by (cases r) (auto simp: t tier_move_def intro: poll_step.fetched poll_step.failed)
    next
      case (TFetched x)
      obtain m p where "poll_merge (tier_merge t) x (ps_poller s) = (m, p)" by fastforce
      then show ?thesis using TFetched by (auto simp: t tier_move_def intro: poll_step.merged)
    next
      case (TMerged m)
      then show ?thesis by (auto simp: t tier_move_def intro: poll_step.notified)
    qed
  qed
qed

abbreviation app_move :: "('m, 'q) AppEnv \<Rightarrow> Tier \<Rightarrow> ('m, 'q) AppWorld PollSystem \<Rightarrow> ('m, 'q) AppWorld PollSystem" where
  "app_move E \<equiv> tier_move (app_poller_env E) (app_poll E)"

text \<open>The controller answers with the registers \<open>r\<close>, and the broker acknowledges.\<close>

definition serving ::
  "('m, 'q) AppEnv \<Rightarrow> ('m \<Rightarrow> RegFile) \<Rightarrow> ('m \<Rightarrow> bool) \<Rightarrow> ('q \<Rightarrow> AppHandler broker_event list) \<Rightarrow> ('q \<Rightarrow> bool) \<Rightarrow> RegFile \<Rightarrow>
     ('m, 'q) App \<Rightarrow> bool" where
  "serving E dev up lg acks r a \<longleftrightarrow> disp_up (ae_modbus E) dev up (aw_disp (app_world a)) \<and> app_dev dev a = r
     \<and> mq_up (ae_mqtt E) lg acks (aw_mqtt (app_world a))"

definition seen :: "RegFile \<Rightarrow> Tier \<Rightarrow> Snapshot \<Rightarrow> bool" where
  "seen r t x \<longleftrightarrow> x = tier_view r t (sn_PolledAt x)"

lemma tier_poll_up:
  assumes "disp_up M dev up d"
  shows "\<exists>x d'. tier_poll (poll_ops M) t d = (Inr x, d') \<and> seen (disp_dev dev d) t x \<and> disp_up M dev up d' \<and> disp_dev dev d' = disp_dev dev d"
  using disp_live.PollHot_up [OF assms] disp_live.PollMedium_up [OF assms] disp_live.PollSlow_up [OF assms]
  by (cases t) (force simp: seen_def hot_view_def medium_view_def slow_view_def)+

lemma app_fetch_up:
  assumes "disp_up (ae_modbus E) dev up (aw_disp (pr_world p))"
  shows "\<exists>x p'. poll_fetch (app_poller_env E) (app_poll E t) n p = (Some x, p') \<and> seen (disp_dev dev (aw_disp (pr_world p))) t x
    \<and> disp_up (ae_modbus E) dev up (aw_disp (pr_world p')) \<and> disp_dev dev (aw_disp (pr_world p')) = disp_dev dev (aw_disp (pr_world p))
    \<and> aw_mqtt (pr_world p') = aw_mqtt (pr_world p)"
proof -
  have L: "device_laws (ae_modbus E) dev" using assms by (simp add: disp_up_def)
  obtain u w1 where w1: "pe_now (app_poller_env E) (pr_world p) = (u, w1)" by fastforce
  obtain v d1 where d1: "po_Now (poll_ops (ae_modbus E)) (aw_disp (pr_world p)) = (v, d1)" by fastforce
  have a1: "aw_disp w1 = d1" "aw_mqtt w1 = aw_mqtt (pr_world p)"
    using env_frames(1,3) [of E "pr_world p"] by (simp_all add: w1 d1)
  have u1: "disp_up (ae_modbus E) dev up d1" "disp_dev dev d1 = disp_dev dev (aw_disp (pr_world p))"
    using disp_live.up_now [OF assms d1] disp_source.now [OF L d1] by simp_all
  obtain x d2 where "tier_poll (poll_ops (ae_modbus E)) t d1 = (Inr x, d2)" "seen (disp_dev dev d1) t x"
    "disp_up (ae_modbus E) dev up d2" "disp_dev dev d2 = disp_dev dev d1"
    using tier_poll_up [OF u1(1)] by blast
  then show ?thesis
    by (intro exI [of _ x] exI [of _ "p\<lparr>pr_world := w1\<lparr>aw_disp := d2\<rparr>\<rparr>"]) (simp add: poll_fetch_def w1 app_poll_def a1 u1)
qed

lemma app_move_turn:
  assumes "serving E dev up lg acks r a" and "poll_inv (app_polls a)"
  shows "tier_turn (seen r) t (app_polls a) (app_move E t (app_polls a))"
proof (cases "ps_tier (app_polls a) t")
  case TIdle
  have u: "disp_up (ae_modbus E) dev up (aw_disp (app_world a))" "disp_dev dev (aw_disp (app_world a)) = r"
    using assms(1) by (simp_all add: serving_def app_dev_def)
  obtain x p' where "poll_fetch (app_poller_env E) (app_poll E t) (tier_name t) (ps_poller (app_polls a)) = (Some x, p')" "seen r t x"
    using app_fetch_up [OF u(1), of t "tier_name t"] u(2) by auto
  then show ?thesis by (simp add: tier_turn_def tier_move_def TIdle) blast
next
  case (TFetched x)
  have "pr_latest (ps_poller (app_polls a)) = merge_all (ps_events (app_polls a))" using assms(2) by (simp add: poll_inv_def)
  then show ?thesis by (simp add: tier_turn_def tier_move_def TFetched poll_merge_def Let_def)
qed (simp add: tier_turn_def tier_move_def)

subsection \<open>What the broker keeps\<close>

text \<open>The payloads of a snapshot are what is retained on the state topics.\<close>

definition shown :: "TopicBuilder \<Rightarrow> Snapshot \<Rightarrow> (string \<times> string \<times> bool) list \<Rightarrow> bool" where
  "shown topics m msgs \<longleftrightarrow> (\<forall>(x, p, r) \<in> set (messages_of topics m). retained_value msgs x = Some p)"

text \<open>The messages that say nothing else than \<open>m\<close> on the state topics.\<close>

definition agreeing :: "TopicBuilder \<Rightarrow> Snapshot \<Rightarrow> (string \<times> string \<times> bool) set" where
  "agreeing topics m = {(x, p, r). x \<in> fst ` set (messages_of topics m) \<longrightarrow> (x, p, r) \<in> set (messages_of topics m)}"

lemma state_topics: "map fst (messages_of topics m) = map (Topic_State topics) state_ids"
  by (simp add: messages_of_def comp_def buildMessages_topics)

lemma state_topics_distinct: "distinct (map fst (messages_of topics m))"
  unfolding state_topics by (simp add: distinct_map state_ids_distinct inj_on_def)

lemma messages_retained: "(x, p, r) \<in> set (messages_of topics m) \<Longrightarrow> r"
  by (auto simp: messages_of_def)

lemma message_unique:
  "(x, p, r) \<in> set (messages_of topics m) \<Longrightarrow> (x, p', r') \<in> set (messages_of topics m) \<Longrightarrow> p' = p"
  using state_topics_distinct [of topics m] by (metis Pair_inject eq_key_imp_eq_value)

lemma retained_mem: "retained_value l x = Some p \<Longrightarrow> (x, p, True) \<in> set l"
  by (auto simp: retained_value_def Let_def split: if_splits dest!: last_in_set)

lemma shown_agrees:
  assumes "shown topics m xs" and "set l \<subseteq> agreeing topics m"
  shows "shown topics m (xs @ l)"
  unfolding shown_def
proof (clarify)
  fix x p r
  assume x: "(x, p, r) \<in> set (messages_of topics m)"
  show "retained_value (xs @ l) x = Some p"
  proof (cases "retained_value l x")
    case None
    then show ?thesis using assms(1) x by (auto simp: retained_append shown_def)
  next
    case (Some p')
    have "x \<in> fst ` set (messages_of topics m)" using x by force
    with assms(2) retained_mem [OF Some] have "(x, p', True) \<in> set (messages_of topics m)" by (auto simp: agreeing_def)
    with message_unique [OF x] Some show ?thesis by (simp add: retained_append)
  qed
qed

lemma shown_published: "shown topics m (xs @ messages_of topics m)"
  unfolding shown_def
proof (clarify)
  fix x p r
  assume x: "(x, p, r) \<in> set (messages_of topics m)"
  have "retained_value (messages_of topics m) x \<noteq> None"
    using x messages_retained [OF x] by (auto simp: retained_value_def filter_empty_conv Let_def)
  then obtain p' where p': "retained_value (messages_of topics m) x = Some p'" by blast
  have "p' = p" by (rule message_unique [OF x retained_mem [OF p']])
  with p' show "retained_value (xs @ messages_of topics m) x = Some p" by (simp add: retained_append)
qed

lemma state_topic_apart:
  assumes "(x, p, r) \<in> set (messages_of topics m)"
  shows "x \<noteq> Topic_Availability topics" and "(x, p', r') \<notin> set (configs_sent b fw)"
proof -
  obtain oid where oid: "oid \<in> set state_ids" "x = Topic_State topics oid"
  proof -
    have "x \<in> set (map (Topic_State topics) state_ids)" unfolding state_topics [of topics m, symmetric] using assms by force
    then show thesis using that by auto
  qed
  then show "x \<noteq> Topic_Availability topics" by simp
  have g: "take 2 (rev (Topic_Discovery t c o')) = ''gi''" for t c o' by (simp add: topic_defs)
  have "list_all (\<lambda>i. take 2 (rev i) \<noteq> ''gi'' \<and> 2 \<le> length i) state_ids" by code_simp
  then have i: "take 2 (rev oid) \<noteq> ''gi''" "2 \<le> length oid" using oid(1) by (simp_all add: list_all_iff)
  have "take 2 (rev x) = take 2 (rev oid)" using i(2) by (simp add: oid(2) topic_defs)
  with i(1) have x: "take 2 (rev x) \<noteq> ''gi''" by simp
  show "(x, p', r') \<notin> set (configs_sent b fw)"
  proof
    assume "(x, p', r') \<in> set (configs_sent b fw)"
    then obtain t c o' where "x = Topic_Discovery t c o'" by (auto simp: configs_sent_def message_of_def)
    with x g show False by simp
  qed
qed

subsection \<open>What a step says\<close>

text \<open>\<open>says_in\<close>: since the messages \<open>xs\<close>, only messages of \<open>X\<close> were added.\<close>

definition says_in :: "('q \<Rightarrow> AppHandler broker_event list) \<Rightarrow> (string \<times> string \<times> bool) set \<Rightarrow> (string \<times> string \<times> bool) list \<Rightarrow>
    ('m, 'q) AppWorld \<Rightarrow> bool" where
  "says_in lg X xs w \<longleftrightarrow> (\<exists>l. said lg w = xs @ l \<and> set l \<subseteq> X)"

lemma says_in_self [simp]: "says_in lg X (said lg w) w"
  by (simp add: says_in_def)

lemma says_in_more:
  assumes "says_in lg X xs w" and "said lg w' = said lg w @ l" and "set l \<subseteq> X"
  shows "says_in lg X xs w'"
proof -
  obtain k where "said lg w = xs @ k" "set k \<subseteq> X" using assms(1) by (auto simp: says_in_def)
  then show ?thesis using assms(2,3) unfolding says_in_def by (intro exI [of _ "k @ l"]) simp
qed

lemma says_in_frames [simp]:
  "says_in lg X xs (on_disp g w) = says_in lg X xs w"
  "says_in lg X xs (snd (pe_now (app_poller_env E) w)) = says_in lg X xs w"
  "says_in lg X xs (pe_metrics (app_poller_env E) f w) = says_in lg X xs w"
  "says_in lg X xs (snd (app_poll E t w)) = says_in lg X xs w"
  "says_in lg X xs (on_mqtt onConnectionLost w) = says_in lg X xs w"
  "says_in lg X xs (app_world (set_system y a)) = says_in lg X xs (app_world a)"
  by (simp_all add: says_in_def said_def)

lemma says_in_state:
  assumes "log_law (ae_mqtt E) lg" and "set (messages_of topics m) \<subseteq> X" and "says_in lg X xs w"
  shows "says_in lg X xs (state_callback E topics m w)"
proof -
  obtain l where l: "said lg (state_callback E topics m w) = said lg w @ l" "set l \<subseteq> set (messages_of topics m)"
    using state_said [OF assms(1)] by blast
  show ?thesis by (rule says_in_more [OF assms(3) l(1) order_trans [OF l(2) assms(2)]])
qed

interpretation says_world: poller_world "app_poller_env E" "app_poll E" "[state_callback E topics]"
  "\<lambda>m. set (messages_of topics m) \<subseteq> X" "\<lambda>w. log_law (ae_mqtt E) lg \<and> says_in lg X xs w" for E topics X lg xs
  by unfold_locales (auto intro: says_in_state)

lemma says_in_ha:
  assumes "log_law (ae_mqtt E) lg" and "set (messages_of topics (pr_latest (ps_poller s))) \<subseteq> X"
    and "\<And>b fw. set (configs_sent b fw) \<subseteq> X" and "says_in lg X xs (pr_world (ps_poller s))"
  shows "says_in lg X xs (pr_world (ps_poller (ha_online E topics s)))"
proof -
  have d: "says_in lg X xs (publish_discovery E fw (pr_world (ps_poller s)))" for fw
  proof -
    obtain l where "said lg (publish_discovery E fw (pr_world (ps_poller s))) = said lg (pr_world (ps_poller s)) @ l"
      "set l \<subseteq> set (configs_sent (pd_builder (aw_discovery (pr_world (ps_poller s)))) fw)"
      using discovery_said [OF assms(1), of fw "pr_world (ps_poller s)"] by auto
    then show ?thesis by (rule says_in_more [OF assms(4) _ order_trans [OF _ assms(3)]])
  qed
  note m = says_in_state [OF assms(1,2) d]
  show ?thesis
  proof (cases "IsZero (sn_PolledAt (pr_latest (ps_poller s)))")
    case True
    then show ?thesis by (simp add: ha_online_def Let_def Poller_Snapshot_def d)
  next
    case False
    then show ?thesis by (simp add: ha_online_def Let_def Poller_Snapshot_def m)
  qed
qed

text \<open>A tick of the availability manager speaks when its verdict changes.\<close>

abbreviation ticked :: "('m, 'q) AppEnv \<Rightarrow> ('m, 'q) App \<Rightarrow> ('m, 'q) App" where
  "ticked E a \<equiv> a\<lparr>ap_avail := tick (app_clock E) (ap_avail a)\<rparr>"

definition verdict :: "bool \<Rightarrow> string" where
  "verdict offline = (if offline then AvailabilityOffline else AvailabilityOnline)"

lemma tick_fresh:
  "tick E a =
     (if fresh E a = am_isOffline a
      then call_back (if fresh E a then am_onOnline a else am_onOffline a)
        (a\<lparr>am_isOffline := \<not> fresh E a, am_world := snd (av_now E (am_world a))\<rparr>)
      else a\<lparr>am_isOffline := \<not> fresh E a, am_world := snd (av_now E (am_world a))\<rparr>)"
proof -
  define stale where "stale \<longleftrightarrow> (let snap = av_snapshot E (am_world a) in
    IsZero (sn_PolledAt snap) \<or> am_threshold a < time_sub (fst (av_now E (am_world a))) (sn_PolledAt snap))"
  have "fresh E a = (\<not> stale)" by (simp add: fresh_def stale_def IsZero_def Let_def not_less)
  then show ?thesis
    unfolding tick_def Let_def case_prod_unfold stale_def [unfolded Let_def, symmetric]
    by (cases stale; cases "am_isOffline a") simp_all
qed

lemma ticked_polls:
  assumes "wired E a" and "s = snd (av_now (app_clock E) (app_polls a))"
  shows "app_polls (ticked E a) =
    (if am_isOffline (ap_avail (ticked E a)) = am_isOffline (ap_avail a) then s
     else availability_callback E (ap_topics a) (verdict (am_isOffline (ap_avail (ticked E a)))) s)"
  using assms by (simp add: tick_fresh call_back_def wired_def verdict_def)

lemma app_step_says:
  assumes "app_step E W a b" and A: "accounted E lg a" and configs: "\<And>b fw. set (configs_sent b fw) \<subseteq> X"
    and latest: "set (messages_of (ap_topics a) (pr_latest (ps_poller (app_polls a)))) \<subseteq> X"
    and merged: "\<And>t m. ps_tier (app_polls a) t = TMerged m \<Longrightarrow> set (messages_of (ap_topics a) m) \<subseteq> X"
    and connect: "\<And>order. b = mqtt_event E (LinkUp order) a \<Longrightarrow> (Topic_Availability (ap_topics a), verdict False, True) \<in> X"
    and tick: "b = ticked E a \<Longrightarrow> am_isOffline (ap_avail b) \<noteq> am_isOffline (ap_avail a) \<Longrightarrow>
      (Topic_Availability (ap_topics a), verdict (am_isOffline (ap_avail b)), True) \<in> X"
  shows "says_in lg X (said lg (app_world a)) (app_world b)"
proof -
  have w: "wired E a" and L: "log_law (ae_mqtt E) lg" and T: "mqc_topics (aw_mqtt (app_world a)) = ap_topics a"
    using A by (simp_all add: accounted_def speaks_def)
  from assms(1) show ?thesis
  proof (cases rule: app_step.cases)
    case (polled s)
    have "log_law (ae_mqtt E) lg \<and> says_in lg X (said lg (app_world a)) (pr_world (ps_poller s))"
      by (rule says_world.stepped [OF polled(2), where topics = "ap_topics a"])
        (use w L merged in \<open>simp_all add: wired_def\<close>)
    then show ?thesis by (simp add: polled(1))
  next
    case (mqtt e)
    show ?thesis
    proof (rule mqtt_event_cases [OF w, of e])
      fix order assume e: "e = LinkUp order"
      have S: "said lg (app_world b) = said lg (app_world a)
          @ (if mqc_client (aw_mqtt (app_world a)) then [(Topic_Availability (ap_topics a), AvailabilityOnline, True)] else [])"
        using onConnect_said [OF L, of order "aw_mqtt (app_world a)"] by (simp add: mqtt e said_def T)
      show ?thesis
        by (rule says_in_more [OF says_in_self S]) (use connect [of order] in \<open>auto simp: mqtt e verdict_def\<close>)
    next
      assume "app_polls (mqtt_event E e a) = ha_online E (ap_topics a) (app_polls a)"
      then show ?thesis using says_in_ha [OF L latest configs says_in_self] by (simp add: mqtt)
    qed (simp_all add: mqtt)
  next
    case ticked
    define s where "s = snd (av_now (app_clock E) (app_polls a))"
    have s: "says_in lg X (said lg (app_world a)) (pr_world (ps_poller s))" by (simp add: s_def)
    show ?thesis
    proof (cases "am_isOffline (ap_avail b) = am_isOffline (ap_avail a)")
      case True
      then show ?thesis using ticked_polls [OF w s_def] s unfolding ticked by simp
    next
      case False
      let ?p = "verdict (am_isOffline (ap_avail b))"
      obtain l where l: "said lg (pr_world (ps_poller (availability_callback E (ap_topics a) ?p s))) = said lg (pr_world (ps_poller s)) @ l"
        "set l \<subseteq> {(Topic_Availability (ap_topics a), ?p, True)}"
        using availability_said [OF L] by blast
      have "says_in lg X (said lg (app_world a)) (pr_world (ps_poller (availability_callback E (ap_topics a) ?p s)))"
        by (rule says_in_more [OF s l(1)]) (use l(2) tick [OF ticked False] in auto)
      then show ?thesis using ticked_polls [OF w s_def] False unfolding ticked by simp
    qed
  qed simp_all
qed

lemma agreeing_members:
  "messages_of topics m = messages_of topics M \<Longrightarrow> set (messages_of topics m) \<subseteq> agreeing topics M"
  "set (configs_sent b fw) \<subseteq> agreeing topics M"
  "(Topic_Availability topics, p, True) \<in> agreeing topics M"
proof -
  show "set (messages_of topics m) \<subseteq> agreeing topics M" if "messages_of topics m = messages_of topics M"
    using that by (auto simp: agreeing_def)
  show "set (configs_sent b fw) \<subseteq> agreeing topics M"
    using state_topic_apart(2) by (fastforce simp: agreeing_def)
  show "(Topic_Availability topics, p, True) \<in> agreeing topics M"
    using state_topic_apart(1) by (fastforce simp: agreeing_def)
qed

subsection \<open>An endless run of the application\<close>

definition controller_view :: "RegFile \<Rightarrow> gotime \<Rightarrow> Snapshot" where
  "controller_view r t = assemble (hot_view r t) (medium_view r t) (slow_view r t) t"

lemma good_merge_view:
  assumes "good_merge (seen r) m"
  shows "m = controller_view r (sn_PolledAt m)" and "messages_of topics m = messages_of topics (controller_view r zero_time)"
proof -
  obtain evs where evs: "m = merge_all evs" "\<And>t. seen r t (last_partial t evs)" using assms by (auto simp: good_merge_def)
  obtain a b c where "last_partial HotTier evs = hot_view r a" "last_partial MediumTier evs = medium_view r b"
      "last_partial SlowTier evs = slow_view r c"
    using evs(2) [of HotTier] evs(2) [of MediumTier] evs(2) [of SlowTier] by (auto simp: seen_def)
  then have m: "m = controller_view r (last_polled evs)"
    by (simp add: evs(1) merge_all_assemble controller_view_def assemble_def hot_view_def medium_view_def slow_view_def)
  then show "m = controller_view r (sn_PolledAt m)" by (simp add: controller_view_def assemble_def)
  have "buildMessages topics (controller_view r t) = buildMessages topics (controller_view r zero_time)" for t
    by (simp add: buildMessages_def controller_view_def assemble_def hot_view_def medium_view_def slow_view_def
        hvacMode_def hvacAction_def problemValue_def DecodeErrorSet_def)
  from this [of "last_polled evs"] show "messages_of topics m = messages_of topics (controller_view r zero_time)"
    by (simp only: messages_of_def m)
qed

lemma app_step_polls:
  assumes "app_step E W a b" and w: "wired E a"
  shows "same_polls (app_polls a) (app_polls b) \<or> (\<exists>t. app_polls b = app_move E t (app_polls a))"
  using assms(1)
proof (cases rule: app_step.cases)
  case (polled s)
  then show ?thesis by (auto simp: poll_step_move)
next
  case (mqtt e)
  have "same_polls (app_polls a) (app_polls (mqtt_event E e a))"
    by (rule mqtt_event_cases [OF w, of e]) (simp_all add: same_polls_def)
  with mqtt show ?thesis by simp
next
  case ticked
  then show ?thesis using tick_cases [OF w HOL.refl] by (auto simp: same_polls_def)
qed (simp_all add: same_polls_def)

lemma notify_said:
  assumes "serving E dev up lg acks r a" and "wired E a" and "ps_tier (app_polls a) t = TMerged m"
  shows "said lg (pr_world (ps_poller (app_move E t (app_polls a)))) = said lg (app_world a) @ messages_of (ap_topics a) m"
proof -
  have "said lg (snd (pe_now (app_poller_env E) w)) = said lg w" "said lg (pe_metrics (app_poller_env E) g w) = said lg w" for g w
    by (simp_all add: said_def)
  then show ?thesis
    using assms state_up [of E lg acks "app_world a" "ap_topics a" m]
    by (simp add: tier_move_def poll_notify_def Let_def case_prod_unfold wired_def serving_def)
qed

definition app_run_of :: "('m, 'q) AppEnv \<Rightarrow> ('m \<Rightarrow> 'm \<Rightarrow> bool) \<Rightarrow> (nat \<Rightarrow> ('m, 'q) App) \<Rightarrow> bool" where
  "app_run_of E W \<rho> \<longleftrightarrow> (\<forall>i. \<rho> (Suc i) = \<rho> i \<or> app_step E W (\<rho> i) (\<rho> (Suc i)))"

text \<open>No tier goroutine is passed over for ever.\<close>

definition tiers_fair :: "('m, 'q) AppEnv \<Rightarrow> (nat \<Rightarrow> ('m, 'q) App) \<Rightarrow> bool" where
  "tiers_fair E \<rho> \<longleftrightarrow> (\<forall>t i. \<exists>j \<ge> i. \<rho> (Suc j) = on_polls (app_move E t) (\<rho> j))"

lemma app_run_accounts:
  assumes "app_run_of E W \<rho>" and "accounted E lg (\<rho> 0)"
  shows "accounted E lg (\<rho> i) \<and> ap_topics (\<rho> i) = ap_topics (\<rho> 0)"
proof (induction i)
  case (Suc i)
  have "\<rho> (Suc i) = \<rho> i \<or> app_step E W (\<rho> i) (\<rho> (Suc i))" using assms(1) by (simp add: app_run_of_def)
  then show ?case
  proof
    assume s: "app_step E W (\<rho> i) (\<rho> (Suc i))"
    have "wired E (\<rho> i)" using Suc by (simp add: accounted_def)
    with app_step_wired [OF s] app_step_accounted [OF s] Suc show ?thesis by simp
  qed (use Suc in simp)
qed (use assms(2) in simp)

lemma app_run_turns:
  assumes run: "app_run_of E W \<rho>" and fair: "tiers_fair E \<rho>" and acc: "\<And>i. accounted E lg (\<rho> i)"
    and serve: "\<And>i. k \<le> i \<Longrightarrow> serving E dev up lg acks r (\<rho> i)"
  shows "turns (seen r) k (\<lambda>i. app_polls (\<rho> i))"
  unfolding turns_def
proof (intro conjI allI impI)
  fix i assume i: "k \<le> i"
  have inv: "wired E (\<rho> j)" "poll_inv (app_polls (\<rho> j))" for j using acc [of j] by (simp_all add: accounted_def)
  note turn = app_move_turn [OF serve inv(2)]
  have "\<rho> (Suc i) = \<rho> i \<or> app_step E W (\<rho> i) (\<rho> (Suc i))" using run by (simp add: app_run_of_def)
  then show "same_polls (app_polls (\<rho> i)) (app_polls (\<rho> (Suc i)))
      \<or> (\<exists>t. tier_turn (seen r) t (app_polls (\<rho> i)) (app_polls (\<rho> (Suc i))))"
  proof
    assume "app_step E W (\<rho> i) (\<rho> (Suc i))"
    from app_step_polls [OF this inv(1)] show ?thesis
    proof
      assume "\<exists>t. app_polls (\<rho> (Suc i)) = app_move E t (app_polls (\<rho> i))"
      then obtain t where "app_polls (\<rho> (Suc i)) = app_move E t (app_polls (\<rho> i))" by blast
      with turn [OF i, of t] show ?thesis by (intro disjI2 exI [of _ t]) simp
    qed simp
  qed (simp add: same_polls_def)
  fix t
  obtain j where j: "i \<le> j" "\<rho> (Suc j) = on_polls (app_move E t) (\<rho> j)" using fair unfolding tiers_fair_def by blast
  have "k \<le> j" using i j(1) by simp
  from turn [OF this, of t] j show "\<exists>j \<ge> i. tier_turn (seen r) t (app_polls (\<rho> j)) (app_polls (\<rho> (Suc j)))"
    by (intro exI [of _ j]) simp
qed

lemma app_run_shown:
  assumes run: "app_run_of E W \<rho>" and fair: "tiers_fair E \<rho>" and acc: "accounted E lg (\<rho> 0)"
    and serve: "\<And>i. k \<le> i \<Longrightarrow> serving E dev up lg acks r (\<rho> i)"
  defines "T \<equiv> ap_topics (\<rho> 0)" and "M \<equiv> controller_view r zero_time"
  shows "\<exists>K \<ge> k. \<forall>j \<ge> K. good_merge (seen r) (pr_latest (ps_poller (app_polls (\<rho> j)))) \<and> shown T M (said lg (app_world (\<rho> j)))"
proof -
  have A: "accounted E lg (\<rho> i)" "ap_topics (\<rho> i) = T" for i using app_run_accounts [OF run acc] by (simp_all add: T_def)
  have inv: "wired E (\<rho> i)" "pr_latest (ps_poller (app_polls (\<rho> i))) = merge_all (ps_events (app_polls (\<rho> i)))" for i
    using A(1) [of i] by (simp_all add: accounted_def poll_inv_def)
  have turns: "turns (seen r) k (\<lambda>i. app_polls (\<rho> i))" by (rule app_run_turns [OF run fair A(1) serve])
  obtain L where L: "k \<le> L" "\<forall>j \<ge> L. good_merge (seen r) (merge_all (ps_events (app_polls (\<rho> j))))
      \<and> (\<forall>t m. ps_tier (app_polls (\<rho> j)) t = TMerged m \<longrightarrow> good_merge (seen r) m)"
    using merged_settles [OF turns] by auto
  have latest: "good_merge (seen r) (pr_latest (ps_poller (app_polls (\<rho> j))))" if "L \<le> j" for j
    using L(2) that by (simp add: inv(2))
  have merged: "messages_of T m = messages_of T M" if "L \<le> j" "ps_tier (app_polls (\<rho> j)) t = TMerged m" for j t m
    using L(2) that good_merge_view(2) unfolding M_def by blast
  have keep: "shown T M (said lg (app_world (\<rho> (Suc j))))" if j: "L \<le> j" "shown T M (said lg (app_world (\<rho> j)))" for j
  proof -
    have "\<rho> (Suc j) = \<rho> j \<or> app_step E W (\<rho> j) (\<rho> (Suc j))" using run by (simp add: app_run_of_def)
    then show ?thesis
    proof
      assume s: "app_step E W (\<rho> j) (\<rho> (Suc j))"
      have "messages_of T (pr_latest (ps_poller (app_polls (\<rho> j)))) = messages_of T M"
        using good_merge_view(2) [OF latest [OF j(1)]] by (simp add: M_def)
      then have "says_in lg (agreeing T M) (said lg (app_world (\<rho> j))) (app_world (\<rho> (Suc j)))"
        using app_step_says [OF s A(1) agreeing_members(2), of T M] agreeing_members merged [OF j(1)] A(2) by metis
      then show ?thesis using shown_agrees [OF j(2)] by (auto simp: says_in_def)
    qed (use j(2) in simp)
  qed
  obtain i m where i: "L \<le> i" "ps_tier (app_polls (\<rho> i)) HotTier = TMerged m"
    and turn: "tier_turn (seen r) HotTier (app_polls (\<rho> i)) (app_polls (\<rho> (Suc i)))"
    using turn_of(3) [OF turns L(1), of HotTier] by blast
  have "\<not> same_polls (app_polls (\<rho> i)) (app_polls (\<rho> (Suc i)))"
    using turn i(2) by (auto simp: tier_turn_def same_polls_def dest!: fun_cong [of _ _ HotTier])
  moreover from this have "\<rho> (Suc i) \<noteq> \<rho> i" by (auto simp: same_polls_def)
  then have "app_step E W (\<rho> i) (\<rho> (Suc i))" using run unfolding app_run_of_def by blast
  ultimately obtain t where t: "app_polls (\<rho> (Suc i)) = app_move E t (app_polls (\<rho> i))"
    using app_step_polls [OF _ inv(1)] by blast
  have k: "k \<le> i" using L(1) i(1) by simp
  have "t = HotTier"
  proof (rule ccontr)
    assume "t \<noteq> HotTier"
    have "poll_inv (app_polls (\<rho> i))" using A(1) by (simp add: accounted_def)
    from tier_turn_other [OF app_move_turn [OF serve [OF k] this] \<open>t \<noteq> HotTier\<close>]
    have "ps_tier (app_polls (\<rho> (Suc i))) HotTier = TMerged m" by (simp add: t i(2))
    with turn i(2) show False by (simp add: tier_turn_def)
  qed
  then have "said lg (app_world (\<rho> (Suc i))) = said lg (app_world (\<rho> i)) @ messages_of T m"
    using notify_said [OF serve [OF k] inv(1) i(2)] by (simp add: t A(2))
  then have start: "shown T M (said lg (app_world (\<rho> (Suc i))))"
    using merged [OF i(1,2)] shown_published [of T M] by simp
  have "shown T M (said lg (app_world (\<rho> j)))" if "Suc i \<le> j" for j
    by (rule stays [where K = L and I = "\<lambda>j. shown T M (said lg (app_world (\<rho> j)))" and i = "Suc i"])
      (erule (1) keep, rule start, use i(1) that in simp_all)
  with latest k i(1) show ?thesis by (intro exI [of _ "Suc i"]) simp
qed

subsection \<open>A healthy environment\<close>

text \<open>
  What is asked of the surroundings: the controller answers (\<open>up\<close>) and its registers are \<open>r\<close>, the broker
  acknowledges, and the context is not cancelled.
\<close>

definition answering ::
  "('m, 'q) AppEnv \<Rightarrow> ('m \<Rightarrow> RegFile) \<Rightarrow> ('m \<Rightarrow> bool) \<Rightarrow> ('q \<Rightarrow> AppHandler broker_event list) \<Rightarrow> ('q \<Rightarrow> bool) \<Rightarrow> RegFile \<Rightarrow>
     ('m, 'q) App \<Rightarrow> bool" where
  "answering E dev up lg acks r a \<longleftrightarrow> up (cl_world (ds_client (aw_disp (app_world a)))) \<and> app_dev dev a = r
     \<and> mq_up (ae_mqtt E) lg acks (aw_mqtt (app_world a)) \<and> ap_phase a \<noteq> PhStopped"

lemma settled_serving:
  assumes run: "app_run_of E W \<rho>" and acc: "\<And>i. accounted E lg (\<rho> i)" and s: "settled E dev up (\<rho> k)"
    and env: "\<And>i. k \<le> i \<Longrightarrow> answering E dev up lg acks r (\<rho> i)" and "k \<le> i"
  shows "serving E dev up lg acks r (\<rho> i)"
proof -
  have "settled E dev up (\<rho> i)"
    using \<open>k \<le> i\<close>
  proof (induction i rule: dec_induct)
    case base
    show ?case by (rule s)
  next
    case (step i)
    have w: "wired E (\<rho> i)" using acc [of i] by (simp add: accounted_def)
    have "\<rho> (Suc i) = \<rho> i \<or> app_step E W (\<rho> i) (\<rho> (Suc i))" using run by (simp add: app_run_of_def)
    then show ?case
    proof
      assume "app_step E W (\<rho> i) (\<rho> (Suc i))"
      then show ?thesis
        by (rule app_step_settled [OF _ w step.IH]) (use env [of "Suc i"] step.hyps in \<open>simp_all add: answering_def\<close>)
    qed (use step.IH in simp)
  qed
  with env [OF \<open>k \<le> i\<close>] show ?thesis by (simp add: serving_def settled_def calm_disp_def answering_def)
qed

subsection \<open>Properties\<close>

text \<open>
  C3. Home Assistant is eventually consistent with the controller. Consider an endless run of the
  application in which no tier goroutine is passed over for ever, with any interleaving of polls,
  messages, ticks, reconnects and outside events. If at some moment the connection is settled (open, with no
  trigger left over and the supervisor waiting), and from then on the controller answers, its registers stand
  still and the broker acknowledges, then from some later moment on the snapshot of the application shows every
  register, and what the broker retains on each of the nineteen state topics is the payload of the
  controller's registers, whatever polls failed and whatever was published before.
\<close>

theorem eventually_consistent:
  assumes "New E cfg mw qw = Some a0" and "Run E evs a0 = Some (Inr a)" and "log_law (ae_mqtt E) lg"
    and "published (lg qw) = []" and "(app_step E W)\<^sup>*\<^sup>* a (\<rho> 0)" and "app_run_of E W \<rho>" and "tiers_fair E \<rho>"
    and "settled E dev up (\<rho> k)" and "\<And>i. k \<le> i \<Longrightarrow> answering E dev up lg acks r (\<rho> i)"
  shows "\<exists>K \<ge> k. \<forall>j \<ge> K. (\<exists>t. Poller_Snapshot (ps_poller (app_polls (\<rho> j))) = controller_view r t)
    \<and> (\<forall>(topic, payload, retained) \<in> set (messages_of (ap_topics a) (controller_view r zero_time)).
         retained_value (said lg (app_world (\<rho> j))) topic = Some payload)"
proof -
  have acc: "accounted E lg (\<rho> 0)" by (rule app_run_accounted [OF assms(5) conjunct1 [OF Run_accounted [OF assms(1-4)]]])
  have A: "accounted E lg (\<rho> i)" for i using app_run_accounts [OF assms(6) acc] by simp
  have "ap_topics (\<rho> 0) = ap_topics a" using Run_subs [OF assms(1,2,5)] by simp
  with app_run_shown [OF assms(6,7) acc settled_serving [OF assms(6) A assms(8,9)]] good_merge_view(1) show ?thesis
    unfolding Poller_Snapshot_def shown_def by metis
qed

subsection \<open>Round robin on the simulated controller and broker\<close>

lemma serving_world:
  "serving E dev up lg acks r a \<longleftrightarrow> disp_up (ae_modbus E) dev up (aw_disp (app_world a))
     \<and> disp_dev dev (aw_disp (app_world a)) = r \<and> mq_up (ae_mqtt E) lg acks (aw_mqtt (app_world a))"
  by (simp add: serving_def app_dev_def)

lemma serving_move:
  assumes s: "serving E dev up lg acks r a" and w: "wired E a"
  shows "serving E dev up lg acks r (on_polls (app_move E t) a)"
proof (cases "ps_tier (app_polls a) t")
  case TIdle
  have "disp_up (ae_modbus E) dev up (aw_disp (app_world a))" using s by (simp add: serving_def)
  from app_fetch_up [OF this, of t "tier_name t"] s TIdle show ?thesis by (auto simp: serving_world tier_move_def)
next
  case (TFetched x)
  then show ?thesis using s by (simp add: serving_world tier_move_def poll_merge_def Let_def)
next
  case (TMerged m)
  have L: "device_laws (ae_modbus E) dev" using s by (simp add: serving_def disp_up_def)
  have n: "disp_up (ae_modbus E) dev up (snd (po_Now (poll_ops (ae_modbus E)) d))"
    "disp_dev dev (snd (po_Now (poll_ops (ae_modbus E)) d)) = disp_dev dev d" if "disp_up (ae_modbus E) dev up d" for d
    using disp_live.up_now [OF that] disp_source.now [OF L] by (metis prod.collapse)+
  have m: "disp_up (ae_modbus E) dev up (d\<lparr>ds_client := upd_metrics f (ds_client d)\<rparr>) = disp_up (ae_modbus E) dev up d"
    "disp_dev dev (d\<lparr>ds_client := upd_metrics f (ds_client d)\<rparr>) = disp_dev dev d" for d f
    by (simp_all add: disp_up_def disp_dev_def upd_metrics_def usable_def)
  have "pr_subscribers (ps_poller (app_polls a)) = [state_callback E (ap_topics a)]" using w by (simp add: wired_def)
  moreover have "mq_up (ae_mqtt E) lg acks (aw_mqtt (state_callback E (ap_topics a) m (app_world a)))"
    using s state_up [of E lg acks "app_world a" "ap_topics a" m] by (simp add: serving_def)
  ultimately show ?thesis
    using s n m by (simp add: serving_world tier_move_def TMerged poll_notify_def Let_def case_prod_unfold)
qed

definition nth_tier :: "nat \<Rightarrow> Tier" where
  "nth_tier i = (if i mod 3 = 0 then HotTier else if i mod 3 = 1 then MediumTier else SlowTier)"

primrec round_robin :: "('m, 'q) AppEnv \<Rightarrow> ('m, 'q) App \<Rightarrow> nat \<Rightarrow> ('m, 'q) App" where
  "round_robin E a 0 = a"
| "round_robin E a (Suc i) = on_polls (app_move E (nth_tier i)) (round_robin E a i)"

lemma move_step: "app_step E W a (on_polls (app_move E t) a)"
proof -
  have "on_polls (app_move E t) a = on_polls (\<lambda>_. app_move E t (app_polls a)) a" by (simp add: on_polls_def)
  moreover have "poll_step (app_poller_env E) (app_poll E) (app_polls a) (app_move E t (app_polls a))"
    unfolding poll_step_move by blast
  ultimately show ?thesis using app_step.polled [of E a _ W] by simp
qed

lemma nth_tier_fair: "\<exists>j \<ge> i. nth_tier j = t"
proof (cases t)
  case HotTier
  then show ?thesis by (intro exI [of _ "3 * i"]) (simp add: nth_tier_def)
next
  case MediumTier
  then show ?thesis by (intro exI [of _ "3 * i + 1"]) (simp add: nth_tier_def mod_Suc)
next
  case SlowTier
  then show ?thesis by (intro exI [of _ "3 * i + 2"]) (simp add: nth_tier_def mod_Suc)
qed

lemma round_robin_fair: "app_run_of E W (round_robin E a)" "tiers_fair E (round_robin E a)"
proof -
  have "app_step E W (round_robin E a i) (round_robin E a (Suc i))" for i by (simp add: move_step)
  then show "app_run_of E W (round_robin E a)" unfolding app_run_of_def by blast
  show "tiers_fair E (round_robin E a)"
    unfolding tiers_fair_def
  proof (intro allI)
    fix t and i :: nat
    obtain j where "i \<le> j" "nth_tier j = t" using nth_tier_fair by blast
    then show "\<exists>j \<ge> i. round_robin E a (Suc j) = on_polls (app_move E t) (round_robin E a j)" by (intro exI [of _ j]) simp
  qed
qed

lemma round_robin_serving:
  "serving E dev up lg acks r a \<Longrightarrow> wired E a \<Longrightarrow>
     serving E dev up lg acks r (round_robin E a i) \<and> wired E (round_robin E a i)"
proof (induction i)
  case (Suc i)
  then have "serving E dev up lg acks r (round_robin E a i)" "wired E (round_robin E a i)" by simp_all
  then show ?case using serving_move app_step_wired [OF move_step] by auto
qed simp

lemma round_robin_phase: "ap_phase (round_robin E a i) = ap_phase a"
  by (induction i) simp_all

theorem eventually_consistent_witness:
  "\<exists>a0 a. New sim_app_env default_config (sim_world sample_regs []) [] = Some a0 \<and> Run sim_app_env sim_events a0 = Some (Inr a)
     \<and> (\<exists>K. \<forall>j \<ge> K. retained_value (said id (app_world (round_robin sim_app_env a j))) (Topic_State (ap_topics a) ''fan_target'')
          = Some (dec_nat 32))"
proof -
  obtain a0 a where a: "New sim_app_env default_config (sim_world sample_regs []) [] = Some a0"
    "Run sim_app_env sim_events a0 = Some (Inr a)" "app_dev wd_dev a = sample_regs"
    "disp_up (ae_modbus sim_app_env) wd_dev (\<lambda>w. wd_script w = []) (aw_disp (app_world a))"
    using sim_app by blast
  let ?\<rho> = "round_robin sim_app_env a"
  have "serving sim_app_env wd_dev (\<lambda>w. wd_script w = []) id (\<lambda>_. True) sample_regs a"
    using a(3,4) sim_app_quiet [OF a(1,2)] by (simp add: serving_def)
  moreover have "wired sim_app_env a" using Run_subs [OF a(1,2) rtranclp.rtrancl_refl] by simp
  ultimately have "serving sim_app_env wd_dev (\<lambda>w. wd_script w = []) id (\<lambda>_. True) sample_regs (?\<rho> i)" for i
    using round_robin_serving by blast
  then have s: "answering sim_app_env wd_dev (\<lambda>w. wd_script w = []) id (\<lambda>_. True) sample_regs (?\<rho> i)" for i
    using Run_waiting [OF a(1,2)] round_robin_phase [of sim_app_env a i]
    by (simp only: serving_def answering_def disp_up_def usable_def) simp
  have c: "settled sim_app_env wd_dev (\<lambda>w. wd_script w = []) (?\<rho> 0)" using sim_app_settled [OF a(1,2,4)] by simp
  have p: "published (id []) = []" by (simp add: published_def)
  have r: "(app_step sim_app_env (\<lambda>_ _. False))\<^sup>*\<^sup>* a (?\<rho> 0)" by simp
  obtain K where K: "\<forall>j \<ge> K. \<forall>(topic, payload, retained) \<in> set (messages_of (ap_topics a) (controller_view sample_regs zero_time)).
      retained_value (said id (app_world (?\<rho> j))) topic = Some payload"
    using eventually_consistent [OF a(1,2) sim_app_laws(1) p r round_robin_fair c s] by blast
  have "(Topic_State (ap_topics a) ''fan_target'', dec_nat 32, True) \<in> set (messages_of (ap_topics a) (controller_view sample_regs zero_time))"
    by (simp add: messages_of_def buildMessages_def state_msg_def controller_view_def assemble_def hot_view_def sample_regs_def fmt_u16_def)
  with K a(1,2) show ?thesis by blast
qed

end
