(* ===== verification/AvailabilityLoop.thy ===== *)
theory AvailabilityLoop
  imports Convergence
begin

text \<open>
  The availability manager of \<^verbatim>\<open>application/service/availability_manager.go\<close> inside an endless run of the
  application: when the age of the snapshot has settled on one side of the threshold, the manager's next
  tick takes the verdict over, and what the broker retains on the availability topic follows it for good.
\<close>

subsection \<open>The ticker's turns\<close>

text \<open>The goroutine of the manager is not passed over for ever.\<close>

definition ticks_fair :: "('m, 'q) AppEnv \<Rightarrow> (nat \<Rightarrow> ('m, 'q) App) \<Rightarrow> bool" where
  "ticks_fair E \<rho> \<longleftrightarrow> (\<forall>i. \<exists>j \<ge> i. \<rho> (Suc j) = ticked E (\<rho> j))"

text \<open>Only a tick moves the manager.\<close>

lemma app_step_offline:
  assumes "b = a \<or> app_step E W a b" and "b \<noteq> ticked E a"
  shows "am_isOffline (ap_avail b) = am_isOffline (ap_avail a)"
  using assms(1)
proof
  assume "app_step E W a b"
  then show ?thesis by (cases rule: app_step.cases) (use assms(2) in simp_all)
qed simp

lemma app_step_verdict:
  assumes "b = a \<or> app_step E W a b" and "fresh (app_clock E) (ap_avail a) = v" and "am_isOffline (ap_avail a) = (\<not> v)"
  shows "am_isOffline (ap_avail b) = (\<not> v)"
  using app_step_offline [OF assms(1)] assms(2,3) by (cases "b = ticked E a") simp_all

lemma first_tick:
  assumes run: "app_run_of E W \<rho>" and fair: "ticks_fair E \<rho>"
  shows "\<exists>j \<ge> k. \<rho> (Suc j) = ticked E (\<rho> j) \<and> am_isOffline (ap_avail (\<rho> j)) = am_isOffline (ap_avail (\<rho> k))"
proof -
  define j where "j = (LEAST j. k \<le> j \<and> \<rho> (Suc j) = ticked E (\<rho> j))"
  have j: "k \<le> j \<and> \<rho> (Suc j) = ticked E (\<rho> j)"
    unfolding j_def by (rule LeastI_ex) (use fair in \<open>auto simp: ticks_fair_def\<close>)
  have before: "\<rho> (Suc n) \<noteq> ticked E (\<rho> n)" if "k \<le> n" "n < j" for n
    using not_less_Least [of n "\<lambda>j. k \<le> j \<and> \<rho> (Suc j) = ticked E (\<rho> j)"] that by (simp add: j_def)
  have "n \<le> j \<longrightarrow> am_isOffline (ap_avail (\<rho> n)) = am_isOffline (ap_avail (\<rho> k))" if "k \<le> n" for n
    using that
  proof (induction n rule: dec_induct)
    case (step n)
    show ?case
    proof
      assume n: "Suc n \<le> j"
      have "\<rho> (Suc n) = \<rho> n \<or> app_step E W (\<rho> n) (\<rho> (Suc n))" using run by (simp add: app_run_of_def)
      from app_step_offline [OF this before] step n
      show "am_isOffline (ap_avail (\<rho> (Suc n))) = am_isOffline (ap_avail (\<rho> k))" by simp
    qed
  qed simp
  with j show ?thesis by blast
qed

subsection \<open>The availability topic\<close>

text \<open>The messages that say nothing else than \<open>p\<close> on the availability topic.\<close>

definition announcing :: "TopicBuilder \<Rightarrow> string \<Rightarrow> (string \<times> string \<times> bool) set" where
  "announcing topics p = {(x, q, r). x = Topic_Availability topics \<longrightarrow> q = p}"

lemma announcing_members:
  "set (messages_of topics m) \<subseteq> announcing topics p" "set (configs_sent b fw) \<subseteq> announcing topics p"
  "(Topic_Availability topics, q, r) \<in> announcing topics p \<longleftrightarrow> q = p"
  using state_topic_apart(1) configs_not_availability by (fastforce simp: announcing_def)+

lemma announced_stays:
  assumes "retained_value xs (Topic_Availability topics) = Some p" and "set l \<subseteq> announcing topics p"
  shows "retained_value (xs @ l) (Topic_Availability topics) = Some p"
proof (cases "retained_value l (Topic_Availability topics)")
  case (Some q)
  with assms(2) retained_mem [OF Some] have "q = p" by (auto simp: announcing_def)
  with Some show ?thesis by (simp add: retained_append)
qed (simp add: retained_append assms(1))

lemma announced_now: "retained_value (xs @ [(topic, p, True)]) topic = Some p"
  unfolding retained_append by (simp add: retained_value_def)

lemma availability_up:
  assumes "mq_up (ae_mqtt E) lg acks (aw_mqtt (pr_world (ps_poller s)))"
  shows "said lg (pr_world (ps_poller (availability_callback E topics p s)))
      = said lg (pr_world (ps_poller s)) @ [(Topic_Availability topics, p, True)]
    \<and> mq_up (ae_mqtt E) lg acks (aw_mqtt (pr_world (ps_poller (availability_callback E topics p s))))"
proof -
  obtain q where q: "mq_Publish (ae_mqtt E) (Topic_Availability topics) p True (aw_mqtt (pr_world (ps_poller s))) = (None, q)"
    "mq_up (ae_mqtt E) lg acks q"
    using mqtt_live.pub_up [OF assms] by blast
  from mqtt_pub.pub_law [OF mqtt_live.up_ok [OF assms] q(1)] q show ?thesis
    by (simp add: said_def availability_callback_def)
qed

text \<open>The tick that changes sides publishes the verdict.\<close>

lemma ticked_said:
  assumes "mq_up (ae_mqtt E) lg acks (aw_mqtt (app_world a))" and "wired E a"
    and "fresh (app_clock E) (ap_avail a) = am_isOffline (ap_avail a)"
  shows "said lg (app_world (ticked E a)) =
      said lg (app_world a) @ [(Topic_Availability (ap_topics a), verdict (\<not> am_isOffline (ap_avail a)), True)]
    \<and> mq_up (ae_mqtt E) lg acks (aw_mqtt (app_world (ticked E a)))"
proof -
  define s where "s = snd (av_now (app_clock E) (app_polls a))"
  have s: "mq_up (ae_mqtt E) lg acks (aw_mqtt (pr_world (ps_poller s)))" "said lg (pr_world (ps_poller s)) = said lg (app_world a)"
    using assms(1) by (simp_all add: s_def said_def)
  show ?thesis
    using ticked_polls [OF assms(2) s_def] availability_up [OF s(1), of "ap_topics a"] s(2) assms(3) by simp
qed

subsection \<open>Properties\<close>

lemma app_run_announces:
  assumes run: "app_run_of E W \<rho>" and fair: "ticks_fair E \<rho>" and acc: "accounted E lg (\<rho> 0)"
    and mq: "\<And>i. k \<le> i \<Longrightarrow> mq_up (ae_mqtt E) lg acks (aw_mqtt (app_world (\<rho> i)))"
    and settled: "\<And>i. k \<le> i \<Longrightarrow> fresh (app_clock E) (ap_avail (\<rho> i)) = v" and differs: "am_isOffline (ap_avail (\<rho> k)) = v"
    and link: "v \<or> (\<forall>i \<ge> k. \<forall>order. \<rho> (Suc i) \<noteq> mqtt_event E (LinkUp order) (\<rho> i))"
  shows "\<exists>K \<ge> k. \<forall>j \<ge> K. am_isOffline (ap_avail (\<rho> j)) = (\<not> v)
    \<and> retained_value (said lg (app_world (\<rho> j))) (Topic_Availability (ap_topics (\<rho> 0))) = Some (verdict (\<not> v))"
proof -
  let ?T = "ap_topics (\<rho> 0)"
  have A: "accounted E lg (\<rho> i)" "ap_topics (\<rho> i) = ?T" for i using app_run_accounts [OF run acc] by simp_all
  have move: "\<rho> (Suc i) = \<rho> i \<or> app_step E W (\<rho> i) (\<rho> (Suc i))" for i using run by (simp add: app_run_of_def)
  obtain i where i: "k \<le> i" "\<rho> (Suc i) = ticked E (\<rho> i)" "am_isOffline (ap_avail (\<rho> i)) = v"
    using first_tick [OF run fair, of k] differs by auto
  define I where "I j \<longleftrightarrow> am_isOffline (ap_avail (\<rho> j)) = (\<not> v)
    \<and> retained_value (said lg (app_world (\<rho> j))) (Topic_Availability ?T) = Some (verdict (\<not> v))" for j
  have "wired E (\<rho> i)" using A(1) [of i] by (simp add: accounted_def)
  from ticked_said [OF mq [OF i(1)] this] have start: "I (Suc i)"
    by (simp add: I_def i settled [OF i(1)] A(2) [of i] announced_now)
  have keep: "I (Suc j)" if j: "k \<le> j" "I j" for j
  proof -
    have o': "am_isOffline (ap_avail (\<rho> (Suc j))) = (\<not> v)"
      by (rule app_step_verdict [OF move settled [OF j(1)]]) (use j(2) in \<open>simp add: I_def\<close>)
    have "says_in lg (announcing ?T (verdict (\<not> v))) (said lg (app_world (\<rho> j))) (app_world (\<rho> (Suc j)))"
      using move [of j]
    proof
      assume s: "app_step E W (\<rho> j) (\<rho> (Suc j))"
      show ?thesis
        by (rule app_step_says [OF s A(1)]) (use link j(1) o' in \<open>auto simp: announcing_members A(2) [of j]\<close>)
    qed simp
    then obtain l where "said lg (app_world (\<rho> (Suc j))) = said lg (app_world (\<rho> j)) @ l" "set l \<subseteq> announcing ?T (verdict (\<not> v))"
      by (auto simp: says_in_def)
    with announced_stays [OF _ this(2)] j(2) o' show ?thesis by (simp add: I_def)
  qed
  have "I j" if "Suc i \<le> j" for j
    by (rule stays [where K = k and I = I and i = "Suc i"]) (erule (1) keep, rule start, use i(1) that in simp_all)
  with i(1) show ?thesis unfolding I_def by (intro exI [of _ "Suc i"]) simp
qed

text \<open>
  C4. The broker learns whether the controller is there. Consider an endless run of the application in
  which the manager's ticker is not passed over for ever, with any interleaving of polls, messages and
  outside events. If from some moment on the snapshot stays on one side of the staleness threshold, the
  manager still thinks the opposite and the broker acknowledges, then from some later moment on the
  manager's state is the verdict and the availability topic retains its payload: \<open>online\<close> for a fresh
  snapshot, \<open>offline\<close> for a stale one. The second needs that the connection to the broker is not
  established anew, for \<^verbatim>\<open>onConnect\<close> announces \<open>online\<close> whatever the manager knows.
\<close>

theorem availability_converges:
  assumes "New E cfg mw qw = Some a0" and "Run E evs a0 = Some (Inr a)" and "log_law (ae_mqtt E) lg"
    and "published (lg qw) = []" and "(app_step E W)\<^sup>*\<^sup>* a (\<rho> 0)" and "app_run_of E W \<rho>" and "ticks_fair E \<rho>"
    and "\<And>i. k \<le> i \<Longrightarrow> mq_up (ae_mqtt E) lg acks (aw_mqtt (app_world (\<rho> i)))"
    and "\<And>i. k \<le> i \<Longrightarrow> fresh (app_clock E) (ap_avail (\<rho> i)) = v" and "am_isOffline (ap_avail (\<rho> k)) = v"
    and "v \<or> (\<forall>i \<ge> k. \<forall>order. \<rho> (Suc i) \<noteq> mqtt_event E (LinkUp order) (\<rho> i))"
  shows "\<exists>K \<ge> k. \<forall>j \<ge> K. am_isOffline (ap_avail (\<rho> j)) = (\<not> v)
    \<and> retained_value (said lg (app_world (\<rho> j))) (Topic_Availability (ap_topics a))
        = Some (if v then AvailabilityOnline else AvailabilityOffline)"
proof -
  have acc: "accounted E lg (\<rho> 0)" by (rule app_run_accounted [OF assms(5) conjunct1 [OF Run_accounted [OF assms(1-4)]]])
  have T: "ap_topics (\<rho> 0) = ap_topics a" using Run_subs [OF assms(1,2,5)] by simp
  have "verdict (\<not> v) = (if v then AvailabilityOnline else AvailabilityOffline)" by (simp add: verdict_def)
  with app_run_announces [OF assms(6,7) acc assms(8-11)] show ?thesis by (simp only: T)
qed

subsection \<open>A first snapshot on the simulated controller and broker\<close>

lemma mqtt_event_threshold: "am_threshold (ap_avail (mqtt_event E e a)) = am_threshold (ap_avail a)"
proof (cases e)
  case (Arrived topic payload)
  have "am_threshold (ap_avail (app_message E h payload a)) = am_threshold (ap_avail a)" for h by (cases h) simp_all
  then show ?thesis by (simp add: Arrived split: option.split)
qed simp_all

lemma Run_threshold:
  assumes "New E cfg mw qw = Some a0" and "Run E evs a0 = Some (Inr a)"
  shows "am_threshold (ap_avail a) = pl_AvailabilityThreshold (cf_Polling cfg)"
proof -
  obtain c bo where b: "boot_mqtt E evs (on_polls (on_world (on_disp (\<lambda>d. d\<lparr>ds_client := c\<rparr>))) (a0\<lparr>ap_backoff := bo\<rparr>)) = Inr a"
    by (rule Run_parts [OF assms(2)])
  show ?thesis
    by (rule boot_invariant [OF b, where P = "\<lambda>x. am_threshold (ap_avail x) = pl_AvailabilityThreshold (cf_Polling cfg)"])
      (use New_parts [OF assms(1)] in \<open>simp_all add: mqtt_event_threshold\<close>)
qed

lemma Run_offline:
  assumes "New E cfg mw qw = Some a0" and "Run E evs a0 = Some (Inr a)" and "log_law (ae_mqtt E) lg" and "published (lg qw) = []"
  shows "am_isOffline (ap_avail a)"
  using Run_silent [OF assms] by (simp add: silent_def)

lemma sim_stamp:
  assumes "tier_poll (poll_ops sim_env) t d = (Inr x, d')"
  shows "\<exists>n. sn_PolledAt x = (int n + 1) * Millisecond"
proof -
  have s: "\<exists>n. sn_PolledAt x = (int n + 1) * Millisecond"
    if "stamp_poll (poll_ops sim_env) mk rs = (Inr x, d')" "\<And>u v w t. sn_PolledAt (mk u v w t) = t"
    for mk :: "u16 list \<Rightarrow> u16 list \<Rightarrow> u16 list \<Rightarrow> gotime \<Rightarrow> Snapshot" and rs
    using that by (auto simp: stamp_poll_def poll_ops_def sim_env_def sim_now_def wd_clock_def split: sum.splits prod.splits)
  show ?thesis
    using assms by (cases t) (auto simp: PollHot_def PollMedium_def PollSlow_def hot_snapshot_def medium_snapshot_def
        slow_snapshot_def Let_def intro!: s)
qed

lemma Run_idle:
  assumes "New E cfg mw qw = Some a0" and "Run E evs a0 = Some (Inr a)"
  shows "ps_tier (app_polls a) = (\<lambda>_. TIdle)"
proof -
  obtain c bo where b: "boot_mqtt E evs (on_polls (on_world (on_disp (\<lambda>d. d\<lparr>ds_client := c\<rparr>))) (a0\<lparr>ap_backoff := bo\<rparr>)) = Inr a"
    by (rule Run_parts [OF assms(2)])
  have e: "ps_tier (app_polls (mqtt_event E e x)) = ps_tier (app_polls x)" if "wired E x" for e x
    by (rule mqtt_event_cases [OF that, of e]) simp_all
  obtain p where p: "app_polls a0 = poll_start p" "wired E a0" using New_parts [OF assms(1)] by blast
  then have w: "wired E (on_polls (on_world (on_disp (\<lambda>d. d\<lparr>ds_client := c\<rparr>))) (a0\<lparr>ap_backoff := bo\<rparr>))"
    by (simp add: wired_def)
  have "wired E a \<and> ps_tier (app_polls a) = (\<lambda>_. TIdle)"
    by (rule boot_invariant [OF b, where P = "\<lambda>x. wired E x \<and> ps_tier (app_polls x) = (\<lambda>_. TIdle)"])
      (use p(1) w in \<open>simp_all add: e mqtt_event_wired poll_start_def\<close>)
  then show ?thesis by simp
qed

lemma poll_fetch_Some:
  assumes "poll_fetch PE f n p = (Some x, p')"
  shows "\<exists>w w'. f w = (Inr x, w')"
proof -
  obtain t w where w: "pe_now PE (pr_world p) = (t, w)" by fastforce
  obtain q w' where q: "f w = (q, w')" by fastforce
  have "q = Inr x" using assms by (cases q) (simp_all add: poll_fetch_def w q split: if_splits)
  with q show ?thesis by blast
qed

definition clock_at :: "nat \<Rightarrow> (World, 'q) App \<Rightarrow> (World, 'q) App" where
  "clock_at n a = on_polls (on_world (on_disp (\<lambda>d. d\<lparr>ds_client := (ds_client d)\<lparr>cl_world :=
     (cl_world (ds_client (aw_disp (app_world a))))\<lparr>wd_ticks := n\<rparr>\<rparr>\<rparr>))) a"

lemma clock_at_fresh:
  assumes "sn_PolledAt (pr_latest (ps_poller (app_polls a))) = (int n + 1) * Millisecond" and "0 \<le> am_threshold (ap_avail a)"
  shows "fresh (app_clock sim_app_env) (ap_avail (clock_at n a))"
proof -
  have m: "ae_modbus sim_app_env = sim_env" by (simp add: sim_app_env_def)
  have "fst (pe_now (app_poller_env sim_app_env) (app_world (clock_at n a))) = (int n + 1) * Millisecond"
    by (simp add: clock_at_def app_poller_env_def poll_ops_def m sim_env_def sim_now_def wd_clock_def)
  then have "fst (av_now (app_clock sim_app_env) (app_polls (clock_at n a))) = (int n + 1) * Millisecond"
    by (simp add: app_clock_def case_prod_unfold)
  moreover have "av_snapshot (app_clock sim_app_env) (app_polls (clock_at n a)) = pr_latest (ps_poller (app_polls a))"
    by (simp add: app_clock_def clock_at_def Poller_Snapshot_def)
  moreover have "am_threshold (ap_avail (clock_at n a)) = am_threshold (ap_avail a)" by (simp add: clock_at_def)
  moreover have "(int n + 1) * Millisecond \<noteq> zero_time" by (simp add: Millisecond_def zero_time_def)
  moreover have "time_sub t t = 0" for t by (simp add: time_sub_def int64_min_def int64_max_def)
  ultimately show ?thesis unfolding fresh_def Let_def assms(1) using assms(1,2) by simp
qed

text \<open>The hot tier's first poll, and the time set back to its stamp.\<close>

lemma sim_first_snapshot:
  "\<exists>a0 a b. New sim_app_env default_config (sim_world r []) [] = Some a0 \<and> Run sim_app_env sim_events a0 = Some (Inr a)
     \<and> (app_step sim_app_env (\<lambda>_ _. True))\<^sup>*\<^sup>* a b \<and> wired sim_app_env b
     \<and> mq_up (ae_mqtt sim_app_env) id (\<lambda>_. True) (aw_mqtt (app_world b)) \<and> am_isOffline (ap_avail b)
     \<and> fresh (app_clock sim_app_env) (ap_avail b)"
proof -
  let ?E = sim_app_env
  obtain a0 a where a: "New ?E default_config (sim_world r []) [] = Some a0" "Run ?E sim_events a0 = Some (Inr a)"
    "app_dev wd_dev a = r" "disp_up (ae_modbus ?E) wd_dev (\<lambda>w. wd_script w = []) (aw_disp (app_world a))"
    using sim_app by blast
  have p: "published (id []) = []" by (simp add: published_def)
  have mq: "mq_up (ae_mqtt ?E) id (\<lambda>_. True) (aw_mqtt (app_world a))" using sim_app_quiet [OF a(1,2)] by simp
  obtain x p' where x: "poll_fetch (app_poller_env ?E) (app_poll ?E HotTier) ''hot'' (ps_poller (app_polls a)) = (Some x, p')"
    and m: "aw_mqtt (pr_world p') = aw_mqtt (app_world a)"
    using app_fetch_up [OF a(4), of HotTier "''hot''"] by auto
  obtain u u' where u: "app_poll ?E HotTier u = (Inr x, u')" using poll_fetch_Some [OF x] by blast
  obtain q d' where q: "tier_poll (poll_ops sim_env) HotTier (aw_disp u) = (q, d')" by fastforce
  have "ae_modbus ?E = sim_env" by (simp add: sim_app_env_def)
  with u q have "q = Inr x" by (simp add: app_poll_def)
  then obtain n where n: "sn_PolledAt x = (int n + 1) * Millisecond" using sim_stamp q by blast
  define a2 where "a2 = on_polls (app_move ?E HotTier) (on_polls (app_move ?E HotTier) a)"
  have idle: "ps_tier (app_polls a) HotTier = TIdle" using Run_idle [OF a(1,2)] by simp
  have polls: "app_polls a2 = app_move ?E HotTier ((app_polls a)\<lparr>ps_poller := p', ps_tier := (ps_tier (app_polls a))(HotTier := TFetched x)\<rparr>)"
    by (simp add: a2_def tier_move_def [of _ _ _ "app_polls a"] idle x)
  have a2: "aw_mqtt (app_world a2) = aw_mqtt (app_world a)" "sn_PolledAt (pr_latest (ps_poller (app_polls a2))) = sn_PolledAt x"
    by (simp_all add: polls tier_move_def poll_merge_def Let_def m MergeHot_def)
  define b where "b = clock_at n a2"
  have "(app_step ?E (\<lambda>_ _. True))\<^sup>*\<^sup>* a a2"
    unfolding a2_def by (meson move_step rtranclp.rtrancl_refl rtranclp.rtrancl_into_rtrancl)
  moreover have "app_step ?E (\<lambda>_ _. True) a2 b" unfolding b_def clock_at_def by (rule app_step.outside) simp
  ultimately have run: "(app_step ?E (\<lambda>_ _. True))\<^sup>*\<^sup>* a b" by (rule rtranclp.rtrancl_into_rtrancl)
  have "0 \<le> am_threshold (ap_avail a2)"
    using Run_threshold [OF a(1,2)] by (simp add: a2_def default_config_def Second_def)
  then have "fresh (app_clock ?E) (ap_avail b)" using clock_at_fresh a2(2) n by (simp add: b_def)
  moreover have "am_isOffline (ap_avail b)"
    using Run_offline [OF a(1,2) sim_app_laws(1) p] by (simp add: b_def clock_at_def a2_def)
  moreover have "wired ?E b" using Run_subs [OF a(1,2) run] by simp
  moreover have "mq_up (ae_mqtt ?E) id (\<lambda>_. True) (aw_mqtt (app_world b))" using mq by (simp add: b_def clock_at_def a2(1))
  ultimately show ?thesis using a(1,2) run by blast
qed

primrec ticking :: "('m, 'q) AppEnv \<Rightarrow> ('m, 'q) App \<Rightarrow> nat \<Rightarrow> ('m, 'q) App" where
  "ticking E a 0 = a"
| "ticking E a (Suc i) = ticked E (ticking E a i)"

lemma ticking_run: "app_run_of E W (ticking E a)" "ticks_fair E (ticking E a)"
proof -
  have "app_step E W (ticking E a i) (ticking E a (Suc i))" for i unfolding ticking.simps(2) by (rule app_step.ticked)
  then show "app_run_of E W (ticking E a)" unfolding app_run_of_def by blast
  show "ticks_fair E (ticking E a)" unfolding ticks_fair_def by auto
qed

text \<open>The simulated clock stands still, so the verdict does.\<close>

lemma sim_ticked_fresh: "fresh (app_clock sim_app_env) (ap_avail (ticked sim_app_env a)) = fresh (app_clock sim_app_env) (ap_avail a)"
  if "wired sim_app_env a"
proof -
  have m: "ae_modbus sim_app_env = sim_env" by (simp add: sim_app_env_def)
  have now: "pe_now (app_poller_env sim_app_env) w = (wd_clock (cl_world (ds_client (aw_disp w))), w)" for w
    by (simp add: app_poller_env_def poll_ops_def m sim_env_def sim_now_def)
  define s where "s = snd (av_now (app_clock sim_app_env) (app_polls a))"
  have s: "aw_disp (pr_world (ps_poller s)) = aw_disp (app_world a)" "pr_latest (ps_poller s) = pr_latest (ps_poller (app_polls a))"
    by (simp_all add: s_def now)
  have "aw_disp (app_world (ticked sim_app_env a)) = aw_disp (app_world a)"
    "pr_latest (ps_poller (app_polls (ticked sim_app_env a))) = pr_latest (ps_poller (app_polls a))"
    using ticked_polls [OF that s_def] s by simp_all
  then show ?thesis by (simp add: fresh_def app_clock_def now Poller_Snapshot_def)
qed

lemma sim_ticking_up:
  assumes "mq_up (ae_mqtt sim_app_env) id (\<lambda>_. True) (aw_mqtt (app_world b))" and "wired sim_app_env b"
    and "fresh (app_clock sim_app_env) (ap_avail b)"
  shows "mq_up (ae_mqtt sim_app_env) id (\<lambda>_. True) (aw_mqtt (app_world (ticking sim_app_env b i)))
    \<and> wired sim_app_env (ticking sim_app_env b i) \<and> fresh (app_clock sim_app_env) (ap_avail (ticking sim_app_env b i))"
proof (induction i)
  case 0
  show ?case unfolding ticking.simps(1) using assms by blast
next
  case (Suc i)
  let ?a = "ticking sim_app_env b i"
  have w: "wired sim_app_env (ticked sim_app_env ?a)" using app_step_wired [OF app_step.ticked] Suc by blast
  have "mq_up (ae_mqtt sim_app_env) id (\<lambda>_. True) (aw_mqtt (app_world (ticked sim_app_env ?a)))"
  proof (cases "am_isOffline (ap_avail ?a)")
    case True
    then show ?thesis using ticked_said [of sim_app_env id "\<lambda>_. True" ?a] Suc by simp
  next
    case False
    have "app_polls (ticked sim_app_env ?a) = snd (av_now (app_clock sim_app_env) (app_polls ?a))"
      using ticked_polls [OF _ HOL.refl, of sim_app_env ?a] Suc False by simp
    then have "aw_mqtt (app_world (ticked sim_app_env ?a)) = aw_mqtt (app_world ?a)" by simp
    with Suc show ?thesis by metis
  qed
  with w Suc sim_ticked_fresh show ?case unfolding ticking.simps(2) by metis
qed

theorem availability_converges_witness:
  "\<exists>a0 a b K. New sim_app_env default_config (sim_world sample_regs []) [] = Some a0 \<and> Run sim_app_env sim_events a0 = Some (Inr a)
     \<and> (app_step sim_app_env (\<lambda>_ _. True))\<^sup>*\<^sup>* a b
     \<and> (\<forall>j \<ge> K. retained_value (said id (app_world (ticking sim_app_env b j))) (Topic_Availability (ap_topics a)) = Some AvailabilityOnline)"
proof -
  let ?E = sim_app_env
  obtain a0 a b where a: "New ?E default_config (sim_world sample_regs []) [] = Some a0" "Run ?E sim_events a0 = Some (Inr a)"
    and b: "(app_step ?E (\<lambda>_ _. True))\<^sup>*\<^sup>* a b" "wired ?E b" "mq_up (ae_mqtt ?E) id (\<lambda>_. True) (aw_mqtt (app_world b))"
      "am_isOffline (ap_avail b)" "fresh (app_clock ?E) (ap_avail b)"
    using sim_first_snapshot [of sample_regs] by blast
  have p: "published (id []) = []" by (simp add: published_def)
  have r: "(app_step ?E (\<lambda>_ _. True))\<^sup>*\<^sup>* a (ticking ?E b 0)" using b(1) by simp
  have up: "mq_up (ae_mqtt ?E) id (\<lambda>_. True) (aw_mqtt (app_world (ticking ?E b i)))"
    "fresh (app_clock ?E) (ap_avail (ticking ?E b i)) = True" for i
    using sim_ticking_up [OF b(3,2,5)] by blast+
  have "\<exists>K \<ge> 0. \<forall>j \<ge> K. am_isOffline (ap_avail (ticking ?E b j)) = (\<not> True)
    \<and> retained_value (said id (app_world (ticking ?E b j))) (Topic_Availability (ap_topics a))
        = Some (if True then AvailabilityOnline else AvailabilityOffline)"
    by (rule availability_converges [OF a sim_app_laws(1) p r ticking_run up(1,2)]) (simp_all add: b(4))
  with a b(1) show ?thesis by auto
qed

end
