(* ===== verification/Logger.thy ===== *)
theory Logger
  imports Config GoStr
begin

text \<open>
  \<^verbatim>\<open>infrastructure/logger/logger.go\<close>: the parsing of the level and the logger built for it. A logger of the
  library writes the records at or above its level, in their order.
\<close>

subsection \<open>Levels\<close>

datatype Level = LevelDebug | LevelInfo | LevelWarn | LevelError

text \<open>The numbers of the library's levels.\<close>

fun level_num :: "Level \<Rightarrow> int" where
  "level_num LevelDebug = - 4"
| "level_num LevelInfo = 0"
| "level_num LevelWarn = 4"
| "level_num LevelError = 8"

lemma level_num_inject: "level_num l = level_num l' \<longleftrightarrow> l = l'"
  by (cases l; cases l') simp_all

instantiation Level :: linorder
begin

definition less_eq_Level :: "Level \<Rightarrow> Level \<Rightarrow> bool" where
  "less_eq_Level l l' \<longleftrightarrow> level_num l \<le> level_num l'"

definition less_Level :: "Level \<Rightarrow> Level \<Rightarrow> bool" where
  "less_Level l l' \<longleftrightarrow> level_num l < level_num l'"

instance
  by standard (auto simp: less_eq_Level_def less_Level_def level_num_inject)

end

subsection \<open>The logger\<close>

definition ParseLevel :: "string \<Rightarrow> Level" where
  "ParseLevel s =
     (let l = ToLower s in
      if l = ''debug'' then LevelDebug
      else if l = ''warn'' \<or> l = ''warning'' then LevelWarn
      else if l = ''error'' then LevelError
      else if l = ''info'' then LevelInfo
      else LevelInfo)"

text \<open>A logger, as far as the program sets it up: its level, and the records it has written.\<close>

record Logger =
  lo_level :: Level
  lo_written :: "(Level \<times> string) list"

definition NewWithWriter :: "LoggerConfig \<Rightarrow> (Level \<times> string) list \<Rightarrow> Logger" where
  "NewWithWriter cfg w = \<lparr>lo_level = ParseLevel (lg_Level cfg), lo_written = w\<rparr>"

definition NewLogger :: "LoggerConfig \<Rightarrow> (Level \<times> string) list \<Rightarrow> Logger" where
  "NewLogger cfg stdout = NewWithWriter cfg stdout"

definition log_record :: "Level \<times> string \<Rightarrow> Logger \<Rightarrow> Logger" where
  "log_record r lg = (if lo_level lg \<le> fst r then lg\<lparr>lo_written := lo_written lg @ [r]\<rparr> else lg)"

subsection \<open>Laws\<close>

lemma logged: "fold log_record rs lg = lg\<lparr>lo_written := lo_written lg @ filter (\<lambda>r. lo_level lg \<le> fst r) rs\<rparr>"
  by (induction rs arbitrary: lg) (simp_all add: log_record_def)

text \<open>Whatever the environment says, errors are written; and a stricter level only drops records.\<close>

lemma errors_written:
  assumes "r \<in> set rs" and "fst r = LevelError"
  shows "r \<in> set (lo_written (fold log_record rs (NewLogger cfg [])))"
proof -
  have "l \<le> LevelError" for l by (cases l) (simp_all add: less_eq_Level_def)
  with assms show ?thesis by (simp add: logged)
qed

lemma stricter_level_drops:
  assumes "ParseLevel (lg_Level cfg) \<le> ParseLevel (lg_Level cfg')"
  shows "lo_written (fold log_record rs (NewLogger cfg' []))
    = filter (\<lambda>r. ParseLevel (lg_Level cfg') \<le> fst r) (lo_written (fold log_record rs (NewLogger cfg [])))"
proof -
  have "filter (\<lambda>r. ParseLevel (lg_Level cfg') \<le> fst r) (filter (\<lambda>r. ParseLevel (lg_Level cfg) \<le> fst r) rs)
      = filter (\<lambda>r. ParseLevel (lg_Level cfg') \<le> fst r) rs"
    unfolding filter_filter by (rule filter_cong [OF HOL.refl]) (use assms in \<open>auto intro: order_trans\<close>)
  then show ?thesis by (simp add: logged NewLogger_def NewWithWriter_def)
qed

end
