(* ===== verification/Shutdown.thy ===== *)
theory Shutdown
  imports App Logger
begin

text \<open>
  The shutdown of \<^verbatim>\<open>internal/app/app.go\<close> in full: the HTTP server is drained, the goroutines of the poller
  and of the availability manager are waited for, each wait with its own limit, and then the broker and
  the controller are let go (\<open>shutdown\<close> of App). The result is what \<^verbatim>\<open>app.go\<close> and its HTTP server log, how
  long the waits took and the application that is left.
\<close>

subsection \<open>The goroutines\<close>

definition shutdownGrace :: duration where
  "shutdownGrace = 10 * Second"

definition pollerShutdownTimeout :: duration where
  "pollerShutdownTimeout = 5 * Second"

definition availMgrShutdownTimeout :: duration where
  "availMgrShutdownTimeout = 2 * Second"

text \<open>
  The loops of the goroutines return when their context is done, and \<open>Done\<close> is closed when the last of
  them has returned: \<open>ts\<close> are the times they take for it, \<open>None\<close> says that it stays open.
\<close>

definition closes_done :: "bool \<Rightarrow> duration list \<Rightarrow> duration option" where
  "closes_done cancelled ts = (if cancelled then Some (fold max ts 0) else None)"

text \<open>
  The select over \<open>Done\<close> and \<^verbatim>\<open>time.After\<close>, entered at the time \<open>now\<close>: whether \<open>Done\<close> was closed in time,
  and the time it is left at. When both come at once the code may take either; here it takes \<open>Done\<close>.
\<close>

definition await_done :: "duration \<Rightarrow> duration option \<Rightarrow> duration \<Rightarrow> bool \<times> duration" where
  "await_done limit finish now =
     (case finish of
        None \<Rightarrow> (False, now + limit)
      | Some t \<Rightarrow> if t \<le> now + limit then (True, max now t) else (False, now + limit))"

subsection \<open>The sequence\<close>

text \<open>
  How the environment behaves during a shutdown: what the library's \<^verbatim>\<open>Shutdown\<close> returns and after how long,
  and how long the goroutines need once their context is done.
\<close>

record ShutdownEnv =
  se_http :: "go_error option"
  se_httpTime :: duration
  se_tiers :: "duration list"
  se_watcher :: duration

definition warn_unless :: "bool \<Rightarrow> string \<Rightarrow> (Level \<times> string) list" where
  "warn_unless ok msg = (if ok then [] else [(LevelWarn, msg)])"

definition App_shutdown ::
  "('m, 'q) AppEnv \<Rightarrow> ShutdownEnv \<Rightarrow> bool \<Rightarrow> ('m, 'q) App \<Rightarrow> (Level \<times> string) list \<times> duration \<times> ('m, 'q) App" where
  "App_shutdown E S cancelled a =
     (let httpErr = Server_Shutdown (se_http S);
          (pollerOk, t1) = await_done pollerShutdownTimeout (closes_done cancelled (se_tiers S)) (se_httpTime S);
          (availOk, t2) = await_done availMgrShutdownTimeout (closes_done cancelled [se_watcher S]) t1;
          closeErr = fst (ForceClose (ae_modbus E) (ds_client (aw_disp (app_world a))))
      in ([(LevelInfo, ''http server shutdown'')]
          @ warn_unless (httpErr = None) ''http shutdown failed''
          @ warn_unless pollerOk ''poller shutdown timeout''
          @ warn_unless availOk ''availability manager shutdown timeout''
          @ warn_unless (closeErr = None) ''modbus close failed''
          @ [(LevelInfo, ''shutdown complete'')],
          t2, shutdown E a))"

text \<open>
  Nothing cancels the context before the deferred \<^verbatim>\<open>cancel\<close> of \<open>Run\<close>, which comes after the shutdown: it
  is done only when it was the cancellation that ended the select.
\<close>

fun context_done :: "Ended \<Rightarrow> bool" where
  "context_done Cancelled = True"
| "context_done (Served err) = False"

subsection \<open>Laws\<close>

lemma await_bounds:
  assumes "0 \<le> limit"
  shows "now \<le> snd (await_done limit finish now)" "snd (await_done limit finish now) \<le> now + limit"
  using assms by (auto simp: await_done_def split: option.split)

text \<open>
  The waits end, whatever the goroutines do: the library's \<^verbatim>\<open>Shutdown\<close> returns when its context expires.
\<close>

lemma shutdown_bounded:
  assumes "App_shutdown E S cancelled a = (logs, t, b)" and "se_httpTime S \<le> shutdownGrace"
  shows "t \<le> shutdownGrace + pollerShutdownTimeout + availMgrShutdownTimeout" and "se_httpTime S \<le> t" and "b = shutdown E a"
proof -
  define p where "p = await_done pollerShutdownTimeout (closes_done cancelled (se_tiers S)) (se_httpTime S)"
  have t: "t = snd (await_done availMgrShutdownTimeout (closes_done cancelled [se_watcher S]) (snd p))" and "b = shutdown E a"
    using assms(1) by (simp_all add: App_shutdown_def p_def Let_def case_prod_unfold)
  have l: "0 \<le> pollerShutdownTimeout" "0 \<le> availMgrShutdownTimeout"
    by (simp_all add: pollerShutdownTimeout_def availMgrShutdownTimeout_def Second_def)
  have p: "se_httpTime S \<le> snd p" "snd p \<le> se_httpTime S + pollerShutdownTimeout"
    unfolding p_def by (rule await_bounds [OF l(1)])+
  note q = await_bounds [OF l(2), where now = "snd p" and finish = "closes_done cancelled [se_watcher S]"]
  show "t \<le> shutdownGrace + pollerShutdownTimeout + availMgrShutdownTimeout" using p q assms(2) by (simp add: t)
  show "se_httpTime S \<le> t" using p q by (simp add: t)
  show "b = shutdown E a" by fact
qed

text \<open>Warnings tell what went wrong, and nothing else; a clean shutdown leaves none.\<close>

lemma shutdown_clean:
  assumes "App_shutdown E S True a = (logs, t, b)" and "se_http S = None" and "0 \<le> se_httpTime S"
    and "\<forall>x \<in> set (se_watcher S # se_tiers S). x \<le> 2 * Second"
  shows "(LevelWarn, m) \<notin> set logs"
proof -
  have le: "fold max ts y \<le> c" if "\<forall>x \<in> set ts. x \<le> c" "y \<le> c" for ts and y c :: int
    using that by (induction ts arbitrary: y) auto
  have s: "(0 :: int) \<le> 2 * Second" by (simp add: Second_def)
  have "fold max (se_tiers S) 0 \<le> 2 * Second" by (rule le) (use assms(4) s in auto)
  then have p: "fst (await_done pollerShutdownTimeout (closes_done True (se_tiers S)) (se_httpTime S))"
    using assms(3) s by (simp add: await_done_def closes_done_def pollerShutdownTimeout_def)
  have "fst (await_done availMgrShutdownTimeout (closes_done True [se_watcher S]) t1)" if "se_httpTime S \<le> t1" for t1
    using assms(3,4) that s by (auto simp: await_done_def closes_done_def availMgrShutdownTimeout_def)
  moreover have "se_httpTime S \<le> snd (await_done pollerShutdownTimeout (closes_done True (se_tiers S)) (se_httpTime S))"
    by (rule await_bounds) (simp add: pollerShutdownTimeout_def Second_def)
  moreover have "fst (ForceClose (ae_modbus E) c) = None" for c by (simp add: ForceClose_def Let_def)
  ultimately show ?thesis
    using assms(1,2) p by (auto simp: App_shutdown_def Let_def case_prod_unfold warn_unless_def Server_Shutdown_def)
qed

text \<open>
  When the HTTP server fails, nothing has told the goroutines to stop: both waits run into their limits.
\<close>

lemma failed_server_waits:
  assumes "App_shutdown E S (context_done (Served err)) a = (logs, t, b)"
  shows "t = se_httpTime S + pollerShutdownTimeout + availMgrShutdownTimeout"
    and "(LevelWarn, ''poller shutdown timeout'') \<in> set logs" and "(LevelWarn, ''availability manager shutdown timeout'') \<in> set logs"
  using assms by (auto simp: App_shutdown_def Let_def case_prod_unfold warn_unless_def await_done_def closes_done_def)

end
