(* ===== verification/JsonRead.thy ===== *)
theory JsonRead
  imports Json GoStr
begin

text \<open>
  Reading a JSON document, as the receiver of a discovery configuration does it: the grammar of the
  standard, without white space between the tokens, which \<open>Marshal\<close> does not write. Numbers are read as
  floats. The lemmas show that what \<open>Marshal\<close> writes for a tree is read back as this tree.
\<close>

subsection \<open>Strings\<close>

definition hex_val :: "char \<Rightarrow> nat option" where
  "hex_val c =
     (let b = of_char c :: nat in
      if 48 \<le> b \<and> b \<le> 57 then Some (b - 48)
      else if 97 \<le> b \<and> b \<le> 102 then Some (b - 87)
      else if 65 \<le> b \<and> b \<le> 70 then Some (b - 55)
      else None)"

definition utf8_bytes :: "nat \<Rightarrow> nat list" where
  "utf8_bytes n =
     (if n < 0x80 then [n]
      else if n < 0x800 then [0xC0 + n div 64, 0x80 + n mod 64]
      else [0xE0 + n div 4096, 0x80 + n div 64 mod 64, 0x80 + n mod 64])"

text \<open>The code unit of four hexadecimal digits; halves of surrogate pairs are not read.\<close>

definition read_unit :: "char \<Rightarrow> char \<Rightarrow> char \<Rightarrow> char \<Rightarrow> string option" where
  "read_unit a b c d =
     (case (hex_val a, hex_val b, hex_val c, hex_val d) of
        (Some w, Some x, Some y, Some z) \<Rightarrow>
          (let n = ((w * 16 + x) * 16 + y) * 16 + z in
           if 0xD800 \<le> n \<and> n \<le> 0xDFFF then None else Some (map char_of (utf8_bytes n)))
      | _ \<Rightarrow> None)"

definition read_escape :: "char \<Rightarrow> string option" where
  "read_escape c =
     (if c = CHR 0x22 \<or> c = CHR 0x5C \<or> c = CHR ''/'' then Some [c]
      else if c = CHR ''b'' then Some [CHR 8]
      else if c = CHR ''f'' then Some [CHR 12]
      else if c = CHR ''n'' then Some [CHR 10]
      else if c = CHR ''r'' then Some [CHR 13]
      else if c = CHR ''t'' then Some [CHR 9]
      else None)"

definition prepend :: "string option \<Rightarrow> (string \<times> string) option \<Rightarrow> (string \<times> string) option" where
  "prepend p r = (case (p, r) of (Some x, Some (y, s)) \<Rightarrow> Some (x @ y, s) | _ \<Rightarrow> None)"

text \<open>The rest of a string after its opening quote.\<close>

fun read_string :: "string \<Rightarrow> (string \<times> string) option" where
  "read_string [] = None"
| "read_string (c # cs) =
     (if c = CHR 0x22 then Some ([], cs)
      else if c = CHR 0x5C then
        (case cs of
           [] \<Rightarrow> None
         | e # ds \<Rightarrow>
             if e = CHR ''u'' then
               (case ds of
                  w # x # y # z # es \<Rightarrow> prepend (read_unit w x y z) (read_string es)
                | _ \<Rightarrow> None)
             else prepend (read_escape e) (read_string ds))
      else if of_char c < (0x20 :: nat) then None
      else prepend (Some [c]) (read_string cs))"

subsection \<open>Documents\<close>

definition number_char :: "char \<Rightarrow> bool" where
  "number_char c \<longleftrightarrow> c \<in> set ''0123456789+-.eE''"

definition read_numeral :: "string \<Rightarrow> (json \<times> string) option" where
  "read_numeral s =
     (case ParseFloat64 (takeWhile number_char s) of
        Inr (Fin x) \<Rightarrow> Some (JFloat (Fin x), dropWhile number_char s)
      | _ \<Rightarrow> None)"

text \<open>\<open>n\<close> bounds the depth of the calls; the length of the document is enough.\<close>

fun read_value :: "nat \<Rightarrow> string \<Rightarrow> (json \<times> string) option"
  and read_items :: "nat \<Rightarrow> string \<Rightarrow> (json list \<times> string) option"
  and read_members :: "nat \<Rightarrow> string \<Rightarrow> ((string \<times> json) list \<times> string) option" where
  "read_value 0 s = None"
| "read_value (Suc n) s =
     (case s of
        [] \<Rightarrow> None
      | c # cs \<Rightarrow>
          if c = CHR 0x22 then map_option (\<lambda>(x, r). (JString x, r)) (read_string cs)
          else if c = CHR ''['' then
            (case cs of
               [] \<Rightarrow> None
             | d # ds \<Rightarrow> if d = CHR '']'' then Some (JArray [], ds)
                 else map_option (\<lambda>(x, r). (JArray x, r)) (read_items n cs))
          else if c = CHR ''{'' then
            (case cs of
               [] \<Rightarrow> None
             | d # ds \<Rightarrow> if d = CHR ''}'' then Some (JObject [], ds)
                 else map_option (\<lambda>(x, r). (JObject x, r)) (read_members n cs))
          else read_numeral s)"
| "read_items 0 s = None"
| "read_items (Suc n) s =
     (case read_value n s of
        Some (x, d # r) \<Rightarrow>
          if d = CHR '']'' then Some ([x], r)
          else if d = CHR '','' then map_option (\<lambda>(xs, r'). (x # xs, r')) (read_items n r)
          else None
      | _ \<Rightarrow> None)"
| "read_members 0 s = None"
| "read_members (Suc n) s =
     (case s of
        [] \<Rightarrow> None
      | q # cs \<Rightarrow>
          if q = CHR 0x22 then
            (case read_string cs of
               Some (k, c # r) \<Rightarrow>
                 if c = CHR '':'' then
                   (case read_value n r of
                      Some (x, d # r') \<Rightarrow>
                        if d = CHR ''}'' then Some ([(k, x)], r')
                        else if d = CHR '','' then map_option (\<lambda>(xs, r''). ((k, x) # xs, r'')) (read_members n r')
                        else None
                    | _ \<Rightarrow> None)
                 else None
             | _ \<Rightarrow> None)
          else None)"

definition read_json :: "string \<Rightarrow> json option" where
  "read_json s = (case read_value (Suc (length s)) s of Some (j, []) \<Rightarrow> Some j | _ \<Rightarrow> None)"

subsection \<open>Strings are read back\<close>

fun valid_utf8 :: "nat list \<Rightarrow> bool" where
  "valid_utf8 [] \<longleftrightarrow> True"
| "valid_utf8 (b # cs) \<longleftrightarrow>
     (if b < 0x80 then valid_utf8 cs
      else case rune_len b cs of None \<Rightarrow> False | Some n \<Rightarrow> valid_utf8 (drop (n - 1) cs))"

lemma hex_val_low: "d < 16 \<Longrightarrow> hex_val (hex_low d) = Some d"
  by (simp add: hex_val_def hex_low_def Let_def)

lemma unit_digits:
  assumes "n < 65536"
  shows "((n div 4096 mod 16 * 16 + n div 256 mod 16) * 16 + n div 16 mod 16) * 16 + n mod 16 = (n :: nat)"
proof -
  have "n div 4096 mod 16 = n div 4096" using assms by simp
  moreover have "n div 4096 = n div 256 div 16" "n div 256 = n div 16 div 16" by (simp_all add: div_mult2_eq [symmetric])
  ultimately show ?thesis by (simp only: div_mult_mod_eq)
qed

lemma read_unit_hex:
  assumes "n < 65536" and "n < 0xD800 \<or> 0xDFFF < n"
  shows "read_unit (hex_low (n div 4096 mod 16)) (hex_low (n div 256 mod 16)) (hex_low (n div 16 mod 16)) (hex_low (n mod 16))
    = Some (map char_of (utf8_bytes n))"
proof -
  have h: "hex_val (hex_low (m mod 16)) = Some (m mod 16)" for m by (rule hex_val_low) simp
  have "\<not> (0xD800 \<le> n \<and> n \<le> 0xDFFF)" using assms(2) by linarith
  then show ?thesis unfolding read_unit_def h by (simp only: option.case prod.case Let_def unit_digits [OF assms(1)] if_False)
qed

lemma read_string_unit:
  assumes "n < 65536" and "n < 0xD800 \<or> 0xDFFF < n"
  shows "read_string (u_escape n @ s) = prepend (Some (map char_of (utf8_bytes n))) (read_string s)"
  unfolding u_escape_def read_unit_hex [OF assms, symmetric] by simp

lemma prepend_prepend [simp]: "prepend (Some x) (prepend (Some y) r) = prepend (Some (x @ y)) r"
  by (simp add: prepend_def split: option.split)

lemma prepend_Nil [simp]: "prepend (Some []) r = r"
  by (simp add: prepend_def split: option.split)

lemma prepend_Some [simp]: "prepend (Some x) (Some (y, s)) = Some (x @ y, s)"
  by (simp add: prepend_def)

lemma read_string_plain:
  assumes "\<forall>b \<in> set bs. 0x20 \<le> b \<and> b < 256 \<and> b \<noteq> 0x22 \<and> b \<noteq> (0x5C :: nat)"
  shows "read_string (map char_of bs @ s) = prepend (Some (map char_of bs)) (read_string s)"
  using assms
proof (induction bs)
  case (Cons b bs)
  have "char_of b = CHR 0x22 \<longleftrightarrow> b = 0x22" "char_of b = CHR 0x5C \<longleftrightarrow> b = 0x5C"
    using Cons.prems by (auto simp: char_of_eq_iff take_bit_nat_eq_self)
  moreover have "of_char (char_of b :: char) = b" using Cons.prems by simp
  ultimately show ?case using Cons by simp
qed simp

lemma escape_pairs:
  "\<forall>b \<in> set [0x5C, 0x22, 8, 12, 10, 13, 9]. escape_ascii b = [CHR 0x5C, escape_ascii b ! 1] \<and> escape_ascii b ! 1 \<noteq> CHR ''u''
     \<and> read_escape (escape_ascii b ! 1) = Some [char_of b]"
  by code_simp

lemma read_string_ascii:
  assumes "b < 0x80"
  shows "read_string (escape_ascii b @ s) = prepend (Some [char_of b]) (read_string s)"
proof (cases "b < 0x20 \<or> b \<in> {0x5C, 0x22, 0x3C, 0x3E, 0x26}")
  case True
  show ?thesis
  proof (cases "b \<in> {0x5C, 0x22, 8, 12, 10, 13, 9}")
    case True
    then have p: "escape_ascii b = [CHR 0x5C, escape_ascii b ! 1]" "escape_ascii b ! 1 \<noteq> CHR ''u''"
      "read_escape (escape_ascii b ! 1) = Some [char_of b]"
      using escape_pairs by auto
    from p(2,3) have "read_string ([CHR 0x5C, escape_ascii b ! 1] @ s) = prepend (Some [char_of b]) (read_string s)" by simp
    then show ?thesis by (simp only: p(1) [symmetric])
  next
    case False
    with \<open>b < 0x20 \<or> _\<close> have "escape_ascii b = u_escape b" by (auto simp: escape_ascii_def)
    then show ?thesis using assms read_string_unit [of b s] by (simp add: utf8_bytes_def)
  qed
next
  case False
  then have "escape_ascii b = map char_of [b]" by (auto simp: escape_ascii_def)
  moreover have "read_string (map char_of [b] @ s) = prepend (Some (map char_of [b])) (read_string s)"
    by (rule read_string_plain) (use False assms in auto)
  ultimately show ?thesis by simp
qed

lemma rune_len_bytes:
  assumes "rune_len b cs = Some n" and "\<not> b < 0x80"
  shows "\<forall>x \<in> set (b # take (n - 1) cs). 0x80 \<le> x \<and> x < 256" "n - 1 \<le> length cs" "1 \<le> n"
  using assms by (auto simp: rune_len_def Let_def in_range_def take_Suc numeral_2_eq_2 numeral_3_eq_3 split: if_splits list.splits)

lemma read_string_rune:
  assumes "rune_len b cs = Some n" and "\<not> b < 0x80"
  shows "read_string ((if b = 0xE2 \<and> take 2 cs = [0x80, 0xA8] then u_escape 0x2028
           else if b = 0xE2 \<and> take 2 cs = [0x80, 0xA9] then u_escape 0x2029
           else map char_of (b # take (n - 1) cs)) @ s) = prepend (Some (map char_of (b # take (n - 1) cs))) (read_string s)"
proof -
  have p: "read_string (map char_of (b # take (n - 1) cs) @ s) = prepend (Some (map char_of (b # take (n - 1) cs))) (read_string s)"
    by (rule read_string_plain) (use rune_len_bytes(1) [OF assms] in force)
  have n: "n = 3" if "b = 0xE2" using assms(1) that by (simp add: rune_len_def Let_def split: if_splits)
  have e: "b # take (n - 1) cs = utf8_bytes (if x = 0xA8 then 0x2028 else 0x2029)"
    if "b = 0xE2" "take 2 cs = [0x80, x]" "x \<in> {0xA8, 0xA9}" for x
    using that n by (auto simp: utf8_bytes_def)
  show ?thesis
    using p e [of "0xA8"] e [of "0xA9"] read_string_unit [of "0x2028" s] read_string_unit [of "0x2029" s]
    by (cases "b = 0xE2 \<and> take 2 cs = [0x80, 0xA8]"; cases "b = 0xE2 \<and> take 2 cs = [0x80, 0xA9]") auto
qed

lemma read_escaped:
  "valid_utf8 bs \<Longrightarrow> read_string (escape_bytes bs @ CHR 0x22 # s) = Some (map char_of bs, s)"
proof (induction bs rule: escape_bytes.induct)
  case (2 b cs)
  show ?case
  proof (cases "b < 0x80")
    case True
    with 2 show ?thesis by (simp add: read_string_ascii)
  next
    case False
    then obtain n where n: "rune_len b cs = Some n" "valid_utf8 (drop (n - 1) cs)"
      using "2.prems" by (auto split: option.splits)
    have "map char_of (b # take (n - 1) cs) @ map char_of (drop (n - 1) cs) = map char_of (b # cs)"
      by (simp add: append_take_drop_id map_append [symmetric] del: map_append)
    then show ?thesis
      using False n "2.IH"(3) [OF False n] read_string_rune [OF n(1) False, of "escape_bytes (drop (n - 1) cs) @ CHR 0x22 # s"]
      by (simp del: read_string.simps)
  qed
qed simp

definition utf8_string :: "string \<Rightarrow> bool" where
  "utf8_string s \<longleftrightarrow> valid_utf8 (map of_char s)"

lemma read_json_string: "utf8_string x \<Longrightarrow> read_string (tl (json_string x) @ s) = Some (x, s)"
  using read_escaped [of "map of_char x" s] by (simp add: json_string_def utf8_string_def comp_def)

subsection \<open>Documents are read back\<close>

text \<open>A document has no integers, only numbers.\<close>

fun as_read :: "json \<Rightarrow> json" where
  "as_read (JString s) = JString s"
| "as_read (JInt i) = JFloat (Fin (of_int i))"
| "as_read (JFloat f) = JFloat f"
| "as_read (JArray js) = JArray (map as_read js)"
| "as_read (JObject fs) = JObject (map (\<lambda>(k, j). (k, as_read j)) fs)"

definition number_text :: "string \<Rightarrow> rat \<Rightarrow> bool" where
  "number_text t x \<longleftrightarrow> t \<noteq> [] \<and> list_all number_char t \<and> ParseFloat64 t = Inr (Fin x)"

text \<open>The strings are UTF-8, and the texts of the numbers read back to the numbers.\<close>

fun readable :: "json \<Rightarrow> bool" where
  "readable (JString s) \<longleftrightarrow> utf8_string s"
| "readable (JInt i) \<longleftrightarrow> number_text (dec_int i) (of_int i)"
| "readable (JFloat f) \<longleftrightarrow> (case f of Fin x \<Rightarrow> number_text (json_float x) x | _ \<Rightarrow> False)"
| "readable (JArray js) \<longleftrightarrow> list_all readable js"
| "readable (JObject fs) \<longleftrightarrow> list_all (\<lambda>(k, j). utf8_string k \<and> readable j) fs"

definition ends_number :: "string \<Rightarrow> bool" where
  "ends_number s \<longleftrightarrow> (case s of [] \<Rightarrow> True | c # cs \<Rightarrow> \<not> number_char c)"

lemma ends_number_delims [simp]:
  "ends_number (CHR '','' # s)" "ends_number (CHR '']'' # s)" "ends_number (CHR ''}'' # s)" "ends_number []"
  by (simp_all add: ends_number_def number_char_def)

lemma read_numeral_text:
  assumes "number_text t x" and "ends_number s"
  shows "read_numeral (t @ s) = Some (JFloat (Fin x), s)"
proof -
  have "takeWhile number_char s = []" "dropWhile number_char s = s"
    using assms(2) by (simp_all add: ends_number_def split: list.splits)
  then show ?thesis using assms(1)
    by (simp add: read_numeral_def number_text_def list_all_iff takeWhile_append2 dropWhile_append2)
qed

lemma read_value_number:
  assumes "number_text t x" and "ends_number s" and "length t \<le> n"
  shows "read_value n (t @ s) = Some (JFloat (Fin x), s)"
proof -
  obtain c cs where c: "t = c # cs" "number_char c" using assms(1) by (cases t) (auto simp: number_text_def)
  obtain m where m: "n = Suc m" using assms(3) c(1) by (cases n) auto
  have "c \<noteq> CHR 0x22" "c \<noteq> CHR ''[''" "c \<noteq> CHR ''{''" using c(2) by (auto simp: number_char_def)
  with read_numeral_text [OF assms(1,2)] show ?thesis by (simp add: c(1) m)
qed

definition reads :: "json \<Rightarrow> bool" where
  "reads j \<longleftrightarrow> (\<forall>n s. length (render j) \<le> n \<longrightarrow> ends_number s \<longrightarrow> read_value n (render j @ s) = Some (as_read j, s))"

lemma comma_join_Cons: "comma_join (x # xs) = x @ (if xs = [] then [] else CHR '','' # comma_join xs)"
  by (cases xs) (simp_all add: comma_join_def)

lemma read_items_back:
  "js \<noteq> [] \<Longrightarrow> \<forall>j \<in> set js. reads j \<Longrightarrow> length (comma_join (map render js)) < n \<Longrightarrow>
     read_items n (comma_join (map render js) @ CHR '']'' # s) = Some (map as_read js, s)"
proof (induction js arbitrary: n)
  case (Cons j js)
  obtain m where m: "n = Suc m" using Cons.prems(3) by (cases n) auto
  have "length (render j) \<le> m" using Cons.prems(3) by (simp add: m comma_join_Cons)
  with Cons.prems(2) have r: "ends_number t \<Longrightarrow> read_value m (render j @ t) = Some (as_read j, t)" for t
    by (simp add: reads_def)
  show ?case
  proof (cases "js = []")
    case True
    then show ?thesis using r [of "CHR '']'' # s"] by (simp add: m comma_join_Cons)
  next
    case False
    then show ?thesis
      using r [of "CHR '','' # comma_join (map render js) @ CHR '']'' # s"] Cons.IH [OF False, of m] Cons.prems
      by (simp add: m comma_join_Cons)
  qed
qed simp

lemma json_string_head: "json_string k = CHR 0x22 # tl (json_string k)"
  by (simp add: json_string_def)

lemma read_members_back:
  "fs \<noteq> [] \<Longrightarrow> \<forall>(k, j) \<in> set fs. utf8_string k \<and> reads j \<Longrightarrow>
     length (comma_join (map (\<lambda>(k, j). json_string k @ CHR '':'' # render j) fs)) < n \<Longrightarrow>
     read_members n (comma_join (map (\<lambda>(k, j). json_string k @ CHR '':'' # render j) fs) @ CHR ''}'' # s)
       = Some (map (\<lambda>(k, j). (k, as_read j)) fs, s)"
proof (induction fs arbitrary: n)
  case (Cons f fs)
  obtain k j where f: "f = (k, j)" by (cases f)
  obtain m where m: "n = Suc m" using Cons.prems(3) by (cases n) auto
  have "length (render j) \<le> m" using Cons.prems(3) by (simp add: m f comma_join_Cons)
  with Cons.prems(2) have r: "ends_number t \<Longrightarrow> read_value m (render j @ t) = Some (as_read j, t)" for t
    by (simp add: reads_def f)
  have k: "read_string (tl (json_string k) @ t) = Some (k, t)" for t
    using Cons.prems(2) read_json_string by (simp add: f)
  have step: "read_members n (json_string k @ CHR '':'' # render j @ d # t) =
      (if d = CHR ''}'' then Some ([(k, as_read j)], t)
       else map_option (\<lambda>(xs, r''). ((k, as_read j) # xs, r'')) (read_members m t))" if "d \<in> {CHR '','', CHR ''}''}" for d t
  proof -
    have h: "json_string k @ t' = CHR 0x22 # (tl (json_string k) @ t')" for t' by (simp add: json_string_def)
    have "ends_number (d # t)" using that by auto
    from r [OF this] show ?thesis unfolding h using that by (auto simp: m k simp del: read_string.simps)
  qed
  show ?case
  proof (cases "fs = []")
    case True
    then show ?thesis using step [of "CHR ''}''" s] by (simp add: f comma_join_Cons)
  next
    case False
    then show ?thesis
      using step [of "CHR '',''" "comma_join (map (\<lambda>(k, j). json_string k @ CHR '':'' # render j) fs) @ CHR ''}'' # s"]
        Cons.IH [OF False, of m] Cons.prems
      by (simp add: f m comma_join_Cons)
  qed
qed simp

lemma comma_join_head: "comma_join (x # xs) = [] \<longleftrightarrow> x = [] \<and> xs = []"
  by (simp add: comma_join_Cons)

text \<open>No item of an array starts with its closing bracket.\<close>

lemma render_head:
  assumes "readable j"
  obtains c cs where "render j = c # cs" "c \<noteq> CHR '']''"
proof (cases j)
  case (JInt i)
  with assms that show ?thesis by (cases "dec_int i") (auto simp: number_text_def number_char_def)
next
  case (JFloat f)
  with assms that show ?thesis by (cases f; cases "render j") (auto simp: number_text_def number_char_def)
qed (use that in \<open>auto simp: json_string_def\<close>)

lemma readable_reads: "readable j \<Longrightarrow> reads j"
proof (induction j)
  case (JString x)
  have h: "json_string x @ s = CHR 0x22 # (tl (json_string x) @ s)" for s by (simp add: json_string_def)
  show ?case unfolding reads_def
  proof (intro allI impI)
    fix n s assume "length (render (JString x)) \<le> n"
    then obtain m where "n = Suc m" by (cases n) (auto simp: json_string_def)
    with JString show "read_value n (render (JString x) @ s) = Some (as_read (JString x), s)"
      unfolding render.simps h by (simp add: read_json_string del: read_string.simps)
  qed
next
  case (JInt i)
  then show ?case unfolding reads_def
    by (auto intro!: read_value_number)
next
  case (JFloat f)
  then show ?case unfolding reads_def
    by (cases f) (auto intro!: read_value_number)
next
  case (JArray js)
  show ?case unfolding reads_def
  proof (intro allI impI)
    fix n s assume l: "length (render (JArray js)) \<le> n"
    then obtain m where m: "n = Suc m" by (cases n) auto
    show "read_value n (render (JArray js) @ s) = Some (as_read (JArray js), s)"
    proof (cases js)
      case (Cons j js')
      obtain c cs where c: "render j = c # cs" "c \<noteq> CHR '']''"
        by (rule render_head [of j]) (use JArray Cons in auto)
      have "read_items m (comma_join (map render js) @ CHR '']'' # s) = Some (map as_read js, s)"
        by (rule read_items_back) (use JArray l in \<open>auto simp: Cons m list_all_iff\<close>)
      then show ?thesis by (simp add: m Cons comma_join_Cons c)
    qed (simp add: m comma_join_def)
  qed
next
  case (JObject fs)
  have ih: "\<forall>(k, j) \<in> set fs. utf8_string k \<and> reads j"
  proof clarify
    fix k j assume "(k, j) \<in> set fs"
    with JObject.IH [of "(k, j)" j] JObject.prems show "utf8_string k \<and> reads j" by (auto simp: list_all_iff)
  qed
  show ?case unfolding reads_def
  proof (intro allI impI)
    fix n s assume l: "length (render (JObject fs)) \<le> n"
    then obtain m where m: "n = Suc m" by (cases n) auto
    show "read_value n (render (JObject fs) @ s) = Some (as_read (JObject fs), s)"
    proof (cases fs)
      case (Cons f fs')
      obtain k j where f: "f = (k, j)" by (cases f)
      have "read_members m (comma_join (map (\<lambda>(k, j). json_string k @ CHR '':'' # render j) fs) @ CHR ''}'' # s)
          = Some (map (\<lambda>(k, j). (k, as_read j)) fs, s)"
        by (rule read_members_back [OF _ ih]) (use l in \<open>simp_all add: Cons m\<close>)
      then show ?thesis by (simp add: m Cons f comma_join_Cons json_string_def)
    qed (simp add: m comma_join_def)
  qed
qed

lemma Marshal_read:
  assumes "readable j"
  shows "read_json (render j) = Some (as_read j)"
proof -
  have "read_value (Suc (length (render j))) (render j @ []) = Some (as_read j, [])"
    using readable_reads [OF assms] ends_number_delims(4) unfolding reads_def by (meson le_SucI order_refl)
  then show ?thesis by (simp add: read_json_def del: read_value.simps)
qed

end
