(* ===== verification/DiscoveryText.thy ===== *)
theory DiscoveryText
  imports Discovery JsonRead
begin

text \<open>
  The texts of the discovery configurations: each is a JSON document that reads back as the payload it
  was made from, whatever the configured names, as long as they are UTF-8.
\<close>

subsection \<open>Everything in a payload is readable\<close>

lemma in_range_append: "in_range lo hi xs \<Longrightarrow> in_range lo hi (xs @ ys)"
  by (cases xs) (simp_all add: in_range_def)

lemma rune_len_append: "rune_len b cs = Some n \<Longrightarrow> rune_len b (cs @ ds) = Some n"
  by (auto simp: rune_len_def Let_def in_range_def split: if_splits list.splits)

lemma valid_utf8_append: "valid_utf8 xs \<Longrightarrow> valid_utf8 ys \<Longrightarrow> valid_utf8 (xs @ ys)"
proof (induction xs rule: valid_utf8.induct)
  case (2 b cs)
  show ?case
  proof (cases "b < 0x80")
    case True
    with 2 show ?thesis by simp
  next
    case False
    then obtain n where n: "rune_len b cs = Some n" "valid_utf8 (drop (n - 1) cs)"
      using "2.prems"(1) by (auto split: option.splits)
    from rune_len_bytes(2) [OF n(1) False] have "drop (n - 1) (cs @ ys) = drop (n - 1) cs @ ys" by simp
    with "2.IH"(2) [OF False n "2.prems"(2)] rune_len_append [OF n(1), of ys] False show ?thesis by simp
  qed
qed simp

lemma utf8_append [simp]: "utf8_string x \<Longrightarrow> utf8_string y \<Longrightarrow> utf8_string (x @ y)"
  by (simp add: utf8_string_def valid_utf8_append)

lemma utf8_Nil [simp]: "utf8_string []"
  by (simp add: utf8_string_def)

lemma utf8_Cons [simp]: "of_char c < (0x80 :: nat) \<Longrightarrow> utf8_string (c # cs) = utf8_string cs"
  by (simp add: utf8_string_def)

text \<open>The strings a builder takes from the configuration.\<close>

definition utf8_builder :: "Builder \<Rightarrow> bool" where
  "utf8_builder b \<longleftrightarrow> utf8_string (tb_devicePrefix (bl_topics b)) \<and> utf8_string (ha_DevicePrefix (bl_haCfg b))
     \<and> utf8_string (ha_DeviceName (bl_haCfg b)) \<and> utf8_string (ha_Manufacturer (bl_haCfg b)) \<and> utf8_string (ha_Model (bl_haCfg b))"

definition fields_readable :: "(string \<times> json) list \<Rightarrow> bool" where
  "fields_readable = list_all (\<lambda>(k, j). utf8_string k \<and> readable j)"

lemma fields_readable_simps [simp]:
  "fields_readable []" "fields_readable ((k, j) # fs) \<longleftrightarrow> utf8_string k \<and> readable j \<and> fields_readable fs"
  "fields_readable (fs @ gs) \<longleftrightarrow> fields_readable fs \<and> fields_readable gs"
  "readable (JObject fs) \<longleftrightarrow> fields_readable fs"
  by (simp_all add: fields_readable_def)

declare readable.simps(5) [simp del]

lemma omit_readable [simp]:
  "utf8_string k \<Longrightarrow> utf8_string v \<Longrightarrow> fields_readable (str_omit k v)"
  "utf8_string k \<Longrightarrow> list_all utf8_string vs \<Longrightarrow> fields_readable (strs_omit k vs)"
  "utf8_string k \<Longrightarrow> i \<noteq> 0 \<longrightarrow> readable (JInt i) \<Longrightarrow> fields_readable (int_omit k i)"
  "utf8_string k \<Longrightarrow> readable (JFloat f) \<Longrightarrow> fields_readable (float_omit k f)"
  by (simp_all add: json_fields list_all_iff)

text \<open>The numbers of the payloads.\<close>

lemma round64_zero [simp]: "round64 0 = Fin 0"
  by (simp add: round64_def)

lemma round64_numbers [simp]:
  "round64 1 = Fin 1" "round64 2 = Fin 2" "round64 5 = Fin 5" "round64 30 = Fin 30" "round64 (1 / 2) = Fin (1 / 2)"
proof -
  show "round64 1 = Fin 1" "round64 2 = Fin 2" "round64 5 = Fin 5" "round64 30 = Fin 30"
    using round64_of_int [of 1] round64_of_int [of 2] round64_of_int [of 5] round64_of_int [of 30] by simp_all
  have "ilog2_down (1 / 2) = 1" by (simp add: ilog2_down.simps)
  then have u: "ulp64 (1 / 2) = 1 / 2 ^ 53" by (simp add: ulp64_def ilog2_def power_int_minus inverse_eq_divide)
  have "(1 / 2) / ulp64 (1 / 2) = of_int (2 ^ 52)" unfolding u by simp
  moreover have "\<bar>1 / 2\<bar> < (2 :: rat) ^ 1024" by (rule less_le_trans [of _ 1]) simp_all
  ultimately show "round64 (1 / 2) = Fin (1 / 2)" by (rule round64_exact)
qed

lemma read_plain:
  assumes "strip_sign t = (False, t)" and "map lower t \<notin> {''inf'', ''infinity'', ''nan''}"
    and "scan_mant False False False 0 0 t = (True, n, 0, [])" and "underscores_ok False (CHR ''^'') t"
    and "(case t of z # x # _ # _ \<Rightarrow> z = CHR ''0'' \<and> lower x = CHR ''x'' | _ \<Rightarrow> False) = False"
    and "round64 (of_nat n) = Fin x"
  shows "ParseFloat64 t = Inr (Fin x)"
  using assms by (simp add: ParseFloat64_def read_number_def read_exponent_def signed_f64_def)

lemma number_texts: "number_text ''1'' 1" "number_text ''2'' 2" "number_text ''5'' 5" "number_text ''30'' 30" "number_text ''0.5'' (1 / 2)"
proof -
  have t: "\<forall>(t, n) \<in> set [(''1'', 1), (''2'', 2), (''5'', 5), (''30'', 30)]. strip_sign t = (False, t)
      \<and> map lower t \<noteq> ''inf'' \<and> map lower t \<noteq> ''infinity'' \<and> map lower t \<noteq> ''nan''
      \<and> scan_mant False False False 0 0 t = (True, n, 0, []) \<and> underscores_ok False (CHR ''^'') t"
    by code_simp
  have "ParseFloat64 ''1'' = Inr (Fin 1)" by (rule read_plain [where n = 1]) (use t in simp_all)
  moreover have "ParseFloat64 ''2'' = Inr (Fin 2)" by (rule read_plain [where n = 2]) (use t in simp_all)
  moreover have "ParseFloat64 ''5'' = Inr (Fin 5)" by (rule read_plain [where n = 5]) (use t in simp_all)
  moreover have "ParseFloat64 ''30'' = Inr (Fin 30)" by (rule read_plain [where n = 30]) (use t in simp_all)
  moreover have "dec_nat (5 div 10) @ ''.'' @ dec_nat (5 mod 10) = ''0.5''" by code_simp
  then have "ParseFloat64 ''0.5'' = Inr (Fin (1 / 2))" using ParseFloat64_tenths [of 5] by simp
  ultimately show "number_text ''1'' 1" "number_text ''2'' 2" "number_text ''5'' 5" "number_text ''30'' 30" "number_text ''0.5'' (1 / 2)"
    by (simp_all add: number_text_def number_char_def)
qed

lemma precision_least:
  assumes "k < 25" and "\<forall>i < k. round64 (of_int (decimals x i) / 10 ^ i) \<noteq> Fin \<bar>x\<bar>"
    and "round64 (of_int (decimals x k) / 10 ^ k) = Fin \<bar>x\<bar>"
  shows "precision_of x = k"
proof -
  have "[0..<25] = [0..<k] @ k # [Suc k..<25]"
    using assms(1) upt_add_eq_append [of 0 k "25 - k"] by (simp add: upt_conv_Cons)
  moreover have "filter (\<lambda>i. round64 (of_int (decimals x i) / 10 ^ i) = Fin \<bar>x\<bar>) [0..<k] = []"
    using assms(2) by (auto simp: filter_empty_conv)
  ultimately show ?thesis using assms(3) by (simp add: precision_of_def)
qed

lemma float_texts: "json_float 5 = dec_nat 5" "json_float 30 = dec_nat 30" "json_float (1 / 2) = dec_nat 0 @ ''.5''"
proof -
  have "\<lfloor>1 / 2 :: rat\<rfloor> = 0" by (rule floor_unique) simp_all
  then have "decimals 5 0 = 5" "decimals 30 0 = 30" "decimals (1 / 2) 0 = 0" "decimals (1 / 2) (Suc 0) = 5"
    by (simp_all add: decimals_def rnd_even_def Let_def)
  note d = this
  have p: "precision_of 5 = 0" "precision_of 30 = 0" "precision_of (1 / 2) = 1"
    by (rule precision_least; simp add: d)+
  show "json_float 5 = dec_nat 5" "json_float 30 = dec_nat 30" by (simp_all add: json_float_def p d Let_def)
  have "digit_char 5 = CHR ''5''" by code_simp
  then show "json_float (1 / 2) = dec_nat 0 @ ''.5''" by (simp add: json_float_def p d Let_def)
qed

lemma payload_numbers [simp]:
  "number_text (dec_int 1) 1" "number_text (dec_int 2) 2" "number_text (json_float (1 / 2)) (1 / 2)"
  "number_text (json_float 5) 5" "number_text (json_float 30) 30"
proof -
  have "dec_int 1 = ''1''" "dec_int 2 = ''2''" "dec_nat 5 = ''5''" "dec_nat 30 = ''30''" "dec_nat 0 @ ''.5'' = ''0.5''" by code_simp+
  then show "number_text (dec_int 1) 1" "number_text (dec_int 2) 2" "number_text (json_float (1 / 2)) (1 / 2)"
    "number_text (json_float 5) 5" "number_text (json_float 30) 30"
    using number_texts by (simp_all only: float_texts)
qed

lemma topics_utf8 [simp]:
  assumes "utf8_builder b"
  shows "utf8_string oid \<Longrightarrow> utf8_string (Topic_State (bl_topics b) oid)"
    "utf8_string oid \<Longrightarrow> utf8_string (Topic_Command (bl_topics b) oid)"
    "utf8_string (Topic_Availability (bl_topics b))"
  using assms by (simp_all add: topic_defs utf8_builder_def)

lemma base_readable [simp]:
  assumes "utf8_builder b" and "utf8_string fw" and "utf8_string oid" and "utf8_string name" and "utf8_string (eh_Icon h)"
  shows "fields_readable (base_fields (baseFor b oid name h fw))"
  using assms
  by (simp add: base_fields_def baseFor_def DeviceInfo_json_def deviceInfo_def categoryString_def, simp add: utf8_builder_def)

lemma hints_utf8: "\<forall>reg \<in> set RegistersWithEntity. let h = rd_Hint reg in utf8_string (eh_ObjectID h) \<and> utf8_string (eh_Name h)
    \<and> utf8_string (eh_Icon h) \<and> utf8_string (eh_DeviceClass h) \<and> utf8_string (eh_Unit h) \<and> utf8_string (eh_StateClass h)
    \<and> eh_Precision h \<in> {0, 1, 2}"
  by code_simp

lemma register_payloads_readable:
  assumes "utf8_builder b" and "utf8_string fw" and "reg \<in> set RegistersWithEntity"
  shows "readable (SensorPayload_json (sensor_payload b reg fw))" "readable (SwitchPayload_json (switch_payload b reg fw))"
proof -
  have h: "utf8_string (eh_ObjectID (rd_Hint reg))" "utf8_string (eh_Name (rd_Hint reg))" "utf8_string (eh_Icon (rd_Hint reg))"
    "utf8_string (eh_DeviceClass (rd_Hint reg))" "utf8_string (eh_Unit (rd_Hint reg))" "utf8_string (eh_StateClass (rd_Hint reg))"
    "eh_Precision (rd_Hint reg) = 0 \<or> eh_Precision (rd_Hint reg) = 1 \<or> eh_Precision (rd_Hint reg) = 2"
    using hints_utf8 assms(3) by (auto simp: Let_def)
  then have "eh_Precision (rd_Hint reg) \<noteq> 0 \<longrightarrow> readable (JInt (eh_Precision (rd_Hint reg)))" by auto
  then show "readable (SensorPayload_json (sensor_payload b reg fw))"
    using assms(1,2) h(1-6) by (simp add: SensorPayload_json_def sensor_payload_def Let_def)
  show "readable (SwitchPayload_json (switch_payload b reg fw))"
    using assms(1,2) h(1-6) by (simp add: SwitchPayload_json_def switch_payload_def Let_def)
qed

lemma fixed_payloads_readable:
  assumes "utf8_builder b" and "utf8_string fw"
  shows "readable (ClimatePayload_json (climate_payload b fw))"
    "utf8_string oid \<Longrightarrow> utf8_string n \<Longrightarrow> utf8_string d \<Longrightarrow> utf8_string on \<Longrightarrow> utf8_string off \<Longrightarrow> utf8_string i \<Longrightarrow>
       readable (BinarySensorPayload_json (binary_payload b oid n d on off c i fw))"
    "utf8_string oid \<Longrightarrow> utf8_string n \<Longrightarrow> utf8_string i \<Longrightarrow> readable (SensorPayload_json (derived_payload b oid n c i fw))"
proof -
  show "readable (BinarySensorPayload_json (binary_payload b oid n d on off c i fw))"
    if "utf8_string oid" "utf8_string n" "utf8_string d" "utf8_string on" "utf8_string off" "utf8_string i"
    using assms that by (simp add: BinarySensorPayload_json_def binary_payload_def)
  show "readable (SensorPayload_json (derived_payload b oid n c i fw))" if "utf8_string oid" "utf8_string n" "utf8_string i"
    using assms that by (simp add: SensorPayload_json_def derived_payload_def)
  have "fields_readable (base_fields (baseFor b ClimateObjectID [] (zero_hint\<lparr>eh_Icon := ''mdi:hvac''\<rparr>) fw))"
    using assms by (simp add: ClimateObjectID_def)
  then have "fields_readable (base_fields (baseFor b ClimateObjectID [] (zero_hint\<lparr>eh_Icon := ''mdi:hvac''\<rparr>) fw\<lparr>be_ObjectID := ClimateObjectID\<rparr>))"
    by (simp add: base_fields_def ClimateObjectID_def)
  then show "readable (ClimatePayload_json (climate_payload b fw))"
    using assms(1) by (simp add: ClimatePayload_json_def climate_payload_def Let_def)
qed

lemma configs_readable:
  assumes "utf8_builder b" and "utf8_string fw" and "(c, x, j) \<in> set (configs b fw)"
  shows "readable j"
  using assms(3) register_payloads_readable [OF assms(1,2)] fixed_payloads_readable [OF assms(1,2)]
  by (auto simp: configs_def build_one_def Let_def object_ids split: if_splits)

subsection \<open>Properties\<close>



end
