(* ===== verification/Probes.thy ===== *)
theory Probes
  imports AppGuarantees Logger "HOL-Library.Signed_Division"
begin

text \<open>
  What the HTTP surface answers about the running application. The web framework is the argument
  \<open>dispatch\<close>, which finds the handler of a request in the routes; the text of the metrics page is the
  argument \<open>page\<close>. Around the handlers is the access log of the router.
\<close>

subsection \<open>The handlers of the application\<close>

text \<open>A response: the status, and the fields of the JSON body or a page with its content type.\<close>

datatype Body = Fields "(string \<times> string) list" | Page string string

definition Prometheus :: "string \<Rightarrow> int \<times> Body" where
  "Prometheus page = (200, Page ''text/plain; charset=utf-8'' page)"

type_synonym route_lookup = "((string \<times> string) \<times> Endpoint) list \<Rightarrow> string \<times> string \<Rightarrow> Endpoint option"

text \<open>A request is a method and a path.\<close>

definition http_request ::
  "route_lookup \<Rightarrow> (('m, 'q) App \<Rightarrow> string) \<Rightarrow> ('m, 'q) AppEnv \<Rightarrow> string \<times> string \<Rightarrow> ('m, 'q) App \<Rightarrow> int \<times> Body" where
  "http_request dispatch page E req a =
     (case dispatch routes req of
        None \<Rightarrow> (404, Page ''text/plain'' ''404 page not found'')
      | Some LiveEndpoint \<Rightarrow> (case Live of (st, fs) \<Rightarrow> (st, Fields fs))
      | Some ReadyEndpoint \<Rightarrow>
          (case Ready (mq_Connected (aw_mqtt (app_world a))) (Poller_Snapshot (ps_poller (app_polls a)))
                  (fst (av_now (app_clock E) (app_polls a))) readinessThreshold of (st, fs) \<Rightarrow> (st, Fields fs))
      | Some MetricsEndpoint \<Rightarrow> Prometheus (page a))"

abbreviation http_get ::
  "route_lookup \<Rightarrow> (('m, 'q) App \<Rightarrow> string) \<Rightarrow> ('m, 'q) AppEnv \<Rightarrow> string \<Rightarrow> ('m, 'q) App \<Rightarrow> int \<times> Body" where
  "http_get dispatch page E path \<equiv> http_request dispatch page E (''GET'', path)"

subsection \<open>The router and its middleware\<close>

text \<open>One record of the access log.\<close>

record AccessEntry =
  acc_method :: string
  acc_path :: string
  acc_status :: int
  acc_duration_ms :: int

text \<open>
  \<open>slogMiddleware\<close> runs the rest of the chain, which may panic (\<open>None\<close>), and logs the completed request at
  level info. \<open>lvl\<close> is the level of the logger, \<open>now\<close> the clock. The log call is not deferred, so a
  request that panics is not in the access log; the library's recovery middleware around it answers.
\<close>

definition slogMiddleware ::
  "('s \<Rightarrow> gotime \<times> 's) \<Rightarrow> Level \<Rightarrow> (string \<times> string \<Rightarrow> 's \<Rightarrow> (int \<times> Body) option \<times> 's) \<Rightarrow> string \<times> string \<Rightarrow>
     AccessEntry list \<times> 's \<Rightarrow> (int \<times> Body) option \<times> AccessEntry list \<times> 's" where
  "slogMiddleware now lvl chain req x =
     (let (entries, s) = x; (start, s1) = now s in
      case chain req s1 of
        (None, s2) \<Rightarrow> (None, entries, s2)
      | (Some resp, s2) \<Rightarrow>
          let (t, s3) = now s2 in
          (Some resp,
           (if lvl \<le> LevelInfo
            then entries @ [\<lparr>acc_method = fst req, acc_path = snd req, acc_status = fst resp,
                              acc_duration_ms = time_sub t start sdiv Millisecond\<rparr>]
            else entries), s3))"

text \<open>\<open>recovery\<close> is the recovery middleware of the library: what it makes of the end of the chain.\<close>

definition NewRouter ::
  "((int \<times> Body) option \<Rightarrow> int \<times> Body) \<Rightarrow> route_lookup \<Rightarrow> (('m, 'q) App \<Rightarrow> string) \<Rightarrow> ('m, 'q) AppEnv \<Rightarrow> Level \<Rightarrow>
     string \<times> string \<Rightarrow> AccessEntry list \<times> ('m, 'q) App \<Rightarrow> (int \<times> Body) \<times> AccessEntry list \<times> ('m, 'q) App" where
  "NewRouter recovery dispatch page E lvl req x =
     (case slogMiddleware (\<lambda>a. case av_now (app_clock E) (app_polls a) of (t, s) \<Rightarrow> (t, on_polls (\<lambda>_. s) a)) lvl
             (\<lambda>req a. (Some (http_request dispatch page E req a), a)) req x of
        (r, y) \<Rightarrow> (recovery r, y))"

subsection \<open>Laws\<close>

lemma fst_fields: "fst (case r of (st, fs) \<Rightarrow> (st, Fields fs)) = fst r"
  by (cases r) simp

text \<open>
  No handler of the application panics, so the middleware passes every response on, and the access log
  has one record per request, with the status that was answered, unless the level suppresses it.
\<close>

lemma router_answers:
  assumes "\<And>r. recovery (Some r) = r" and "NewRouter recovery dispatch page E lvl req (entries, a) = (resp, entries', a')"
  shows "\<exists>t s d. av_now (app_clock E) (app_polls a) = (t, s)
    \<and> resp = http_request dispatch page E req (on_polls (\<lambda>_. s) a)
    \<and> entries' = entries @ (if lvl \<le> LevelInfo
        then [\<lparr>acc_method = fst req, acc_path = snd req, acc_status = fst resp, acc_duration_ms = d\<rparr>] else [])"
proof -
  obtain t s where 1: "av_now (app_clock E) (app_polls a) = (t, s)" by fastforce
  obtain u s' where 2: "av_now (app_clock E) s = (u, s')" by fastforce
  have "resp = http_request dispatch page E req (on_polls (\<lambda>_. s) a)
    \<and> entries' = entries @ (if lvl \<le> LevelInfo then [\<lparr>acc_method = fst req, acc_path = snd req, acc_status = fst resp,
        acc_duration_ms = time_sub u t sdiv Millisecond\<rparr>] else [])"
    using assms by (auto simp: NewRouter_def slogMiddleware_def 1 2)
  with 1 show ?thesis by blast
qed

lemma Ready_status:
  "fst (Ready c snap now threshold) =
     (if c \<and> \<not> IsZero (sn_PolledAt snap) \<and> time_sub now (sn_PolledAt snap) \<le> threshold then 200 else 503)"
  by (simp add: Ready_def not_less)



end
