(* ===== verification/Spec2Isabelle.thy ===== *)
theory Spec2Isabelle
  imports Catalog Livelock Wiring SharedBus AvailabilityLoop Shutdown ConfigLoad Poller CommandSubscriber PublishDiscovery Availability Logger CommandLoop DiscoveryText Probes
begin

text \<open>
  A verification development for the bridge between a GTC Oasis ventilation controller, which speaks
  Modbus TCP, and Home Assistant, which speaks MQTT. Paths are relative to the root of the repository.

  \<^bold>\<open>The program.\<close> The Modbus client owns one TCP connection and serialises every operation, with a guard
  interval between two of them. All operations pass through the dispatcher, which counts failures in a
  row and, at three, signals the supervisor; the supervisor closes the connection and redials it with an
  exponential backoff. Three goroutines poll the controller (hot, medium and slow registers); each merges
  what it read into one snapshot and hands the merged snapshot to the subscribers, of which the
  application has one, the state publisher with its nineteen retained messages. Commands come back over
  four MQTT topics; the command use case refuses them while the controller reports a transition. The MQTT
  client remembers its subscriptions and restores them, with the retained announcement of the device, on
  every connect. Around these: the discovery configurations of Home Assistant, the listener for its
  birth message, the availability manager, the probes, and the configuration from the environment.

  \<^bold>\<open>Theories and sources,\<close> from the bottom up.

  \<^item> Prelude, GoError, GoFloat, GoStr: what the program uses of the language and its library: machine
    integers as words, error values with \<open>errors.Is\<close>, float64 as exact rationals rounded to binary64,
    formatting, number parsing and case folding of byte strings.
  \<^item> ValueObjects, Catalog, Entity: \<^verbatim>\<open>domain/valueobject\<close>, \<^verbatim>\<open>domain/catalog\<close>, \<^verbatim>\<open>domain/entity\<close>.
  \<^item> Config, ConfigLoad: \<^verbatim>\<open>infrastructure/config\<close>. The environment is a function from names to strings.
  \<^item> Metrics, Logger: \<^verbatim>\<open>infrastructure/metrics\<close>, \<^verbatim>\<open>infrastructure/logger\<close>.
  \<^item> ModbusDecode, ModbusClient, ModbusClientLaws, Device: \<^verbatim>\<open>infrastructure/modbus\<close>; Device states what
    the Modbus functions do to the registers of a controller (\<open>device_laws\<close>, \<open>responsive\<close>) and has a
    simulated controller that satisfies it.
  \<^item> Dispatcher, Backoff, Supervisor, LinkSpec, Recovery, Livelock: \<^verbatim>\<open>application/service\<close>; LinkSpec is the
    abstract link, Recovery the endless runs with fair scheduling, Livelock a fair endless run in which the
    supervisor drops good connections for ever.
  \<^item> PollController, Poller: \<^verbatim>\<open>application/usecase/poll_controller.go\<close>, \<^verbatim>\<open>application/service/poller.go\<close>.
  \<^item> ApplyCommand, CommandSubscriber, BusOps: \<^verbatim>\<open>application/dto\<close>, \<^verbatim>\<open>application/usecase/apply_command.go\<close>,
    \<^verbatim>\<open>interface/mqtt\<close>, and the single bus operations these consist of.
  \<^item> MqttClient, PublishState, Json, Discovery, PublishDiscovery: \<^verbatim>\<open>infrastructure/mqtt\<close>,
    \<^verbatim>\<open>application/usecase/publish_state.go\<close>, \<^verbatim>\<open>infrastructure/discovery\<close>,
    \<^verbatim>\<open>application/usecase/publish_discovery.go\<close>.
  \<^item> JsonRead, DiscoveryText: a reference reader of JSON texts, and that it reads the texts of the discovery
    configurations back.
  \<^item> Availability, HttpServer, Probes: the availability manager and the birth-message listener of
    \<^verbatim>\<open>application/service\<close>, and \<^verbatim>\<open>interface/http\<close>.
  \<^item> App, AppLaws, AppMessages, AppGuarantees, CommandLoop: \<^verbatim>\<open>internal/app\<close> and \<^verbatim>\<open>cmd/server\<close>; the whole
    application as a step relation, and what holds in every run of it.
  \<^item> Wiring: the same construction over a heap of structs and pointers, with the nil checks of all constructors.
  \<^item> SharedBus: polls between whose reads others use the bus. Settled: a connection that is up stays up while
    the controller answers. Convergence, AvailabilityLoop: the endless runs of the application, with the
    tiers in turn and with the availability ticker in turn.
  \<^item> Shutdown: the shutdown in full, with the waits for the goroutines.

  \<^bold>\<open>State and effects.\<close> A component is a record of its fields; an operation is a function that returns its
  result with the new state. What is not in the repository is a parameter: \<open>ModbusEnv\<close> (the Modbus library,
  the network, the clock, the waits), \<open>MqttEnv\<close> (the MQTT library, where a token completes, fails or is
  abandoned when the context ends), the random numbers and the conversion of floats out of range. Each
  acts on a world of its own, and nothing is known of it but the named laws a theorem assumes. Errors
  are values of the sum type, panics of constructors are \<open>None\<close>. The records nest as the components hold
  each other: availability manager, poll system, world of dispatcher, MQTT client and discovery publisher.
  In the program they are structs that point to each other, and some are held by several holders. Wiring
  builds that graph as \<open>New\<close> does and shows that the nested record is what it stores: every component
  that holds a client holds the same one, so that one copy of its state is enough.

  \<^bold>\<open>Goroutines.\<close> They are interleaved as the rules of a step relation. \<open>poll_step\<close> (Poller) cuts a poll at its
  two critical sections: fetch, merge, notify. \<open>sup_step\<close> and \<open>sys_step\<close> (Supervisor) let the calls of the
  dispatcher run between the steps of the supervisor. \<open>app_step\<close> (AppLaws) has the poll steps, the callbacks
  of the MQTT library, the availability ticks, the supervisor, the outside of the controller, and, as the
  rule \<open>bus\<close>, any single operation of a poll or a command that is under way; BusOps shows that polls and
  command messages are sequences of these operations, and SharedBus that a poll takes effect at one moment
  although its reads are three operations, so that it may be one step. A callback of the MQTT library that publishes is
  one step. The deadlines of the callbacks are part of the environment, which may fail any operation.

  \<^bold>\<open>Interfaces.\<close> A locale states what a client relies on: \<open>register_source\<close> and \<open>responsive_source\<close> (the
  dispatcher as seen by the polls), \<open>shared_source\<close> (the same while others use the bus), \<open>command_port\<close> and \<open>live_command_port\<close> (as seen by commands), \<open>publisher\<close>
  and \<open>live_publisher\<close> (the MQTT client as seen by the publishers), \<open>client_invariant\<close> (what every operation of
  the Modbus client keeps), \<open>poller_world\<close> (what a property of the world needs to survive the poller). All are
  interpreted on the model; several properties of the world reuse \<open>poller_world\<close> and \<open>register_source\<close> with an
  invariant of their own in place of \<open>ok\<close>.

  \<^bold>\<open>What is shown.\<close> Of the values: encoders and decoders are inverse within their bounds, the register
  catalog covers what the polls read, the error bits are decoded as documented. Of the bus: the guard
  interval is kept between any two transactions, a read-modify-write is atomic, the connection is dropped
  for exactly the errors that lose it. Of the supervision: the invariant of the running system, its
  refinement of the abstract link, termination of the redialling once the controller is back (the loops
  are partial functions, so termination is the statement that they return), and recovery in every fair
  run; a recovered connection need not last, for a wake-up left over from the outage tears it down
  again, and that can repeat for ever (Livelock). Of the polls: a poll returns the view of the registers at one moment, whatever others do between its
  reads, and the latest snapshot is assembled from the last poll of each tier. Of the
  commands: the guard, the exact traffic, the effect, and success while the controller answers. Of the
  messages: the payloads, the topics and the discovery configurations agree with each other, and the texts
  of the configurations are read back as the values they were made of. Of the whole application: from a
  settled connection on, while the controller stands still and answers, the broker ends up with the payloads of its registers on every state topic
  (Convergence), and once the age of the snapshot has settled it ends up with the verdict of the
  availability manager (AvailabilityLoop); the shutdown ends within its limits (Shutdown); in this theory: it starts without a panic, every message is accounted for, the
  subscriptions survive, the registers stay within limits, commands come back as states, a birth message
  republishes, the shutdown announces itself.

  \<^bold>\<open>Bounds.\<close> There is no fuel. Liveness is stated over endless runs, with the fairness it needs as a
  hypothesis (\<open>fair_run\<close>, \<open>tiers_fair\<close>, \<open>ticks_fair\<close>). Numbers keep their width; a duration is an int whose range
  \<open>loaded_config_typed\<close> establishes for what is loaded. Times are nanoseconds without wrap-around.

  \<^bold>\<open>Not modelled.\<close> Log calls, whose results nothing depends on (the access log of the HTTP server apart); the
  listener, the timeouts and the recovery of the HTTP server and the text of the metrics page, which
  belong to libraries; the
  helpers of the end-to-end tests.
\<close>

section \<open>Properties of the whole application\<close>

text \<open>
  C16. Whatever the environment variables are, the process never panics while it starts: it reports an
  error (exit status 1), keeps trying to reach the controller, or runs. When it runs, it runs with the
  configuration it loaded, with the state publisher subscribed to the poller, both availability callbacks
  set and the birth message wired to the republication.
\<close>

theorem start_never_panics:
  shows "main E env evs mw qw \<noteq> Some (Inl 2)
    \<and> (\<forall>b. main E env evs mw qw = Some (Inr b) \<longrightarrow>
         Load env = Inr (ap_cfg b) \<and> wired E b \<and> hs_topic (ap_haStatus b) = haStatusTopic (ap_cfg b)
         \<and> NewTopicBuilder (cf_HomeAssistant (ap_cfg b)) = Some (ap_topics b))"
proof -
  have n: "\<exists>a. New E cfg mw qw = Some a" if "Load env = Inr cfg" for cfg
  proof -
    note p = Load_parts [OF that]
    have ha: "ha_DiscoveryPrefix (cf_HomeAssistant cfg) \<noteq> []" "ha_DevicePrefix (cf_HomeAssistant cfg) \<noteq> []"
      using p by (simp_all add: loadHomeAssistant_def)
    have "valid_config cfg" using p by (simp add: Validate_accepts_iff)
    then have "0 < pl_HotInterval (cf_Polling cfg)" "0 < pl_MediumInterval (cf_Polling cfg)" "0 < pl_SlowInterval (cf_Polling cfg)"
      by (auto simp: valid_config_def valid_polling_def Second_def Millisecond_def)
    then show ?thesis by (rule New_Some [OF ha])
  qed
  have r: "ap_cfg b = cfg \<and> wired E b \<and> hs_topic (ap_haStatus b) = haStatusTopic cfg
      \<and> NewTopicBuilder (cf_HomeAssistant cfg) = Some (ap_topics b)"
    if "New E cfg mw qw = Some a" and "Run E evs a = Some (Inr b)" for cfg a b
  proof (rule Run_boot [OF that])
    fix a1 assume "boot_mqtt E evs a1 = Inr b" and "wired E a1" and a1: "ap_cfg a1 = cfg"
      "NewTopicBuilder (cf_HomeAssistant cfg) = Some (ap_topics a1)" "hs_topic (ap_haStatus a1) = haStatusTopic cfg"
    from boot_wired [OF this(1,2)] a1 show ?thesis by simp
  qed
  show ?thesis
  proof (cases "Load env")
    case (Inr cfg)
    from n [OF Inr] obtain a where a: "New E cfg mw qw = Some a" by (rule exE)
    have m: "main E env evs mw qw = (case Run E evs a of None \<Rightarrow> None | Some (Inl err) \<Rightarrow> Some (Inl 1) | Some (Inr b) \<Rightarrow> Some (Inr b))"
      by (simp add: main_def Inr a)
    show ?thesis
    proof (cases "Run E evs a")
      case (Some x)
      show ?thesis
      proof (cases x)
        case (Inr b)
        from r [OF a] Some Inr \<open>Load env = Inr cfg\<close> show ?thesis by (simp add: m)
      qed (simp add: m Some)
    qed (simp add: m)
  qed (simp add: main_def)
qed

text \<open>
  C5. Composed of its real parts, the application never leaves the supervised connection: whatever polls,
  messages, ticks, steps of the supervisor and events of the network follow each other, its connection
  moves only as the abstract link does, the connection gauge is right, the connection is down while the
  supervisor waits to redial, and no wake-up is lost after three failures in a row.
\<close>

theorem application_supervised:
  assumes "device_laws (ae_modbus E) dev" and "New E cfg mw qw = Some a0" and "Run E evs a0 = Some (Inr a)"
    and "(app_step E W)\<^sup>*\<^sup>* a b" and "c = ds_client (aw_disp (app_world b))"
  shows "link_step\<^sup>*\<^sup>* link0 (link_of (app_system b)) \<and> modbusConnectedFlag (cl_metrics c) = Connected c
    \<and> (\<forall>dl. ap_phase b = PhDwelling dl \<longrightarrow> \<not> Connected c)
    \<and> (3 \<le> ds_consecutiveErrs (aw_disp (app_world b)) \<longrightarrow>
         ds_pending (aw_disp (app_world b)) \<or> ap_phase b \<noteq> PhWaiting \<or> Connected c)"
proof -
  obtain c0 bo where s: "supervisor_Start (ae_modbus E) (ae_oor E) (ae_rng E)
      (NewClient (cf_Modbus cfg) metrics0 mw, NewBackoffWithRand (cf_Reconnect cfg)) = Some (Inr (c0, bo))"
    and r: "sys_reach (ae_modbus E) (ae_oor E) (ae_rng E) (init_system c0 3 bo) (app_system b)"
    by (rule app_supervised [OF assms(1-4)])
  have w: "client_wf c0" "cl_connected c0" using supervisor_Start_wf [OF s] by simp_all
  have i: "sys_inv (init_system c0 3 bo)" by (rule sys_inv_init [OF w(1)]) simp
  have "ds_threshold (sy_disp (app_system b)) = 3" using sys_reach_threshold [OF r] by (simp add: init_system_def)
  with sys_reach_inv [OF r i] sys_reach_link [OF r i] show ?thesis
    by (simp add: link_init [OF w(2)] sys_inv_def client_wf_def Connected_def app_system_def assms(5))
qed

text \<open>
  C6. Every message the application ever hands to the broker is accounted for: it is retained, and it is
  the availability of the device, or one of the sixteen discovery configurations for the firmware
  \<open>unknown\<close> or the firmware of a snapshot, or a state message of a snapshot that was the latest one at
  some moment; and the latest snapshot is assembled from the last successful poll of each tier.
\<close>

theorem messages_accounted:
  assumes "log_law (ae_mqtt E) lg" and "published (lg qw) = []"
    and "New E cfg mw qw = Some a0" and "Run E evs a0 = Some (Inr a)" and "(app_step E W)\<^sup>*\<^sup>* a b"
  shows "set (said lg (app_world b)) \<subseteq> account (ap_topics b) (app_builder b) (ps_events (app_polls b))
    \<and> Poller_Snapshot (ps_poller (app_polls b)) = merge_all (ps_events (app_polls b))
    \<and> set (ps_delivered (app_polls b)) \<subseteq> past (ps_events (app_polls b))"
proof -
  have "accounted E lg a" using Run_accounted [OF assms(3,4,1,2)] by simp
  from app_run_accounted [OF assms(5) this] show ?thesis
    by (simp add: accounted_def app_account_def speaks_def poll_inv_def Poller_Snapshot_def)
qed

text \<open>
  C13. The five subscriptions of the application, the four command topics and the status topic of Home
  Assistant, each with its handler, outlive every disconnect: at any time a (re)connect announces the
  device and hands all five to the broker, whatever fails on the way.
\<close>

theorem subscriptions_survive:
  assumes "log_law (ae_mqtt E) lg" and "New E cfg mw qw = Some a0" and "Run E evs a0 = Some (Inr a)"
    and "(app_step E W)\<^sup>*\<^sup>* a b" and "q = aw_mqtt (app_world b)" and "distinct order" and "set order = dom (mqc_subs q)"
  shows "mqc_subs q = app_subs (ap_topics b) (haStatusTopic cfg)
    \<and> (\<exists>l. lg (mqc_world (onConnect (ae_mqtt E) order q)) = lg (mqc_world q)
          @ BPublish (Topic_Availability (mqc_topics q)) AvailabilityOnline True # l \<and> distinct l
        \<and> set l = {BSubscribe t h |t h. app_subs (ap_topics b) (haStatusTopic cfg) t = Some h})"
proof -
  have s: "mqc_client q" "mqc_subs q = app_subs (ap_topics b) (haStatusTopic cfg)"
    using Run_subs [OF assms(2-4)] by (simp_all add: assms(5))
  from onConnect_log [OF assms(1) s(1) assms(6,7)] show ?thesis unfolding s(2) by blast
qed

text \<open>
  C8. What the application does to the controller: every change of its registers between two moments is
  composed of changes within the documented limits (the four command registers, the setpoint in 50..300,
  the fan target in 1..10, the power 0 or 1, two bits of the key register) and of what the outside does.
  So a relation that contains both relates any two moments of any run.
\<close>

theorem controller_within_limits:
  assumes "device_laws (ae_modbus E) dev" and "quiet (ae_rng E) dev"
    and "New E cfg mw qw = Some a0" and "Run E evs a0 = Some (Inr a)" and "(app_step E W)\<^sup>*\<^sup>* a b"
    and "\<And>r r'. within_limits r r' \<Longrightarrow> R r r'" and "\<And>w w'. W w w' \<Longrightarrow> R (dev w) (dev w')" and "transp R"
  shows "R (app_dev dev a) (app_dev dev b)"
proof -
  have "wired E a" using Run_subs [OF assms(3,4) rtranclp.rtrancl_refl [of "app_step E W"]] by simp
  from app_run_within [OF assms(5) this assms(1,2,6-8)] show ?thesis .
qed


text \<open>
  C12. When Home Assistant announces that it is back, and the broker acknowledges, the application hands
  it all sixteen configurations again, now for the firmware the controller reported, and the nineteen
  state messages of the latest snapshot; before the first poll only the configurations.
\<close>

theorem birth_republishes:
  assumes "New E cfg mw qw = Some a0" and "Run E evs a0 = Some (Inr a)" and "(app_step E W)\<^sup>*\<^sup>* a b"
    and "published (lg qw) = []" and "mq_up (ae_mqtt E) lg up (aw_mqtt (app_world b))"
    and "TrimSpace (ToLower payload) = ''online''" and "m = Poller_Snapshot (ps_poller (app_polls b))"
  shows "said lg (app_world (mqtt_event E (Arrived (haStatusTopic cfg) payload) b)) = said lg (app_world b)
    @ configs_sent (app_builder b) (if IsZero (sn_PolledAt m) then ''unknown'' else Firmware_String (sn_Firmware m))
    @ (if IsZero (sn_PolledAt m) then [] else messages_of (ap_topics b) m)"
proof -
  have L: "log_law (ae_mqtt E) lg" using assms(5) by (simp add: mq_up_def)
  have "accounted E lg b" using app_run_accounted [OF assms(3)] Run_accounted [OF assms(1,2) L assms(4)] by blast
  then have b: "pd_builder (aw_discovery (app_world b)) = app_builder b" "wired E b"
    by (simp_all add: accounted_def speaks_def)
  have "mqc_subs (aw_mqtt (app_world b)) (haStatusTopic cfg) = Some HAStatusTopic"
    using Run_subs [OF assms(1-3)] app_subs_status by simp
  then show ?thesis
    using ha_online_up [OF assms(5,7)] b assms(6) by (simp add: ha_handle_def wired_def)
qed



section \<open>Witnesses\<close>

text \<open>All on one run: the default configuration, the simulated controller and the simulated broker.\<close>

theorem start_never_panics_witness:
  "\<exists>b. main sim_app_env (\<lambda>_. []) sim_events (sim_world zero_regs []) [] = Some (Inr b) \<and> ap_cfg b = default_config"
proof -
  obtain b where "main sim_app_env (\<lambda>_. []) sim_events (sim_world zero_regs []) [] = Some (Inr b)"
    using sim_app [of zero_regs] by (auto simp: main_def Load_defaults)
  with start_never_panics [of sim_app_env "\<lambda>_. []" sim_events "sim_world zero_regs []" "[]"] Load_defaults
  show ?thesis by auto
qed

theorem application_supervised_witness:
  "\<exists>a0 a. New sim_app_env default_config (sim_world zero_regs []) [] = Some a0
     \<and> Run sim_app_env sim_events a0 = Some (Inr a) \<and> link_step\<^sup>*\<^sup>* link0 (link_of (app_system a))"
proof -
  obtain a0 a where a: "New sim_app_env default_config (sim_world zero_regs []) [] = Some a0"
    "Run sim_app_env sim_events a0 = Some (Inr a)" using sim_app by blast
  with application_supervised [OF sim_app_laws(2) a rtranclp.rtrancl_refl HOL.refl] show ?thesis by blast
qed

theorem messages_accounted_witness:
  "\<exists>a0 a. New sim_app_env default_config (sim_world zero_regs []) [] = Some a0
     \<and> Run sim_app_env sim_events a0 = Some (Inr a)
     \<and> set (said id (app_world a)) \<subseteq> account (ap_topics a) (app_builder a) (ps_events (app_polls a))"
proof -
  obtain a0 a where a: "New sim_app_env default_config (sim_world zero_regs []) [] = Some a0"
    "Run sim_app_env sim_events a0 = Some (Inr a)" using sim_app by blast
  with messages_accounted [OF sim_app_laws(1) _ a rtranclp.rtrancl_refl] show ?thesis by (auto simp: published_def)
qed

theorem subscriptions_survive_witness:
  "\<exists>a0 a. New sim_app_env default_config (sim_world zero_regs []) [] = Some a0
     \<and> Run sim_app_env sim_events a0 = Some (Inr a)
     \<and> mqc_subs (aw_mqtt (app_world a)) = app_subs (ap_topics a) (haStatusTopic default_config)"
proof -
  obtain a0 a where a: "New sim_app_env default_config (sim_world zero_regs []) [] = Some a0"
    "Run sim_app_env sim_events a0 = Some (Inr a)" using sim_app by blast
  have "mqc_subs (aw_mqtt (app_world a)) = app_subs (ap_topics a) (haStatusTopic default_config)"
    using Run_subs [OF a rtranclp.rtrancl_refl] by simp
  then have "finite (dom (mqc_subs (aw_mqtt (app_world a))))" by (simp add: app_subs_def subscriptions_def)
  then obtain order where "set order = dom (mqc_subs (aw_mqtt (app_world a)))" "distinct order"
    using finite_distinct_list [of "dom (mqc_subs (aw_mqtt (app_world a)))"] by auto
  from subscriptions_survive [OF sim_app_laws(1) a rtranclp.rtrancl_refl HOL.refl \<open>distinct order\<close> \<open>set order = _\<close>, THEN conjunct1] a
  show ?thesis by (intro exI conjI)
qed

theorem controller_within_limits_witness:
  "\<exists>a0 a. New sim_app_env default_config (sim_world sample_regs []) [] = Some a0
     \<and> Run sim_app_env sim_events a0 = Some (Inr a)
     \<and> within_limits (app_dev wd_dev a)
         (app_dev wd_dev (mqtt_event sim_app_env (Arrived (haStatusTopic default_config) ''online'') a))"
proof -
  obtain a0 a where a: "New sim_app_env default_config (sim_world sample_regs []) [] = Some a0"
    "Run sim_app_env sim_events a0 = Some (Inr a)" using sim_app by blast
  have t: "transp within_limits" by (rule transpI) (rule within_limits_trans)
  let ?b = "mqtt_event sim_app_env (Arrived (haStatusTopic default_config) ''online'') a"
  have "(app_step sim_app_env (\<lambda>_ _. False))\<^sup>*\<^sup>* a ?b" by (rule r_into_rtranclp) (rule app_step.mqtt)
  from controller_within_limits [OF sim_app_laws(2,3) a this, of within_limits, OF _ _ t]
  have "within_limits (app_dev wd_dev a) (app_dev wd_dev ?b)" by simp
  with a show ?thesis by (intro exI conjI)
qed


theorem birth_republishes_witness:
  "\<exists>a0 a l. New sim_app_env default_config (sim_world zero_regs []) [] = Some a0
     \<and> Run sim_app_env sim_events a0 = Some (Inr a)
     \<and> said id (app_world (mqtt_event sim_app_env (Arrived (haStatusTopic default_config) ''ONLINE'') a))
         = said id (app_world a) @ configs_sent (app_builder a) ''unknown'' @ l"
proof -
  obtain a0 a where a: "New sim_app_env default_config (sim_world zero_regs []) [] = Some a0"
    "Run sim_app_env sim_events a0 = Some (Inr a)" "mqc_connected (aw_mqtt (app_world a))" using sim_app by blast
  have p: "published (id []) = []" by (simp add: published_def)
  note u = sim_app_quiet [OF a(1,2)]
  have z: "IsZero (sn_PolledAt (Poller_Snapshot (ps_poller (app_polls a))))"
    by (simp add: u zero_Snapshot_def IsZero_def)
  have "ToLower ''ONLINE'' = ''online''" by code_simp
  then have "TrimSpace (ToLower ''ONLINE'') = ''online''" using TrimSpace_visible [of "''online''"] by (simp add: visible_def)
  from birth_republishes [OF a(1,2) rtranclp.rtrancl_refl p u(1) this HOL.refl]
  have "said id (app_world (mqtt_event sim_app_env (Arrived (haStatusTopic default_config) ''ONLINE'') a))
      = said id (app_world a) @ configs_sent (app_builder a) ''unknown'' @ []" by (simp only: z if_True)
  with a(1,2) show ?thesis by (intro exI conjI)
qed



end
